theory Spec2Isabelle
  imports Complex_Main "HOL-Library.Word" "HOL-Library.Sublist" "HOL-Library.Log_Nat"
begin

unbundle bit_operations_syntax

section \<open>Propagation modes (src/core/PropagationModes.hpp)\<close>

text \<open>
  A propagation mask is a C++ \<^verbatim>\<open>int\<close> used as a set of bits: a 32-bit word. The enumerators
  are written as in the header, \<^verbatim>\<open>1 << k\<close> being \<open>push_bit k 1\<close>.
\<close>

type_synonym mask = "32 word"

definition NONE :: mask where
  "NONE = 0"

definition TRANS_SYSTEM_DEFAULT :: mask where
  "TRANS_SYSTEM_DEFAULT = push_bit 0 1"

definition TRANS_LANGEVIN :: mask where
  "TRANS_LANGEVIN = push_bit 1 1"

definition TRANS_VS_RELATIVE :: mask where
  "TRANS_VS_RELATIVE = push_bit 2 1"

definition TRANS_LB_MOMENTUM_EXCHANGE :: mask where
  "TRANS_LB_MOMENTUM_EXCHANGE = push_bit 3 1"

definition TRANS_LB_TRACER :: mask where
  "TRANS_LB_TRACER = push_bit 4 1"

definition TRANS_BROWNIAN :: mask where
  "TRANS_BROWNIAN = push_bit 5 1"

definition TRANS_STOKESIAN :: mask where
  "TRANS_STOKESIAN = push_bit 6 1"

definition ROT_LANGEVIN :: mask where
  "ROT_LANGEVIN = push_bit 7 1"

definition ROT_VS_RELATIVE :: mask where
  "ROT_VS_RELATIVE = push_bit 8 1"

definition ROT_BROWNIAN :: mask where
  "ROT_BROWNIAN = push_bit 9 1"

text \<open>
  \<^verbatim>\<open>is_valid_propagation_combination\<close>, branch by branch. The test
  \<^verbatim>\<open>!(propagation & (propagation - 1))\<close> is taken on the 32-bit representation, where the
  subtraction wraps around at the smallest value.
\<close>

definition is_valid_propagation_combination :: "mask \<Rightarrow> bool" where
  "is_valid_propagation_combination propagation =
     (if propagation = 0 then True
      else if propagation AND (propagation - 1) = 0 then True
      else if propagation = TRANS_LANGEVIN + ROT_LANGEVIN \<or>
              propagation = TRANS_VS_RELATIVE + ROT_VS_RELATIVE \<or>
              propagation = TRANS_BROWNIAN + ROT_BROWNIAN then True
      else if propagation = TRANS_VS_RELATIVE + ROT_LANGEVIN \<or>
              propagation = TRANS_LANGEVIN + ROT_VS_RELATIVE then True
      else if propagation = TRANS_LB_MOMENTUM_EXCHANGE + TRANS_VS_RELATIVE then True
      else if propagation = TRANS_LB_MOMENTUM_EXCHANGE + TRANS_VS_RELATIVE + ROT_LANGEVIN \<or>
              propagation = TRANS_LB_MOMENTUM_EXCHANGE + TRANS_VS_RELATIVE + ROT_VS_RELATIVE
        then True
      else False)"

text \<open>
  \<^verbatim>\<open>PropagationPredicate<criterion>\<close> of src/core/propagation.hpp, and the filtered particle
  range built on it: the positions (in the range) of the particles whose mask meets the
  criterion.
\<close>

definition PropagationPredicate :: "mask \<Rightarrow> mask \<Rightarrow> bool" where
  "PropagationPredicate criterion propagation \<longleftrightarrow> propagation AND criterion \<noteq> 0"

definition filter_range :: "mask \<Rightarrow> mask list \<Rightarrow> nat list" where
  "filter_range criterion particles =
     map fst (filter (\<lambda>(i, p). PropagationPredicate criterion p)
       (zip [0..<length particles] particles))"

section \<open>Double-precision numbers\<close>

text \<open>
  The simulation time is a C++ \<^verbatim>\<open>double\<close> that the integrator adds to in every step, so
  its additions are modelled with their rounding: IEEE 754 binary64, rounding to nearest,
  ties to even. A value is a real number (finite doubles, the two zeros identified), an
  infinity with its sign (\<open>True\<close> is negative), or NaN.
\<close>

datatype double = Finite real | Infinity bool | NaN

text \<open>The integer nearest to \<open>q\<close>, the even one of two at equal distance.\<close>

definition round_half_even :: "real \<Rightarrow> int" where
  "round_half_even q =
     (let f = \<lfloor>q\<rfloor>; d = q - of_int f
      in if d < 1 / 2 then f else if 1 / 2 < d then f + 1 else if even f then f else f + 1)"

text \<open>
  The double nearest to a real number. The magnitude is counted in units of the least
  subnormal, \<open>2 ^ - 1074\<close>; \<open>a\<close> is at most 53 bits long up to the end of the first normal
  binade, where the doubles are the multiples of the unit, and with each further bit the
  spacing doubles. A magnitude that rounds to \<open>2 ^ 1024\<close> or more overflows to infinity.
\<close>

definition round_binary64 :: "real \<Rightarrow> double" where
  "round_binary64 x =
     (let a = \<bar>x\<bar> * 2 ^ 1074;
          k = nat (bitlen \<lfloor>a\<rfloor> - 53);
          m = round_half_even (a / 2 ^ k) * 2 ^ k
      in if 2 ^ 2098 \<le> m then Infinity (x < 0)
         else Finite (sgn x * of_int m / 2 ^ 1074))"

fun double_add :: "double \<Rightarrow> double \<Rightarrow> double" where
  "double_add (Finite x) (Finite y) = round_binary64 (x + y)"
| "double_add (Finite x) (Infinity b) = Infinity b"
| "double_add (Infinity a) (Finite y) = Infinity a"
| "double_add (Infinity a) (Infinity b) = (if a = b then Infinity a else NaN)"
| "double_add NaN y = NaN"
| "double_add x NaN = NaN"

text \<open>The value of the literal \<^verbatim>\<open>0.01\<close>: the double nearest to one hundredth.\<close>

definition double_0_01 :: real where
  "double_0_01 = 5764607523034235 / 2 ^ 59"

section \<open>The integrator's state and its collaborators\<close>

text \<open>
  The switch of the integrator is a C++ \<^verbatim>\<open>int\<close> compared with the macros
  \<^verbatim>\<open>INTEG_METHOD_*\<close> of integrate.hpp, which is not among the sources. The labels of a C++
  \<^verbatim>\<open>switch\<close> are distinct, so the five named values and "any other value" are the
  constructors of a datatype.
\<close>

datatype integ_method =
    INTEG_METHOD_NVT
  | INTEG_METHOD_NPT_ISO
  | INTEG_METHOD_STEEPEST_DESCENT
  | INTEG_METHOD_BD
  | INTEG_METHOD_SD
  | INTEG_METHOD_OTHER int

datatype BoxType = CUBOID | LEES_EDWARDS

text \<open>
  Modelled from the spec: the result codes and the force-reuse policies are macros of
  integrate.hpp, which is not among the sources. The spec calls the two error results
  distinguished negative codes, and names the policies NEVER, ALWAYS and the derived default.
\<close>

definition INTEG_ERROR_RUNTIME :: int where
  "INTEG_ERROR_RUNTIME = - 1"

definition INTEG_ERROR_SIGINT :: int where
  "INTEG_ERROR_SIGINT = - 2"

definition INTEG_REUSE_FORCES_NEVER :: int where
  "INTEG_REUSE_FORCES_NEVER = - 1"

definition INTEG_REUSE_FORCES_CONDITIONALLY :: int where
  "INTEG_REUSE_FORCES_CONDITIONALLY = 0"

definition INTEG_REUSE_FORCES_ALWAYS :: int where
  "INTEG_REUSE_FORCES_ALWAYS = 1"

text \<open>
  What the build and the missing headers fix: the features compiled in (\<^verbatim>\<open>#ifdef\<close>), the
  bit of \<^verbatim>\<open>TRANS_LANGEVIN_NPT\<close> (used by the integrator, absent from the enum above), the
  thermostat bits of thermostat.hpp, and the layout of the MPI communicator.
\<close>

record config =
  ROTATION :: bool
  NPT :: bool
  STOKESIAN_DYNAMICS :: bool
  VIRTUAL_SITES :: bool
  BOND_CONSTRAINT :: bool
  COLLISION_DETECTION :: bool
  TRANS_LANGEVIN_NPT :: mask
  THERMO_OFF :: mask
  THERMO_NPT_ISO :: mask
  THERMO_BROWNIAN :: mask
  THERMO_SD :: mask
  comm_cart_size :: int
  comm_cart_rank :: int

text \<open>
  The calls the integrator makes to its collaborators, in the order it makes them. A
  per-particle kernel carries the position of the particle in the range it runs over; a
  kernel on a filtered range carries the positions of the range.
  \<open>Mpi_call_integrate steps reuse_forces retval\<close> is a call of \<^verbatim>\<open>integrate\<close> through
  \<^verbatim>\<open>mpi_call\<close>, entered in the trace when it returns.
\<close>

datatype event =
    Velocity_verlet_propagate_vel_pos_par nat
  | Propagate_omega_quat_particle nat
  | Brownian_dynamics_propagator nat
  | Brownian_dynamics_rotator nat
  | Velocity_verlet_npt_step_1 "nat list"
  | Stokesian_dynamics_step_1 "nat list"
  | Velocity_verlet_propagate_vel_final_par nat
  | Convert_torque_propagate_omega nat
  | Velocity_verlet_npt_step_2 "nat list"
  | Steepest_descent_step
  | Save_old_position
  | Correct_position_shake
  | Correct_velocity_shake
  | Lees_edwards_update
  | Lees_edwards_push
  | Lees_edwards_update_offset
  | Resort_particles_if_needed
  | Philox_counter_increment
  | Virtual_sites_update
  | Virtual_sites_after_force_calc
  | Virtual_sites_after_lb_propagation
  | Cells_update_ghosts
  | Force_calc
  | Convert_initial_torques
  | Lb_lbcoupling_deactivate
  | Lb_lbcoupling_activate
  | Lb_lbcoupling_propagate
  | LB_propagate
  | EK_propagate
  | Handle_collisions
  | Bond_breakage_process_queue
  | Synchronize_npt_state
  | On_integration_start
  | On_timestep_change
  | On_skin_change
  | Set_resort_particles
  | Mpi_call_integrate int int int
  | Auto_update int

text \<open>
  The messages of \<^verbatim>\<open>runtimeErrorMsg()\<close>, one constructor for each message of the integrator:
  \<^item> \<open>Time_step_not_set\<close>: "time_step not set";
  \<^item> \<open>Steepest_descent_with_thermostat\<close>: "The steepest descent integrator is incompatible
    with thermostats";
  \<^item> \<open>VV_with_thermostats\<close>: "The VV integrator is incompatible with the currently active
    combination of thermostats";
  \<^item> \<open>NpT_requires_NpT_thermostat\<close>: "The NpT integrator requires the NpT thermostat";
  \<^item> \<open>NpT_with_Lees_Edwards\<close>: "The NpT integrator cannot use Lees-Edwards";
  \<^item> \<open>BD_requires_BD_thermostat\<close>: "The BD integrator requires the BD thermostat";
  \<^item> \<open>SD_requires_SD_thermostat\<close>: "The SD integrator requires the SD thermostat";
  \<^item> \<open>Unknown_integ_switch\<close>: "Unknown value for integ_switch";
  \<^item> \<open>Langevin_NPT_with_other_translation\<close>: "Langevin NPT translation is incompatible with
    other translation modes";
  \<^item> \<open>LB_EK_different_time_steps\<close>: "LB and EK are active but with different time steps.";
  \<^item> \<open>Collaborator_error k\<close>: a message queued by another module.
\<close>

datatype runtime_error =
    Time_step_not_set
  | Steepest_descent_with_thermostat
  | VV_with_thermostats
  | NpT_requires_NpT_thermostat
  | NpT_with_Lees_Edwards
  | BD_requires_BD_thermostat
  | SD_requires_SD_thermostat
  | Unknown_integ_switch
  | Langevin_NPT_with_other_translation
  | LB_EK_different_time_steps
  | Collaborator_error nat

text \<open>
  The exceptions thrown: \<^verbatim>\<open>std::domain_error("time_step must be > 0.")\<close>,
  \<^verbatim>\<open>std::runtime_error("Unknown value for integ_switch")\<close>,
  \<^verbatim>\<open>std::runtime_error("cannot automatically determine skin, please set it manually")\<close>,
  and the rejection of a time step by the fluid.
\<close>

datatype exn =
    Domain_error_time_step
  | Runtime_error_integ_switch
  | Runtime_error_skin
  | Fluid_time_step_rejected

text \<open>
  The file-scope variables of the integrator, with the globals of other modules it reads
  (\<^verbatim>\<open>thermo_switch\<close>, the type of \<^verbatim>\<open>box_geo\<close>), the queue of \<^verbatim>\<open>runtimeErrorMsg()\<close> and
  the trace of calls. Of the \<^verbatim>\<open>double\<close> variables, \<^verbatim>\<open>sim_time\<close> is a \<^typ>\<open>double\<close>. The time
  step, the skin and the cutoffs are the real numbers that finite doubles denote (an
  infinite or NaN time step is not modelled): the integrator compares them and hands them
  on, which is exact; the guess of the skin and the statistics \<^verbatim>\<open>verlet_reuse\<close> are computed
  without rounding, and nothing below reads their values.
\<close>

record state =
  integ_switch :: integ_method
  default_propagation :: mask
  used_propagations :: mask
  time_step :: real
  sim_time :: double
  skin :: real
  skin_set :: bool
  recalc_forces :: bool
  verlet_reuse :: real
  fluid_step :: int
  ek_step :: int
  ctrl_C :: int
  thermo_switch :: mask
  box_type :: BoxType
  runtime_errors :: "runtime_error list"
  events :: "event list"

text \<open>
  What the collaborators answer during one call of \<^verbatim>\<open>integrate\<close>; the step-indexed
  entries are asked for in step \<open>i\<close> of the loop, counted from 0.
  \<^item> \<open>local_particles k\<close>: the masks of the range returned by the \<open>k\<close>-th call of
    \<^verbatim>\<open>cell_structure.local_particles()\<close>;
  \<^item> \<open>start_errors\<close>, \<open>initial_force_errors\<close>, \<open>step_errors i\<close>: the runtime errors
    the collaborators queue while the integration is prepared, during the initial force
    calculation, and during step \<open>i\<close>;
  \<^item> \<open>steepest_descent_step i\<close>: the result of the minimizer;
  \<^item> \<open>resort_particles i\<close>: whether \<^verbatim>\<open>get_resort_particles() >= RESORT_LOCAL\<close>;
  \<^item> \<open>sigint i\<close>: whether SIGINT is delivered during step \<open>i\<close>, before the loop looks at
    the latch;
  \<^item> \<open>n_rigidbonds\<close>: the number of rigid bonds;
  \<^item> the lattice-Boltzmann and electrokinetics solvers: whether each is active, its
    ratio for a time step, and whether the fluid accepts a time step;
  \<^item> the cutoffs used to guess the skin, and the distance to the next accumulator update.
\<close>

record env =
  local_particles :: "nat \<Rightarrow> mask list"
  start_errors :: "runtime_error list"
  initial_force_errors :: "runtime_error list"
  step_errors :: "int \<Rightarrow> runtime_error list"
  steepest_descent_step :: "int \<Rightarrow> bool"
  resort_particles :: "int \<Rightarrow> bool"
  sigint :: "int \<Rightarrow> bool"
  n_rigidbonds :: int
  lb_active :: bool
  ek_active :: bool
  lb_steps_per_md_step :: "real \<Rightarrow> int"
  ek_steps_per_md_step :: "real \<Rightarrow> int"
  check_tau_time_step_consistency :: "real \<Rightarrow> bool"
  maximal_cutoff :: real
  max_range :: real
  auto_update_next_update :: int

text \<open>A call of a collaborator is entered in the trace; several calls in their order.\<close>

definition call :: "event \<Rightarrow> state \<Rightarrow> state" where
  "call e s = s\<lparr>events := events s @ [e]\<rparr>"

definition calls :: "event list \<Rightarrow> state \<Rightarrow> state" where
  "calls es s = s\<lparr>events := events s @ es\<rparr>"

text \<open>
  Modelled from the spec: the error channel (errorhandling.hpp) is not among the sources.
  The spec has the errors accumulated in a queue and \<^verbatim>\<open>check_runtime_errors\<close> poll it: it
  answers whether a message is queued, and leaves the queue as it is.
\<close>

definition runtimeErrorMsg :: "runtime_error \<Rightarrow> state \<Rightarrow> state" where
  "runtimeErrorMsg msg s = s\<lparr>runtime_errors := runtime_errors s @ [msg]\<rparr>"

definition queue_errors :: "runtime_error list \<Rightarrow> state \<Rightarrow> state" where
  "queue_errors msgs s = s\<lparr>runtime_errors := runtime_errors s @ msgs\<rparr>"

definition check_runtime_errors :: "state \<Rightarrow> bool" where
  "check_runtime_errors s \<longleftrightarrow> runtime_errors s \<noteq> []"

definition call_if :: "bool \<Rightarrow> event \<Rightarrow> state \<Rightarrow> state" where
  "call_if b e s = (if b then call e s else s)"

text \<open>
  The \<^verbatim>\<open>assert\<close> statements of the source are checks of debug builds; the model is the
  release build, where they expand to nothing.
\<close>

section \<open>Lees-Edwards coordinator\<close>

definition update_box_params :: "state \<Rightarrow> state" where
  "update_box_params s =
     (if box_type s = LEES_EDWARDS then call Lees_edwards_update s else s)"

definition set_protocol :: "state \<Rightarrow> state" where
  "set_protocol s =
     (let s1 = s\<lparr>box_type := LEES_EDWARDS\<rparr>;
          s2 = update_box_params s1;
          s3 = s2\<lparr>recalc_forces := True\<rparr>
      in call Set_resort_particles s3)"

definition unset_protocol :: "state \<Rightarrow> state" where
  "unset_protocol s =
     (let s1 = s\<lparr>box_type := CUBOID\<rparr>;
          s2 = s1\<lparr>recalc_forces := True\<rparr>
      in call Set_resort_particles s2)"

definition run_kernel :: "event \<Rightarrow> state \<Rightarrow> state" where
  "run_kernel le_kernel s = (if box_type s = LEES_EDWARDS then call le_kernel s else s)"

section \<open>Sanity checks\<close>

definition get_used_propagations :: "mask list \<Rightarrow> state \<Rightarrow> state" where
  "get_used_propagations particles s =
     (let used = foldl (OR) 0 particles;
          used' = (if used AND TRANS_SYSTEM_DEFAULT \<noteq> 0
                   then used OR default_propagation s else used)
      in s\<lparr>used_propagations := used'\<rparr>)"

definition propagation_sanity_checks :: "config \<Rightarrow> state \<Rightarrow> state" where
  "propagation_sanity_checks cfg s =
     (if used_propagations s AND TRANS_LANGEVIN_NPT cfg \<noteq> 0 then
        (if used_propagations s AND (TRANS_BROWNIAN + TRANS_LANGEVIN + TRANS_STOKESIAN) \<noteq> 0
         then runtimeErrorMsg Langevin_NPT_with_other_translation s
         else s)
      else s)"

definition integrator_sanity_checks :: "config \<Rightarrow> state \<Rightarrow> state" where
  "integrator_sanity_checks cfg s =
     (let s1 = (if time_step s < 0 then runtimeErrorMsg Time_step_not_set s else s);
          unknown = runtimeErrorMsg Unknown_integ_switch s1
      in case integ_switch s1 of
           INTEG_METHOD_STEEPEST_DESCENT \<Rightarrow>
             (if thermo_switch s1 \<noteq> THERMO_OFF cfg
              then runtimeErrorMsg Steepest_descent_with_thermostat s1
              else s1)
         | INTEG_METHOD_NVT \<Rightarrow>
             (if thermo_switch s1 AND
                   (THERMO_NPT_ISO cfg OR THERMO_BROWNIAN cfg OR THERMO_SD cfg) \<noteq> 0
              then runtimeErrorMsg VV_with_thermostats s1
              else s1)
         | INTEG_METHOD_NPT_ISO \<Rightarrow>
             (if NPT cfg then
                (let s2 = (if thermo_switch s1 \<noteq> THERMO_OFF cfg \<and>
                              thermo_switch s1 \<noteq> THERMO_NPT_ISO cfg
                           then runtimeErrorMsg NpT_requires_NpT_thermostat s1
                           else s1)
                 in if box_type s2 = LEES_EDWARDS
                    then runtimeErrorMsg NpT_with_Lees_Edwards s2
                    else s2)
              else unknown)
         | INTEG_METHOD_BD \<Rightarrow>
             (if thermo_switch s1 \<noteq> THERMO_BROWNIAN cfg
              then runtimeErrorMsg BD_requires_BD_thermostat s1
              else s1)
         | INTEG_METHOD_SD \<Rightarrow>
             (if STOKESIAN_DYNAMICS cfg then
                (if thermo_switch s1 \<noteq> THERMO_OFF cfg \<and> thermo_switch s1 \<noteq> THERMO_SD cfg
                 then runtimeErrorMsg SD_requires_SD_thermostat s1
                 else s1)
              else unknown)
         | INTEG_METHOD_OTHER v \<Rightarrow> unknown)"

text \<open>
  Modelled from the spec: \<^verbatim>\<open>on_integration_start\<close> is defined in event.cpp, which is not
  among the sources. The spec has the sanity checks of the integrator run once per
  integration call, reported on the error channel and not thrown; the other modules
  prepared there may queue errors of their own (\<open>start_errors\<close>).
\<close>

definition on_integration_start :: "config \<Rightarrow> env \<Rightarrow> state \<Rightarrow> state" where
  "on_integration_start cfg env s =
     queue_errors (start_errors env) (integrator_sanity_checks cfg (call On_integration_start s))"

section \<open>The two phases of a step\<close>

definition should_propagate_with :: "mask \<Rightarrow> mask \<Rightarrow> mask \<Rightarrow> bool" where
  "should_propagate_with default_prop propagation mode \<longleftrightarrow>
     propagation AND mode \<noteq> 0 \<or>
     (default_prop AND mode \<noteq> 0 \<and> propagation AND TRANS_SYSTEM_DEFAULT \<noteq> 0)"

text \<open>\<^verbatim>\<open>sim_time += amount\<close>, one addition of doubles.\<close>

definition increment_sim_time :: "double \<Rightarrow> state \<Rightarrow> state" where
  "increment_sim_time amount s = s\<lparr>sim_time := double_add (sim_time s) amount\<rparr>"

text \<open>The body of the loop over the particles in phase 1, for the particle at position \<open>i\<close>.\<close>

definition step_1_kernels :: "mask \<Rightarrow> mask \<Rightarrow> nat \<times> mask \<Rightarrow> event list" where
  "step_1_kernels default_prop per_particle_integration ip =
     (case ip of (i, p) \<Rightarrow>
        if p AND per_particle_integration \<noteq> 0 then
          (if should_propagate_with default_prop p TRANS_LANGEVIN
           then [Velocity_verlet_propagate_vel_pos_par i] else []) @
          (if should_propagate_with default_prop p ROT_LANGEVIN
           then [Propagate_omega_quat_particle i] else []) @
          (if should_propagate_with default_prop p TRANS_BROWNIAN
           then [Brownian_dynamics_propagator i] else []) @
          (if should_propagate_with default_prop p ROT_BROWNIAN
           then [Brownian_dynamics_rotator i] else [])
        else [])"

definition integrator_step_1 ::
  "config \<Rightarrow> env \<Rightarrow> int \<Rightarrow> mask list \<Rightarrow> state \<Rightarrow> bool \<times> state" where
  "integrator_step_1 cfg env step particles s =
     (if integ_switch s = INTEG_METHOD_STEEPEST_DESCENT
      then (steepest_descent_step env step, call Steepest_descent_step s)
      else
        let splittable = TRANS_LANGEVIN + ROT_LANGEVIN + TRANS_BROWNIAN + ROT_BROWNIAN;
            does_default_contain_splittable = (splittable AND default_propagation s \<noteq> 0);
            per_particle_integration =
              (if does_default_contain_splittable
               then splittable + TRANS_SYSTEM_DEFAULT else splittable);
            s1 = calls (concat (map (step_1_kernels (default_propagation s)
                    per_particle_integration) (zip [0..<length particles] particles))) s;
            s2 = (if NPT cfg \<and> default_propagation s1 AND TRANS_LANGEVIN_NPT cfg \<noteq> 0
                  then call (Velocity_verlet_npt_step_1
                         (filter_range (TRANS_SYSTEM_DEFAULT + TRANS_LANGEVIN_NPT cfg)
                            particles)) s1
                  else s1);
            s3 = (if STOKESIAN_DYNAMICS cfg \<and> default_propagation s2 AND TRANS_STOKESIAN \<noteq> 0
                  then call (Stokesian_dynamics_step_1
                         (filter_range (TRANS_STOKESIAN + TRANS_SYSTEM_DEFAULT) particles)) s2
                  else s2)
        in (False, increment_sim_time (Finite (time_step s3)) s3))"

definition step_2_kernels :: "mask \<Rightarrow> mask \<Rightarrow> nat \<times> mask \<Rightarrow> event list" where
  "step_2_kernels default_prop per_particle_integration ip =
     (case ip of (i, p) \<Rightarrow>
        if p AND per_particle_integration \<noteq> 0 then
          (if should_propagate_with default_prop p TRANS_LANGEVIN
           then [Velocity_verlet_propagate_vel_final_par i] else []) @
          (if should_propagate_with default_prop p ROT_LANGEVIN
           then [Convert_torque_propagate_omega i] else [])
        else [])"

definition integrator_step_2 :: "config \<Rightarrow> mask list \<Rightarrow> state \<Rightarrow> state" where
  "integrator_step_2 cfg particles s =
     (if integ_switch s = INTEG_METHOD_STEEPEST_DESCENT then s
      else
        let splittable = TRANS_LANGEVIN + ROT_LANGEVIN;
            does_default_contain_splittable = (splittable AND default_propagation s \<noteq> 0);
            per_particle_integration =
              (if does_default_contain_splittable
               then splittable + TRANS_SYSTEM_DEFAULT else splittable);
            s1 = calls (concat (map (step_2_kernels (default_propagation s)
                    per_particle_integration) (zip [0..<length particles] particles))) s
        in if NPT cfg \<and> default_propagation s1 AND TRANS_LANGEVIN_NPT cfg \<noteq> 0
           then call (Velocity_verlet_npt_step_2
                  (filter_range (TRANS_SYSTEM_DEFAULT + TRANS_LANGEVIN_NPT cfg) particles)) s1
           else s1)"

section \<open>The integration loop\<close>

text \<open>
  The stepping of the coupled solvers ("propagate one-step functionalities"), with the hooks
  that follow it in the same block.
\<close>

definition propagate_one_step_functionalities :: "config \<Rightarrow> env \<Rightarrow> state \<Rightarrow> state" where
  "propagate_one_step_functionalities cfg env s =
     (if integ_switch s \<noteq> INTEG_METHOD_STEEPEST_DESCENT then
        let s1 =
          (if lb_active env \<and> ek_active env then
             let lb_steps = lb_steps_per_md_step env (time_step s);
                 ek_steps = ek_steps_per_md_step env (time_step s);
                 a1 = (if lb_steps \<noteq> ek_steps
                       then runtimeErrorMsg LB_EK_different_time_steps s
                       else s);
                 a2 = a1\<lparr>fluid_step := fluid_step a1 + 1\<rparr>;
                 a3 = (if fluid_step a2 \<ge> lb_steps
                       then calls [LB_propagate, EK_propagate] (a2\<lparr>fluid_step := 0\<rparr>)
                       else a2)
             in call Lb_lbcoupling_propagate a3
           else if lb_active env then
             let lb_steps = lb_steps_per_md_step env (time_step s);
                 b1 = s\<lparr>fluid_step := fluid_step s + 1\<rparr>;
                 b2 = (if fluid_step b1 \<ge> lb_steps
                       then call LB_propagate (b1\<lparr>fluid_step := 0\<rparr>)
                       else b1)
             in call Lb_lbcoupling_propagate b2
           else if ek_active env then
             let ek_steps = ek_steps_per_md_step env (time_step s);
                 c1 = s\<lparr>ek_step := ek_step s + 1\<rparr>
             in if ek_step c1 \<ge> ek_steps
                then call EK_propagate (c1\<lparr>ek_step := 0\<rparr>)
                else c1
           else s);
            s2 = call_if (VIRTUAL_SITES cfg) Virtual_sites_after_lb_propagation s1;
            s3 = call_if (COLLISION_DETECTION cfg) Handle_collisions s2
        in call Bond_breakage_process_queue s3
      else s)"

text \<open>The variables local to \<^verbatim>\<open>integrate\<close> that the loop updates.\<close>

record loop_vars =
  n_verlet_updates :: int
  integrated_steps :: int
  caught_sigint :: bool
  caught_error :: bool

text \<open>
  The handler that \<^verbatim>\<open>integrate_with_signal_handler\<close> installs for SIGINT. It runs when the
  signal is delivered, at any point of a step; the loop reads the latch at the end of the
  step only.
\<close>

definition signal_handler :: "state \<Rightarrow> state" where
  "signal_handler s = s\<lparr>ctrl_C := 1\<rparr>"

text \<open>The body of the loop, up to the test of \<^verbatim>\<open>early_exit\<close>.\<close>

definition loop_body_1 :: "config \<Rightarrow> env \<Rightarrow> int \<Rightarrow> state \<Rightarrow> bool \<times> state" where
  "loop_body_1 cfg env step s =
     (let s0 = (if sigint env step then signal_handler s else s);
          particles = local_particles env (nat (2 * step + 1));
          s1 = call_if (BOND_CONSTRAINT cfg \<and> n_rigidbonds env \<noteq> 0) Save_old_position s0;
          s2 = update_box_params s1
      in integrator_step_1 cfg env step particles s2)"

text \<open>
  The body of the loop from there to \<^verbatim>\<open>integrated_steps++\<close>. The errors the collaborators
  queue during the step are entered last: the loop reads the queue after the step only.
\<close>

definition loop_body_2 ::
  "config \<Rightarrow> env \<Rightarrow> int \<Rightarrow> loop_vars \<times> state \<Rightarrow> loop_vars \<times> state" where
  "loop_body_2 cfg env step vs =
     (case vs of (v, s) \<Rightarrow>
        let s1 = run_kernel Lees_edwards_push s;
            s2 = call_if (\<not> NPT cfg \<or> integ_switch s1 \<noteq> INTEG_METHOD_NPT_ISO)
                   Resort_particles_if_needed s1;
            s3 = call Philox_counter_increment s2;
            s4 = call_if (BOND_CONSTRAINT cfg \<and> n_rigidbonds env \<noteq> 0)
                   Correct_position_shake s3;
            s5 = call_if (VIRTUAL_SITES cfg) Virtual_sites_update s4;
            v1 = (if resort_particles env step
                  then v\<lparr>n_verlet_updates := n_verlet_updates v + 1\<rparr> else v);
            s6 = call Cells_update_ghosts s5;
            particles = local_particles env (nat (2 * step + 2));
            s7 = call Force_calc s6;
            s8 = call_if (VIRTUAL_SITES cfg) Virtual_sites_after_force_calc s7;
            s9 = integrator_step_2 cfg particles s8;
            s10 = run_kernel Lees_edwards_update_offset s9;
            s11 = call_if (BOND_CONSTRAINT cfg \<and> n_rigidbonds env \<noteq> 0)
                    Correct_velocity_shake s10;
            s12 = propagate_one_step_functionalities cfg env s11;
            s13 = queue_errors (step_errors env step) s12;
            v2 = v1\<lparr>integrated_steps := integrated_steps v1 + 1\<rparr>
        in (v2, s13))"

function integration_loop ::
  "config \<Rightarrow> env \<Rightarrow> int \<Rightarrow> int \<Rightarrow> loop_vars \<times> state \<Rightarrow> loop_vars \<times> state" where
  "integration_loop cfg env n_steps step vs =
     (if step < n_steps then
        (case loop_body_1 cfg env step (snd vs) of
           (early_exit, s1) \<Rightarrow>
             if early_exit then (fst vs, s1)
             else
               (case loop_body_2 cfg env step (fst vs, s1) of
                  (v2, s2) \<Rightarrow>
                    if check_runtime_errors s2 then (v2\<lparr>caught_error := True\<rparr>, s2)
                    else if comm_cart_size cfg = 1 \<and> ctrl_C s2 = 1
                      then (v2\<lparr>caught_sigint := True\<rparr>, s2)
                    else integration_loop cfg env n_steps (step + 1) (v2, s2)))
      else vs)"
  by pat_completeness auto
termination
  by (relation "measure (\<lambda>(cfg, env, n_steps, step, vs). nat (n_steps - step))") auto

declare integration_loop.simps [simp del]

text \<open>The block "Initial Force Calculation" of \<^verbatim>\<open>integrate\<close>.\<close>

definition initial_force_calculation :: "config \<Rightarrow> env \<Rightarrow> state \<Rightarrow> state" where
  "initial_force_calculation cfg env s =
     (let s1 = call Lb_lbcoupling_deactivate s;
          s2 = call_if (VIRTUAL_SITES cfg) Virtual_sites_update s1;
          s3 = call Cells_update_ghosts s2;
          s4 = call Force_calc s3;
          s5 = call_if (integ_switch s4 \<noteq> INTEG_METHOD_STEEPEST_DESCENT \<and> ROTATION cfg)
                 Convert_initial_torques s4
      in queue_errors (initial_force_errors env) s5)"

definition integrate :: "config \<Rightarrow> env \<Rightarrow> int \<Rightarrow> int \<Rightarrow> state \<Rightarrow> int \<times> state" where
  "integrate cfg env n_steps reuse_forces s =
     (let s1 = on_integration_start cfg env s;
          s2 = get_used_propagations (local_particles env 0) s1;
          s3 = propagation_sanity_checks cfg s2
      in if check_runtime_errors s3 then (INTEG_ERROR_RUNTIME, s3)
         else
           let s4 = (if reuse_forces = INTEG_REUSE_FORCES_NEVER \<or>
                        (recalc_forces s3 \<and> reuse_forces \<noteq> INTEG_REUSE_FORCES_ALWAYS)
                     then initial_force_calculation cfg env s3 else s3);
               s5 = call Lb_lbcoupling_activate s4
           in if check_runtime_errors s5 then (INTEG_ERROR_RUNTIME, s5)
              else
                (case integration_loop cfg env n_steps 0
                        (\<lparr>n_verlet_updates = 0, integrated_steps = 0,
                          caught_sigint = False, caught_error = False\<rparr>, s5) of
                   (v, s6) \<Rightarrow>
                     let s7 = update_box_params s6;
                         s8 = call_if (VIRTUAL_SITES cfg) Virtual_sites_update s7;
                         s9 = s8\<lparr>verlet_reuse :=
                                (if n_verlet_updates v > 0
                                 then real_of_int n_steps / real_of_int (n_verlet_updates v)
                                 else 0)\<rparr>;
                         s10 = call_if (NPT cfg \<and> integ_switch s9 = INTEG_METHOD_NPT_ISO)
                                 Synchronize_npt_state s9
                     in if caught_sigint v then (INTEG_ERROR_SIGINT, s10\<lparr>ctrl_C := 0\<rparr>)
                        else if caught_error v then (INTEG_ERROR_RUNTIME, s10)
                        else (integrated_steps v, s10)))"

section \<open>Setters\<close>

text \<open>
  A function that can throw returns the exception or its result, with the state as it is
  when the function is left.
\<close>

text \<open>
  Modelled from the spec: \<^verbatim>\<open>LB::check_tau_time_step_consistency\<close> is not among the sources.
  The spec has the new time step checked against the fluid before it is accepted; a time
  step the fluid rejects is not stored.
\<close>

definition set_time_step :: "env \<Rightarrow> real \<Rightarrow> state \<Rightarrow> (exn + unit) \<times> state" where
  "set_time_step env v s =
     (if v \<le> 0 then (Inl Domain_error_time_step, s)
      else if lb_active env \<and> \<not> check_tau_time_step_consistency env v
        then (Inl Fluid_time_step_rejected, s)
      else (Inr (), call On_timestep_change (s\<lparr>time_step := v\<rparr>)))"

definition set_skin :: "real \<Rightarrow> state \<Rightarrow> state" where
  "set_skin v s = call On_skin_change (s\<lparr>skin := v, skin_set := True\<rparr>)"

definition set_time :: "double \<Rightarrow> state \<Rightarrow> state" where
  "set_time v s = update_box_params (s\<lparr>sim_time := v, recalc_forces := True\<rparr>)"

text \<open>
  \<^verbatim>\<open>default_propagation_from_integ\<close>. The case of the steepest descent has no
  \<^verbatim>\<open>break\<close>: after its assignment, control falls through into the statements of the NVT
  case. A case under \<^verbatim>\<open>#ifdef\<close> that is not compiled leaves its value to \<^verbatim>\<open>default\<close>.
\<close>

definition default_propagation_from_integ :: "config \<Rightarrow> state \<Rightarrow> (exn + unit) \<times> state" where
  "default_propagation_from_integ cfg s =
     (let unknown = (Inl Runtime_error_integ_switch, s)
      in case integ_switch s of
           INTEG_METHOD_STEEPEST_DESCENT \<Rightarrow>
             (let s1 = s\<lparr>default_propagation := 0\<rparr>;
                  s2 = s1\<lparr>default_propagation := TRANS_LANGEVIN\<rparr>;
                  s3 = (if ROTATION cfg
                        then s2\<lparr>default_propagation := default_propagation s2 + ROT_LANGEVIN\<rparr>
                        else s2)
              in (Inr (), s3))
         | INTEG_METHOD_NVT \<Rightarrow>
             (let s2 = s\<lparr>default_propagation := TRANS_LANGEVIN\<rparr>;
                  s3 = (if ROTATION cfg
                        then s2\<lparr>default_propagation := default_propagation s2 + ROT_LANGEVIN\<rparr>
                        else s2)
              in (Inr (), s3))
         | INTEG_METHOD_NPT_ISO \<Rightarrow>
             (if NPT cfg then
                (let s2 = s\<lparr>default_propagation := TRANS_LANGEVIN_NPT cfg\<rparr>;
                     s3 = (if ROTATION cfg
                           then s2\<lparr>default_propagation := default_propagation s2 + ROT_LANGEVIN\<rparr>
                           else s2)
                 in (Inr (), s3))
              else unknown)
         | INTEG_METHOD_BD \<Rightarrow>
             (let s2 = s\<lparr>default_propagation := TRANS_BROWNIAN\<rparr>;
                  s3 = (if ROTATION cfg
                        then s2\<lparr>default_propagation := default_propagation s2 + ROT_BROWNIAN\<rparr>
                        else s2)
              in (Inr (), s3))
         | INTEG_METHOD_SD \<Rightarrow>
             (if STOKESIAN_DYNAMICS cfg
              then (Inr (), s\<lparr>default_propagation := TRANS_STOKESIAN\<rparr>)
              else unknown)
         | INTEG_METHOD_OTHER v \<Rightarrow> unknown)"

definition set_integ_switch :: "config \<Rightarrow> integ_method \<Rightarrow> state \<Rightarrow> (exn + unit) \<times> state" where
  "set_integ_switch cfg v s =
     default_propagation_from_integ cfg (s\<lparr>integ_switch := v, recalc_forces := True\<rparr>)"

section \<open>Integration in chunks between accumulator updates\<close>

text \<open>
  The loop of \<^verbatim>\<open>integrate_with_signal_handler\<close>. Chunk \<open>c\<close> runs against the collaborators
  \<open>envs c\<close>, whose \<open>auto_update_next_update\<close> is the distance to the next accumulator
  update. The source does not bound that distance from below, and a chunk of no steps makes
  no progress: the loop is a partial function, \<open>None\<close> where it does not return.
\<close>

partial_function (option) accumulator_loop ::
  "config \<Rightarrow> (nat \<Rightarrow> env) \<Rightarrow> int \<Rightarrow> nat \<Rightarrow> int \<Rightarrow> int \<Rightarrow> state \<Rightarrow> (int \<times> state) option" where
  "accumulator_loop cfg envs n_steps c i reuse_forces s =
     (if i < n_steps then
        (let steps = min (n_steps - i) (auto_update_next_update (envs c)) in
         case integrate cfg (envs c) steps reuse_forces s of
           (retval, s1) \<Rightarrow>
             (let s2 = call (Mpi_call_integrate steps reuse_forces retval) s1 in
              if retval < 0 then Some (retval, s2)
              else accumulator_loop cfg envs n_steps (Suc c) (i + steps)
                     INTEG_REUSE_FORCES_ALWAYS (call (Auto_update steps) s2)))
      else Some (0, s))"

definition integrate_with_signal_handler ::
  "config \<Rightarrow> (nat \<Rightarrow> env) \<Rightarrow> int \<Rightarrow> int \<Rightarrow> bool \<Rightarrow> state \<Rightarrow> ((exn + int) \<times> state) option" where
  "integrate_with_signal_handler cfg envs n_steps reuse_forces update_accumulators s =
     (if \<not> update_accumulators \<or> n_steps = 0 then
        (case integrate cfg (envs 0) n_steps reuse_forces s of
           (retval, s1) \<Rightarrow> Some (Inr retval, s1))
      else
        let is_head_node = (comm_cart_rank cfg = 0);
            max_cut = maximal_cutoff (envs 0)
        in if \<not> skin_set s \<and> max_cut \<le> 0 then
             (if is_head_node
              then Some (Inl Runtime_error_skin, s)
              else Some (Inr INTEG_ERROR_RUNTIME, s))
           else
             let s1 = (if \<not> skin_set s
                       then set_skin (min (0.4 * max_cut) (max_range (envs 0) - max_cut)) s
                       else s)
             in if \<not> is_head_node then Some (Inr 0, s1)
                else map_option (\<lambda>(retval, s2). (Inr retval, s2))
                       (accumulator_loop cfg envs n_steps 0 0 reuse_forces s1))"

text \<open>
  The chunks one after the other, for the statements about them. \<open>chunk_entry c\<close> is where
  the loop stands when it comes to its test for the \<open>c\<close>-th time, every chunk before having
  run and returned a count: the offset \<open>i\<close>, the policy and the state. \<open>chunk_result c\<close> is
  the call of \<^verbatim>\<open>integrate\<close> made from there, for the steps up to the next update of the
  accumulators or to the end.
\<close>

primrec chunk_entry ::
  "config \<Rightarrow> (nat \<Rightarrow> env) \<Rightarrow> int \<Rightarrow> int \<Rightarrow> state \<Rightarrow> nat \<Rightarrow> int \<times> int \<times> state" where
  "chunk_entry cfg envs n_steps reuse_forces s 0 = (0, reuse_forces, s)"
| "chunk_entry cfg envs n_steps reuse_forces s (Suc c) =
     (case chunk_entry cfg envs n_steps reuse_forces s c of
        (i, reuse, s0) \<Rightarrow>
          let steps = min (n_steps - i) (auto_update_next_update (envs c)) in
          case integrate cfg (envs c) steps reuse s0 of
            (retval, s1) \<Rightarrow>
              (i + steps, INTEG_REUSE_FORCES_ALWAYS,
               call (Auto_update steps) (call (Mpi_call_integrate steps reuse retval) s1)))"

definition chunk_result ::
  "config \<Rightarrow> (nat \<Rightarrow> env) \<Rightarrow> int \<Rightarrow> int \<Rightarrow> state \<Rightarrow> nat \<Rightarrow> int \<times> state" where
  "chunk_result cfg envs n_steps reuse_forces s c =
     (case chunk_entry cfg envs n_steps reuse_forces s c of
        (i, reuse, s0) \<Rightarrow>
          integrate cfg (envs c) (min (n_steps - i) (auto_update_next_update (envs c))) reuse s0)"

section \<open>A reference build and run\<close>

text \<open>
  The worked examples below run on a build with every feature compiled in, on one MPI rank;
  on the variables of the integrator as their initializers leave them, with no thermostat
  and a cuboid box; and with collaborators that raise no error, deliver no signal and hold
  one particle tagged \<^verbatim>\<open>TRANS_SYSTEM_DEFAULT\<close>.
\<close>

definition reference_build :: config where
  "reference_build =
     \<lparr>ROTATION = True, NPT = True, STOKESIAN_DYNAMICS = True, VIRTUAL_SITES = True,
      BOND_CONSTRAINT = True, COLLISION_DETECTION = True,
      TRANS_LANGEVIN_NPT = push_bit 10 1,
      THERMO_OFF = 0, THERMO_NPT_ISO = 4, THERMO_BROWNIAN = 16, THERMO_SD = 32,
      comm_cart_size = 1, comm_cart_rank = 0\<rparr>"

definition initial_state :: state where
  "initial_state =
     \<lparr>integ_switch = INTEG_METHOD_NVT, default_propagation = 0, used_propagations = 0,
      time_step = - 1, sim_time = Finite 0, skin = 0, skin_set = False, recalc_forces = True,
      verlet_reuse = 0, fluid_step = 0, ek_step = 0, ctrl_C = 0,
      thermo_switch = 0, box_type = CUBOID, runtime_errors = [], events = []\<rparr>"

definition quiet_env :: env where
  "quiet_env =
     \<lparr>local_particles = (\<lambda>k. [TRANS_SYSTEM_DEFAULT]),
      start_errors = [], initial_force_errors = [], step_errors = (\<lambda>i. []),
      steepest_descent_step = (\<lambda>i. False), resort_particles = (\<lambda>i. False),
      sigint = (\<lambda>i. False), n_rigidbonds = 0,
      lb_active = False, ek_active = False,
      lb_steps_per_md_step = (\<lambda>dt. 1), ek_steps_per_md_step = (\<lambda>dt. 1),
      check_tau_time_step_consistency = (\<lambda>dt. True),
      maximal_cutoff = 1, max_range = 3, auto_update_next_update = 2\<rparr>"

text \<open>The reference state after \<^verbatim>\<open>set_time_step(0.01)\<close> and \<^verbatim>\<open>set_integ_switch(NVT)\<close>.\<close>

definition ready_state :: state where
  "ready_state =
     snd (set_integ_switch reference_build INTEG_METHOD_NVT
       (snd (set_time_step quiet_env double_0_01 initial_state)))"

text \<open>
  What a run on the reference build needs of the state it starts in: the NVT integrator with
  its default propagation, a time step that is set, no thermostat, an empty error queue and
  a clear latch.
\<close>

definition reference_ready :: "state \<Rightarrow> bool" where
  "reference_ready s \<longleftrightarrow>
     integ_switch s = INTEG_METHOD_NVT \<and> 0 \<le> time_step s \<and> thermo_switch s = 0 \<and>
     default_propagation s = TRANS_LANGEVIN + ROT_LANGEVIN \<and> runtime_errors s = [] \<and>
     ctrl_C s = 0"

section \<open>Projections of the state and blocks of \<^verbatim>\<open>integrate\<close> used in the proofs\<close>

text \<open>The variables that no collaborator call and no step of the loop assigns.\<close>

definition settings ::
  "state \<Rightarrow> integ_method \<times> mask \<times> real \<times> real \<times> bool \<times> bool \<times> mask \<times> BoxType" where
  "settings s =
     (integ_switch s, default_propagation s, time_step s, skin s, skin_set s,
      recalc_forces s, thermo_switch s, box_type s)"

text \<open>The chunked calls of \<^verbatim>\<open>integrate\<close> in a trace: steps, policy and result of each.\<close>

definition chunk_calls :: "event list \<Rightarrow> (int \<times> int \<times> int) list" where
  "chunk_calls es =
     concat (map (\<lambda>e. case e of Mpi_call_integrate steps reuse retval \<Rightarrow> [(steps, reuse, retval)]
                          | _ \<Rightarrow> []) es)"

abbreviation chunk_policy :: "int \<times> int \<times> int \<Rightarrow> int" where
  "chunk_policy x \<equiv> fst (snd x)"

abbreviation chunk_retval :: "int \<times> int \<times> int \<Rightarrow> int" where
  "chunk_retval x \<equiv> snd (snd x)"

text \<open>
  The three blocks of \<^verbatim>\<open>integrate\<close> around its loop: up to the first test of the error
  queue, from there to the second, and from the end of the loop to the result.
\<close>

definition integrate_checked :: "config \<Rightarrow> env \<Rightarrow> state \<Rightarrow> state" where
  "integrate_checked cfg env s =
     propagation_sanity_checks cfg
       (get_used_propagations (local_particles env 0) (on_integration_start cfg env s))"

definition integrate_prepared :: "config \<Rightarrow> env \<Rightarrow> int \<Rightarrow> state \<Rightarrow> state" where
  "integrate_prepared cfg env reuse_forces s =
     call Lb_lbcoupling_activate
       (if reuse_forces = INTEG_REUSE_FORCES_NEVER \<or>
           (recalc_forces s \<and> reuse_forces \<noteq> INTEG_REUSE_FORCES_ALWAYS)
        then initial_force_calculation cfg env s else s)"

definition integrate_finish :: "config \<Rightarrow> int \<Rightarrow> loop_vars \<times> state \<Rightarrow> int \<times> state" where
  "integrate_finish cfg n_steps vs =
     (case vs of (v, s6) \<Rightarrow>
        let s7 = update_box_params s6;
            s8 = call_if (VIRTUAL_SITES cfg) Virtual_sites_update s7;
            s9 = s8\<lparr>verlet_reuse :=
                   (if n_verlet_updates v > 0
                    then real_of_int n_steps / real_of_int (n_verlet_updates v)
                    else 0)\<rparr>;
            s10 = call_if (NPT cfg \<and> integ_switch s9 = INTEG_METHOD_NPT_ISO)
                    Synchronize_npt_state s9
        in if caught_sigint v then (INTEG_ERROR_SIGINT, s10\<lparr>ctrl_C := 0\<rparr>)
           else if caught_error v then (INTEG_ERROR_RUNTIME, s10)
           else (integrated_steps v, s10))"

definition loop_vars_0 :: loop_vars where
  "loop_vars_0 =
     \<lparr>n_verlet_updates = 0, integrated_steps = 0, caught_sigint = False, caught_error = False\<rparr>"

text \<open>
  An interrupt signal is caught after \<open>k\<close> completed steps: the call of \<^verbatim>\<open>integrate\<close> passes
  both looks at the error queue, and its loop is left with \<^verbatim>\<open>caught_sigint\<close> set (through
  the test of the latch at the end of a step) and with \<open>k\<close> in \<^verbatim>\<open>integrated_steps\<close>.
\<close>

definition caught_sigint_after :: "config \<Rightarrow> env \<Rightarrow> int \<Rightarrow> int \<Rightarrow> state \<Rightarrow> int \<Rightarrow> bool" where
  "caught_sigint_after cfg env n_steps reuse_forces s k \<longleftrightarrow>
     \<not> check_runtime_errors (integrate_checked cfg env s) \<and>
     \<not> check_runtime_errors
         (integrate_prepared cfg env reuse_forces (integrate_checked cfg env s)) \<and>
     caught_sigint (fst (integration_loop cfg env n_steps 0
       (loop_vars_0, integrate_prepared cfg env reuse_forces (integrate_checked cfg env s)))) \<and>
     integrated_steps (fst (integration_loop cfg env n_steps 0
       (loop_vars_0, integrate_prepared cfg env reuse_forces (integrate_checked cfg env s)))) = k"

section \<open>Validity of propagation masks\<close>

lemmas PropagationMode_defs =
  NONE_def TRANS_SYSTEM_DEFAULT_def TRANS_LANGEVIN_def TRANS_VS_RELATIVE_def
  TRANS_LB_MOMENTUM_EXCHANGE_def TRANS_LB_TRACER_def TRANS_BROWNIAN_def
  TRANS_STOKESIAN_def ROT_LANGEVIN_def ROT_VS_RELATIVE_def ROT_BROWNIAN_def

lemma nat_and_pred_eq_0_iff:
  "(n::nat) AND (n - 1) = 0 \<longleftrightarrow> n = 0 \<or> (\<exists>k. n = 2 ^ k)"
proof (induction n rule: less_induct)
  case (less n)
  show ?case
  proof (cases "n = 0")
    case True
    then show ?thesis by simp
  next
    case n0: False
    show ?thesis
    proof (cases "even n")
      case True
      then obtain a where a: "n = 2 * a" by (auto elim: evenE)
      with n0 have a0: "a > 0" by simp
      have pred: "n - 1 = 1 + 2 * (a - 1)" using a a0 by simp
      have "n AND (n - 1) = 2 * (a AND (a - 1))"
        unfolding pred unfolding a
        by (simp add: and_nat_rec [of "2 * a"])
      moreover have "a AND (a - 1) = 0 \<longleftrightarrow> a = 0 \<or> (\<exists>k. a = 2 ^ k)"
        using less.IH [of a] a a0 by simp
      moreover have "(\<exists>k. n = 2 ^ k) \<longleftrightarrow> (\<exists>k. a = 2 ^ k)"
      proof
        assume "\<exists>k. n = 2 ^ k"
        then obtain k where k: "n = 2 ^ k" by blast
        with True n0 have "k \<noteq> 0" by (cases k) auto
        then obtain j where "k = Suc j" by (cases k) auto
        with k a have "a = 2 ^ j" by simp
        then show "\<exists>k. a = 2 ^ k" by blast
      next
        assume "\<exists>k. a = 2 ^ k"
        then obtain k where "a = 2 ^ k" by blast
        with a have "n = 2 ^ Suc k" by simp
        then show "\<exists>k. n = 2 ^ k" by blast
      qed
      ultimately show ?thesis using a0 n0 by simp
    next
      case False
      then obtain a where a: "n = 2 * a + 1" by (auto elim: oddE)
      have "n AND (n - 1) = 2 * a"
        unfolding a by (simp add: and_nat_rec [of "Suc (2 * a)"])
      moreover have "(\<exists>k. n = 2 ^ k) \<longleftrightarrow> a = 0"
      proof
        assume "\<exists>k. n = 2 ^ k"
        then obtain k where k: "n = 2 ^ k" by blast
        with False have "k = 0" by (cases k) auto
        with k a show "a = 0" by simp
      next
        assume "a = 0"
        with a have "n = 2 ^ 0" by simp
        then show "\<exists>k. n = 2 ^ k" by blast
      qed
      ultimately show ?thesis using n0 by simp
    qed
  qed
qed

lemma exp_less_32: "(2::nat) ^ k < 2 ^ 32 \<longleftrightarrow> k < 32"
  by (simp only: power_strict_increasing_iff [of 2 k 32] one_less_numeral_iff semiring_norm)

lemma mask_and_pred_eq_0_iff:
  "(w::mask) AND (w - 1) = 0 \<longleftrightarrow> w = 0 \<or> (\<exists>k<32. w = push_bit k 1)"
proof (cases "w = 0")
  case True
  then show ?thesis by simp
next
  case False
  have "w AND (w - 1) = 0 \<longleftrightarrow> unat (w AND (w - 1)) = 0"
    by (simp add: unat_eq_0)
  also have "unat (w AND (w - 1)) = unat w AND (unat w - 1)"
    using False by (simp add: unsigned_and_eq unat_minus_one)
  also have "(unat w AND (unat w - 1) = 0) \<longleftrightarrow> unat w = 0 \<or> (\<exists>k. unat w = 2 ^ k)"
    by (rule nat_and_pred_eq_0_iff)
  also have "\<dots> \<longleftrightarrow> (\<exists>k<32. w = push_bit k 1)"
  proof
    assume "unat w = 0 \<or> (\<exists>k. unat w = 2 ^ k)"
    with False obtain k where k: "unat w = 2 ^ k" by (auto simp: unat_eq_0)
    have "unat w < 2 ^ 32" using unsigned_less [of w] by simp
    then have "(2::nat) ^ k < 2 ^ 32" unfolding k .
    then have "k < 32" by (simp only: exp_less_32)
    moreover have "w = 2 ^ k"
    proof -
      have "w = of_nat (unat w)" by simp
      also have "\<dots> = 2 ^ k" unfolding k by simp
      finally show ?thesis .
    qed
    ultimately show "\<exists>k<32. w = push_bit k 1" by (auto simp: push_bit_eq_mult)
  next
    assume "\<exists>k<32. w = push_bit k 1"
    then obtain k where k: "k < 32" "w = 2 ^ k" by (auto simp: push_bit_eq_mult)
    then have "unat w = 2 ^ k mod 2 ^ 32"
      using unat_of_nat [where 'a = 32, of "2 ^ k"] by simp
    moreover have "(2::nat) ^ k < 2 ^ 32" using k(1) by (simp only: exp_less_32)
    ultimately have "unat w = 2 ^ k" by simp
    then show "unat w = 0 \<or> (\<exists>k. unat w = 2 ^ k)" by blast
  qed
  finally show ?thesis using False by simp
qed

text \<open>
  C4. For every mask, \<^verbatim>\<open>is_valid_propagation_combination\<close> returns true exactly when the
  mask is empty, has a single bit, or is one of the seven listed combinations: Langevin
  translation with Langevin rotation, virtual-site-relative translation with
  virtual-site-relative rotation, Brownian translation with Brownian rotation,
  virtual-site-relative translation with Langevin rotation, Langevin translation with
  virtual-site-relative rotation, and lattice-fluid momentum exchange with
  virtual-site-relative translation, alone or with Langevin or virtual-site-relative
  rotation. Every other mask of several bits is rejected.
\<close>

theorem is_valid_propagation_combination_iff:
  "is_valid_propagation_combination m \<longleftrightarrow>
     m = NONE \<or> (\<exists>k<32. m = push_bit k 1) \<or>
     m = TRANS_LANGEVIN + ROT_LANGEVIN \<or>
     m = TRANS_VS_RELATIVE + ROT_VS_RELATIVE \<or>
     m = TRANS_BROWNIAN + ROT_BROWNIAN \<or>
     m = TRANS_VS_RELATIVE + ROT_LANGEVIN \<or>
     m = TRANS_LANGEVIN + ROT_VS_RELATIVE \<or>
     m = TRANS_LB_MOMENTUM_EXCHANGE + TRANS_VS_RELATIVE \<or>
     m = TRANS_LB_MOMENTUM_EXCHANGE + TRANS_VS_RELATIVE + ROT_LANGEVIN \<or>
     m = TRANS_LB_MOMENTUM_EXCHANGE + TRANS_VS_RELATIVE + ROT_VS_RELATIVE"
proof -
  have single: "m AND (m - 1) = 0 \<longleftrightarrow> m = 0 \<or> (\<exists>k<32. m = push_bit k 1)"
    by (rule mask_and_pred_eq_0_iff)
  show ?thesis
    unfolding is_valid_propagation_combination_def single NONE_def by auto
qed

text \<open>
  The rule at work: Langevin translation with Langevin rotation is accepted, Langevin
  translation with Brownian rotation is rejected.
\<close>

theorem is_valid_propagation_combination_witness:
  "is_valid_propagation_combination (TRANS_LANGEVIN + ROT_LANGEVIN) \<and>
   \<not> is_valid_propagation_combination (TRANS_LANGEVIN + ROT_BROWNIAN)"
proof -
  have "\<not> (\<exists>k<32. TRANS_LANGEVIN + ROT_BROWNIAN = push_bit k 1)"
    using mask_and_pred_eq_0_iff [of "TRANS_LANGEVIN + ROT_BROWNIAN"]
    by (simp add: PropagationMode_defs)
  then show ?thesis
    using is_valid_propagation_combination_iff [of "TRANS_LANGEVIN + ROT_LANGEVIN"]
      is_valid_propagation_combination_iff [of "TRANS_LANGEVIN + ROT_BROWNIAN"]
    by (simp add: PropagationMode_defs)
qed

section \<open>What each part of a step does to the state\<close>

lemma settings_eqD:
  assumes "settings a = settings b"
  shows "integ_switch a = integ_switch b" "default_propagation a = default_propagation b"
    "time_step a = time_step b" "skin a = skin b" "skin_set a = skin_set b"
    "recalc_forces a = recalc_forces b"
    "thermo_switch a = thermo_switch b" "box_type a = box_type b"
  using assms by (simp_all add: settings_def)

lemma settings_update [simp]:
  "settings (s\<lparr>fluid_step := x\<rparr>) = settings s"
  "settings (s\<lparr>ek_step := y\<rparr>) = settings s"
  "settings (s\<lparr>ctrl_C := z\<rparr>) = settings s"
  "settings (s\<lparr>sim_time := t\<rparr>) = settings s"
  "settings (s\<lparr>events := es\<rparr>) = settings s"
  "settings (s\<lparr>runtime_errors := ms\<rparr>) = settings s"
  "settings (s\<lparr>used_propagations := u\<rparr>) = settings s"
  "settings (s\<lparr>verlet_reuse := r\<rparr>) = settings s"
  by (simp_all add: settings_def)

lemma chunk_calls_simps [simp]:
  "chunk_calls [] = []"
  "chunk_calls (es @ es') = chunk_calls es @ chunk_calls es'"
  "chunk_calls (e # es) =
     (case e of Mpi_call_integrate steps reuse retval \<Rightarrow> [(steps, reuse, retval)] | _ \<Rightarrow> [])
     @ chunk_calls es"
  by (simp_all add: chunk_calls_def)

lemma call_fields [simp]:
  "settings (call e s) = settings s"
  "ctrl_C (call e s) = ctrl_C s"
  "sim_time (call e s) = sim_time s"
  "fluid_step (call e s) = fluid_step s"
  "ek_step (call e s) = ek_step s"
  "runtime_errors (call e s) = runtime_errors s"
  "events (call e s) = events s @ [e]"
  by (simp_all add: call_def settings_def)

lemma calls_fields [simp]:
  "settings (calls es s) = settings s"
  "ctrl_C (calls es s) = ctrl_C s"
  "sim_time (calls es s) = sim_time s"
  "fluid_step (calls es s) = fluid_step s"
  "ek_step (calls es s) = ek_step s"
  "runtime_errors (calls es s) = runtime_errors s"
  "events (calls es s) = events s @ es"
  by (simp_all add: calls_def settings_def)

lemma call_if_fields [simp]:
  "settings (call_if b e s) = settings s"
  "ctrl_C (call_if b e s) = ctrl_C s"
  "sim_time (call_if b e s) = sim_time s"
  "fluid_step (call_if b e s) = fluid_step s"
  "ek_step (call_if b e s) = ek_step s"
  "runtime_errors (call_if b e s) = runtime_errors s"
  "events (call_if b e s) = events s @ (if b then [e] else [])"
  by (simp_all add: call_if_def)

lemma runtimeErrorMsg_fields [simp]:
  "settings (runtimeErrorMsg m s) = settings s"
  "ctrl_C (runtimeErrorMsg m s) = ctrl_C s"
  "sim_time (runtimeErrorMsg m s) = sim_time s"
  "fluid_step (runtimeErrorMsg m s) = fluid_step s"
  "ek_step (runtimeErrorMsg m s) = ek_step s"
  "runtime_errors (runtimeErrorMsg m s) = runtime_errors s @ [m]"
  "events (runtimeErrorMsg m s) = events s"
  by (simp_all add: runtimeErrorMsg_def settings_def)

lemma queue_errors_fields [simp]:
  "settings (queue_errors ms s) = settings s"
  "ctrl_C (queue_errors ms s) = ctrl_C s"
  "sim_time (queue_errors ms s) = sim_time s"
  "fluid_step (queue_errors ms s) = fluid_step s"
  "ek_step (queue_errors ms s) = ek_step s"
  "runtime_errors (queue_errors ms s) = runtime_errors s @ ms"
  "events (queue_errors ms s) = events s"
  by (simp_all add: queue_errors_def settings_def)

lemma run_kernel_fields [simp]:
  "settings (run_kernel k s) = settings s"
  "ctrl_C (run_kernel k s) = ctrl_C s"
  "sim_time (run_kernel k s) = sim_time s"
  "fluid_step (run_kernel k s) = fluid_step s"
  "ek_step (run_kernel k s) = ek_step s"
  "runtime_errors (run_kernel k s) = runtime_errors s"
  "events (run_kernel k s) = events s @ (if box_type s = LEES_EDWARDS then [k] else [])"
  by (simp_all add: run_kernel_def)

lemma update_box_params_fields [simp]:
  "settings (update_box_params s) = settings s"
  "ctrl_C (update_box_params s) = ctrl_C s"
  "sim_time (update_box_params s) = sim_time s"
  "fluid_step (update_box_params s) = fluid_step s"
  "ek_step (update_box_params s) = ek_step s"
  "runtime_errors (update_box_params s) = runtime_errors s"
  "events (update_box_params s) =
     events s @ (if box_type s = LEES_EDWARDS then [Lees_edwards_update] else [])"
  by (simp_all add: update_box_params_def)

lemma increment_sim_time_fields [simp]:
  "settings (increment_sim_time a s) = settings s"
  "ctrl_C (increment_sim_time a s) = ctrl_C s"
  "sim_time (increment_sim_time a s) = double_add (sim_time s) a"
  "fluid_step (increment_sim_time a s) = fluid_step s"
  "ek_step (increment_sim_time a s) = ek_step s"
  "runtime_errors (increment_sim_time a s) = runtime_errors s"
  "events (increment_sim_time a s) = events s"
  by (simp_all add: increment_sim_time_def settings_def)

lemma signal_handler_fields [simp]:
  "settings (signal_handler s) = settings s"
  "ctrl_C (signal_handler s) = 1"
  "sim_time (signal_handler s) = sim_time s"
  "fluid_step (signal_handler s) = fluid_step s"
  "ek_step (signal_handler s) = ek_step s"
  "runtime_errors (signal_handler s) = runtime_errors s"
  "events (signal_handler s) = events s"
  by (simp_all add: signal_handler_def settings_def)

lemma settings_fields:
  "integ_switch s = fst (settings s)"
  "default_propagation s = fst (snd (settings s))"
  "time_step s = fst (snd (snd (settings s)))"
  "recalc_forces s = fst (snd (snd (snd (snd (snd (settings s))))))"
  "thermo_switch s = fst (snd (snd (snd (snd (snd (snd (settings s)))))))"
  "box_type s = snd (snd (snd (snd (snd (snd (snd (settings s)))))))"
  by (simp_all add: settings_def)

lemma step_1_kernels_count:
  "x = LB_propagate \<or> x = Philox_counter_increment \<Longrightarrow>
   count_list (concat (map (step_1_kernels dp ppi) xs)) x = 0"
  by (induction xs) (auto simp: step_1_kernels_def)

lemma step_1_kernels_no_chunk: "chunk_calls (concat (map (step_1_kernels dp ppi) xs)) = []"
  by (induction xs) (auto simp: step_1_kernels_def chunk_calls_def)

lemma step_2_kernels_count:
  "x = LB_propagate \<or> x = Philox_counter_increment \<Longrightarrow>
   count_list (concat (map (step_2_kernels dp ppi) xs)) x = 0"
  by (induction xs) (auto simp: step_2_kernels_def)

lemma step_2_kernels_no_chunk: "chunk_calls (concat (map (step_2_kernels dp ppi) xs)) = []"
  by (induction xs) (auto simp: step_2_kernels_def chunk_calls_def)

lemma integrator_step_1_fst:
  "fst (integrator_step_1 cfg env step ps s) =
     (integ_switch s = INTEG_METHOD_STEEPEST_DESCENT \<and> steepest_descent_step env step)"
  by (simp add: integrator_step_1_def Let_def)

lemma integrator_step_1_fields [simp]:
  "settings (snd (integrator_step_1 cfg env step ps s)) = settings s"
  "ctrl_C (snd (integrator_step_1 cfg env step ps s)) = ctrl_C s"
  "sim_time (snd (integrator_step_1 cfg env step ps s)) =
     (if integ_switch s = INTEG_METHOD_STEEPEST_DESCENT then sim_time s
      else double_add (sim_time s) (Finite (time_step s)))"
  "fluid_step (snd (integrator_step_1 cfg env step ps s)) = fluid_step s"
  "ek_step (snd (integrator_step_1 cfg env step ps s)) = ek_step s"
  "runtime_errors (snd (integrator_step_1 cfg env step ps s)) = runtime_errors s"
  by (simp_all add: integrator_step_1_def Let_def settings_fields)


lemma integrator_step_1_count:
  "x = LB_propagate \<or> x = Philox_counter_increment \<Longrightarrow>
   count_list (events (snd (integrator_step_1 cfg env step ps s))) x = count_list (events s) x"
  by (auto simp: integrator_step_1_def Let_def step_1_kernels_count)

lemma integrator_step_1_chunk_calls [simp]:
  "chunk_calls (events (snd (integrator_step_1 cfg env step ps s))) = chunk_calls (events s)"
  by (simp add: integrator_step_1_def Let_def step_1_kernels_no_chunk)

lemma integrator_step_2_fields [simp]:
  "settings (integrator_step_2 cfg ps s) = settings s"
  "ctrl_C (integrator_step_2 cfg ps s) = ctrl_C s"
  "sim_time (integrator_step_2 cfg ps s) = sim_time s"
  "fluid_step (integrator_step_2 cfg ps s) = fluid_step s"
  "ek_step (integrator_step_2 cfg ps s) = ek_step s"
  "runtime_errors (integrator_step_2 cfg ps s) = runtime_errors s"
  "chunk_calls (events (integrator_step_2 cfg ps s)) = chunk_calls (events s)"
  by (simp_all add: integrator_step_2_def Let_def step_2_kernels_no_chunk)

lemma integrator_step_2_count:
  "x = LB_propagate \<or> x = Philox_counter_increment \<Longrightarrow>
   count_list (events (integrator_step_2 cfg ps s)) x = count_list (events s) x"
  by (auto simp: integrator_step_2_def Let_def step_2_kernels_count)

lemma propagate_one_step_functionalities_fields [simp]:
  "settings (propagate_one_step_functionalities cfg env s) = settings s"
  "ctrl_C (propagate_one_step_functionalities cfg env s) = ctrl_C s"
  "sim_time (propagate_one_step_functionalities cfg env s) = sim_time s"
  "chunk_calls (events (propagate_one_step_functionalities cfg env s)) = chunk_calls (events s)"
  "count_list (events (propagate_one_step_functionalities cfg env s)) Philox_counter_increment =
     count_list (events s) Philox_counter_increment"
  by (simp_all add: propagate_one_step_functionalities_def Let_def)

lemma propagate_one_step_functionalities_errors:
  "runtime_errors (propagate_one_step_functionalities cfg env s) =
     runtime_errors s @
     (if integ_switch s \<noteq> INTEG_METHOD_STEEPEST_DESCENT \<and> lb_active env \<and> ek_active env \<and>
         lb_steps_per_md_step env (time_step s) \<noteq> ek_steps_per_md_step env (time_step s)
      then [LB_EK_different_time_steps] else [])"
  by (simp add: propagate_one_step_functionalities_def Let_def)

lemma propagate_one_step_functionalities_fluid_step:
  "fluid_step (propagate_one_step_functionalities cfg env s) =
     (if integ_switch s \<noteq> INTEG_METHOD_STEEPEST_DESCENT \<and> lb_active env
      then (if fluid_step s + 1 \<ge> lb_steps_per_md_step env (time_step s) then 0
            else fluid_step s + 1)
      else fluid_step s)"
  by (simp add: propagate_one_step_functionalities_def Let_def)

lemma propagate_one_step_functionalities_lb:
  "count_list (events (propagate_one_step_functionalities cfg env s)) LB_propagate =
     count_list (events s) LB_propagate +
     (if integ_switch s \<noteq> INTEG_METHOD_STEEPEST_DESCENT \<and> lb_active env \<and>
         fluid_step s + 1 \<ge> lb_steps_per_md_step env (time_step s)
      then 1 else 0)"
  by (simp add: propagate_one_step_functionalities_def Let_def)

lemma loop_body_1_fst:
  "fst (loop_body_1 cfg env step s) =
     (integ_switch s = INTEG_METHOD_STEEPEST_DESCENT \<and> steepest_descent_step env step)"
  by (simp add: loop_body_1_def Let_def integrator_step_1_fst settings_fields)

lemma loop_body_1_fields [simp]:
  "settings (snd (loop_body_1 cfg env step s)) = settings s"
  "ctrl_C (snd (loop_body_1 cfg env step s)) = (if sigint env step then 1 else ctrl_C s)"
  "sim_time (snd (loop_body_1 cfg env step s)) =
     (if integ_switch s = INTEG_METHOD_STEEPEST_DESCENT then sim_time s
      else double_add (sim_time s) (Finite (time_step s)))"
  "fluid_step (snd (loop_body_1 cfg env step s)) = fluid_step s"
  "ek_step (snd (loop_body_1 cfg env step s)) = ek_step s"
  "runtime_errors (snd (loop_body_1 cfg env step s)) = runtime_errors s"
  "chunk_calls (events (snd (loop_body_1 cfg env step s))) = chunk_calls (events s)"
  by (simp_all add: loop_body_1_def Let_def settings_fields)

lemma loop_body_1_count:
  "x = LB_propagate \<or> x = Philox_counter_increment \<Longrightarrow>
   count_list (events (snd (loop_body_1 cfg env step s))) x = count_list (events s) x"
  by (auto simp: loop_body_1_def Let_def integrator_step_1_count)

lemma loop_body_2_fst:
  "fst (loop_body_2 cfg env step (v, s)) =
     v\<lparr>n_verlet_updates := (if resort_particles env step then n_verlet_updates v + 1
                               else n_verlet_updates v),
       integrated_steps := integrated_steps v + 1\<rparr>"
  by (simp add: loop_body_2_def Let_def)

lemma loop_body_2_fields [simp]:
  "settings (snd (loop_body_2 cfg env step (v, s))) = settings s"
  "ctrl_C (snd (loop_body_2 cfg env step (v, s))) = ctrl_C s"
  "sim_time (snd (loop_body_2 cfg env step (v, s))) = sim_time s"
  "chunk_calls (events (snd (loop_body_2 cfg env step (v, s)))) = chunk_calls (events s)"
  by (simp_all add: loop_body_2_def Let_def)

lemma loop_body_2_philox:
  "count_list (events (snd (loop_body_2 cfg env step (v, s)))) Philox_counter_increment =
     count_list (events s) Philox_counter_increment + 1"
  by (simp add: loop_body_2_def Let_def integrator_step_2_count)

lemma loop_body_2_errors:
  "runtime_errors (snd (loop_body_2 cfg env step (v, s))) =
     runtime_errors s @
     (if integ_switch s \<noteq> INTEG_METHOD_STEEPEST_DESCENT \<and> lb_active env \<and> ek_active env \<and>
         lb_steps_per_md_step env (time_step s) \<noteq> ek_steps_per_md_step env (time_step s)
      then [LB_EK_different_time_steps] else []) @
     step_errors env step"
  by (simp add: loop_body_2_def Let_def propagate_one_step_functionalities_errors settings_fields)

lemma loop_body_2_fluid_step:
  "fluid_step (snd (loop_body_2 cfg env step (v, s))) =
     (if integ_switch s \<noteq> INTEG_METHOD_STEEPEST_DESCENT \<and> lb_active env
      then (if fluid_step s + 1 \<ge> lb_steps_per_md_step env (time_step s) then 0
            else fluid_step s + 1)
      else fluid_step s)"
  by (simp add: loop_body_2_def Let_def propagate_one_step_functionalities_fluid_step
      settings_fields)

lemma loop_body_2_lb:
  "count_list (events (snd (loop_body_2 cfg env step (v, s)))) LB_propagate =
     count_list (events s) LB_propagate +
     (if integ_switch s \<noteq> INTEG_METHOD_STEEPEST_DESCENT \<and> lb_active env \<and>
         fluid_step s + 1 \<ge> lb_steps_per_md_step env (time_step s)
      then 1 else 0)"
  by (simp add: loop_body_2_def Let_def propagate_one_step_functionalities_lb
      integrator_step_2_count settings_fields)

lemma integration_loop_invariant:
  assumes init: "I vs"
    and early: "\<And>v s step. I (v, s) \<Longrightarrow> step < n \<Longrightarrow> fst (loop_body_1 cfg env step s) \<Longrightarrow>
        I (v, snd (loop_body_1 cfg env step s))"
    and full: "\<And>v s step. I (v, s) \<Longrightarrow> step < n \<Longrightarrow> \<not> fst (loop_body_1 cfg env step s) \<Longrightarrow>
        I (loop_body_2 cfg env step (v, snd (loop_body_1 cfg env step s)))"
    and err: "\<And>v s. I (v, s) \<Longrightarrow> check_runtime_errors s \<Longrightarrow> I (v\<lparr>caught_error := True\<rparr>, s)"
    and sig: "\<And>v s. I (v, s) \<Longrightarrow> comm_cart_size cfg = 1 \<Longrightarrow> ctrl_C s = 1 \<Longrightarrow>
        I (v\<lparr>caught_sigint := True\<rparr>, s)"
  shows "I (integration_loop cfg env n step vs)"
  using assms
proof (induction cfg env n step vs rule: integration_loop.induct)
  case (1 cfg env n step vs)
  note I0 = "1.prems"(1)
  show ?case
  proof (cases "step < n")
    case False
    then show ?thesis using I0 by (simp add: integration_loop.simps)
  next
    case lt: True
    obtain e s1 where b1: "loop_body_1 cfg env step (snd vs) = (e, s1)"
      by (cases "loop_body_1 cfg env step (snd vs)") 
    have Ivs: "I (fst vs, snd vs)" using I0 by simp
    show ?thesis
    proof (cases e)
      case True
      have "I (fst vs, s1)" using "1.prems"(2) [OF Ivs lt] b1 True by simp
      then show ?thesis using lt b1 True by (simp add: integration_loop.simps [of cfg env n step vs])
    next
      case ne: False
      obtain v2 s2 where b2: "loop_body_2 cfg env step (fst vs, s1) = (v2, s2)"
        by (cases "loop_body_2 cfg env step (fst vs, s1)")
      have I2: "I (v2, s2)" using "1.prems"(3) [OF Ivs lt] b1 b2 ne by simp
      show ?thesis
      proof (cases "check_runtime_errors s2")
        case True
        then show ?thesis using lt b1 b2 ne "1.prems"(4) [OF I2]
          by (simp add: integration_loop.simps [of cfg env n step vs])
      next
        case noerr: False
        show ?thesis
        proof (cases "comm_cart_size cfg = 1 \<and> ctrl_C s2 = 1")
          case True
          then show ?thesis using lt b1 b2 ne noerr "1.prems"(5) [OF I2]
            by (simp add: integration_loop.simps [of cfg env n step vs])
        next
          case False
          have "I (integration_loop cfg env n (step + 1) (v2, s2))"
            using "1.IH" [OF lt b1 [symmetric] ne b2 [symmetric] noerr False I2]
              "1.prems"(2-5) by blast
          then show ?thesis using lt b1 b2 ne noerr False
            by (auto simp: integration_loop.simps [of cfg env n step vs])
        qed
      qed
    qed
  qed
qed

section \<open>The blocks of \<^verbatim>\<open>integrate\<close>\<close>

lemma integrate_unfold:
  "integrate cfg env n_steps reuse_forces s =
     (let s3 = integrate_checked cfg env s in
      if check_runtime_errors s3 then (INTEG_ERROR_RUNTIME, s3)
      else
        let s5 = integrate_prepared cfg env reuse_forces s3 in
        if check_runtime_errors s5 then (INTEG_ERROR_RUNTIME, s5)
        else integrate_finish cfg n_steps (integration_loop cfg env n_steps 0 (loop_vars_0, s5)))"
  by (simp only: integrate_def integrate_checked_def integrate_prepared_def integrate_finish_def
      loop_vars_0_def Let_def)

lemma integrator_sanity_checks_fields [simp]:
  "settings (integrator_sanity_checks cfg s) = settings s"
  "ctrl_C (integrator_sanity_checks cfg s) = ctrl_C s"
  "sim_time (integrator_sanity_checks cfg s) = sim_time s"
  "fluid_step (integrator_sanity_checks cfg s) = fluid_step s"
  "ek_step (integrator_sanity_checks cfg s) = ek_step s"
  "events (integrator_sanity_checks cfg s) = events s"
  by (cases "integ_switch s"; cases "time_step s < 0";
      simp add: integrator_sanity_checks_def Let_def settings_fields)+

lemma integrate_checked_fields [simp]:
  "settings (integrate_checked cfg env s) = settings s"
  "ctrl_C (integrate_checked cfg env s) = ctrl_C s"
  "sim_time (integrate_checked cfg env s) = sim_time s"
  "fluid_step (integrate_checked cfg env s) = fluid_step s"
  "ek_step (integrate_checked cfg env s) = ek_step s"
  "events (integrate_checked cfg env s) = events s @ [On_integration_start]"
  by (simp_all add: integrate_checked_def propagation_sanity_checks_def
      get_used_propagations_def on_integration_start_def Let_def)

lemma initial_force_calculation_fields [simp]:
  "settings (initial_force_calculation cfg env s) = settings s"
  "ctrl_C (initial_force_calculation cfg env s) = ctrl_C s"
  "sim_time (initial_force_calculation cfg env s) = sim_time s"
  "fluid_step (initial_force_calculation cfg env s) = fluid_step s"
  "ek_step (initial_force_calculation cfg env s) = ek_step s"
  "runtime_errors (initial_force_calculation cfg env s) =
     runtime_errors s @ initial_force_errors env"
  "events (initial_force_calculation cfg env s) =
     events s @ [Lb_lbcoupling_deactivate] @
     (if VIRTUAL_SITES cfg then [Virtual_sites_update] else []) @
     [Cells_update_ghosts, Force_calc] @
     (if integ_switch s \<noteq> INTEG_METHOD_STEEPEST_DESCENT \<and> ROTATION cfg
      then [Convert_initial_torques] else [])"
  by (simp_all add: initial_force_calculation_def Let_def settings_fields)

lemma integrate_prepared_fields [simp]:
  "settings (integrate_prepared cfg env r s) = settings s"
  "ctrl_C (integrate_prepared cfg env r s) = ctrl_C s"
  "sim_time (integrate_prepared cfg env r s) = sim_time s"
  "fluid_step (integrate_prepared cfg env r s) = fluid_step s"
  "ek_step (integrate_prepared cfg env r s) = ek_step s"
  by (simp_all add: integrate_prepared_def)

lemma integrate_prepared_events:
  "events (integrate_prepared cfg env r s) =
     events s @
     (if r = INTEG_REUSE_FORCES_NEVER \<or> (recalc_forces s \<and> r \<noteq> INTEG_REUSE_FORCES_ALWAYS)
      then [Lb_lbcoupling_deactivate] @
           (if VIRTUAL_SITES cfg then [Virtual_sites_update] else []) @
           [Cells_update_ghosts, Force_calc] @
           (if integ_switch s \<noteq> INTEG_METHOD_STEEPEST_DESCENT \<and> ROTATION cfg
            then [Convert_initial_torques] else [])
      else []) @ [Lb_lbcoupling_activate]"
  by (simp add: integrate_prepared_def)

lemma integrate_finish_fst:
  "fst (integrate_finish cfg n (v, s)) =
     (if caught_sigint v then INTEG_ERROR_SIGINT
      else if caught_error v then INTEG_ERROR_RUNTIME else integrated_steps v)"
  by (simp add: integrate_finish_def Let_def)

lemma integrate_finish_fields [simp]:
  "settings (snd (integrate_finish cfg n (v, s))) = settings s"
  "ctrl_C (snd (integrate_finish cfg n (v, s))) = (if caught_sigint v then 0 else ctrl_C s)"
  "sim_time (snd (integrate_finish cfg n (v, s))) = sim_time s"
  "fluid_step (snd (integrate_finish cfg n (v, s))) = fluid_step s"
  "ek_step (snd (integrate_finish cfg n (v, s))) = ek_step s"
  "runtime_errors (snd (integrate_finish cfg n (v, s))) = runtime_errors s"
  by (simp_all add: integrate_finish_def Let_def)

lemma integrate_finish_events:
  "events (snd (integrate_finish cfg n (v, s))) =
     events s @ (if box_type s = LEES_EDWARDS then [Lees_edwards_update] else []) @
     (if VIRTUAL_SITES cfg then [Virtual_sites_update] else []) @
     (if NPT cfg \<and> integ_switch s = INTEG_METHOD_NPT_ISO then [Synchronize_npt_state] else [])"
  by (simp add: integrate_finish_def Let_def settings_fields)

subsection \<open>Invariants of the loop\<close>

lemma integration_loop_settings:
  "settings (snd (integration_loop cfg env n step vs)) = settings (snd vs)"
  by (rule integration_loop_invariant [where I = "\<lambda>r. settings (snd r) = settings (snd vs)"])
     simp_all

lemma integration_loop_steps_mono:
  "integrated_steps (fst vs) \<le> integrated_steps (fst (integration_loop cfg env n step vs))"
  by (rule integration_loop_invariant
        [where I = "\<lambda>r. integrated_steps (fst vs) \<le> integrated_steps (fst r)"])
     (simp_all add: loop_body_2_fst)


lemma integrate_prepared_errors:
  "runtime_errors (integrate_prepared cfg env r s) =
     runtime_errors s @
     (if r = INTEG_REUSE_FORCES_NEVER \<or> (recalc_forces s \<and> r \<noteq> INTEG_REUSE_FORCES_ALWAYS)
      then initial_force_errors env else [])"
  by (simp add: integrate_prepared_def)

lemma integration_loop_philox:
  "count_list (events (snd (integration_loop cfg env n step vs))) Philox_counter_increment =
     count_list (events (snd vs)) Philox_counter_increment +
     nat (integrated_steps (fst (integration_loop cfg env n step vs)) - integrated_steps (fst vs))"
proof -
  let ?I = "\<lambda>r. integrated_steps (fst vs) \<le> integrated_steps (fst r) \<and>
     count_list (events (snd r)) Philox_counter_increment =
       count_list (events (snd vs)) Philox_counter_increment +
       nat (integrated_steps (fst r) - integrated_steps (fst vs))"
  have "?I (integration_loop cfg env n step vs)"
    by (rule integration_loop_invariant [where I = ?I])
       (auto simp: loop_body_1_count loop_body_2_fst loop_body_2_philox)
  then show ?thesis by simp
qed

lemma integration_loop_chunk_calls:
  "chunk_calls (events (snd (integration_loop cfg env n step vs))) = chunk_calls (events (snd vs))"
  by (rule integration_loop_invariant
        [where I = "\<lambda>r. chunk_calls (events (snd r)) = chunk_calls (events (snd vs))"])
     simp_all


lemma counter_arith:
  fixes x N :: int
  assumes "1 \<le> N" "0 \<le> x"
  shows "(x + 1) mod N = (if x mod N + 1 \<ge> N then 0 else x mod N + 1)"
    and "(x + 1) div N = x div N + (if x mod N + 1 \<ge> N then 1 else 0)"
proof -
  have r: "0 \<le> x mod N" "x mod N < N" using assms by simp_all
  have x: "x + 1 = N * (x div N) + (x mod N + 1)" by simp
  show "(x + 1) mod N = (if x mod N + 1 \<ge> N then 0 else x mod N + 1)"
  proof (cases "x mod N + 1 \<ge> N")
    case True
    with r have e: "x mod N + 1 = N" by simp
    have "x + 1 = N * (x div N) + N" by (subst x) (simp only: e)
    then have "x + 1 = N * (x div N + 1)" by (simp add: algebra_simps)
    then have "(x + 1) mod N = 0" by (metis mod_mult_self1_is_0)
    with True show ?thesis by simp
  next
    case False
    then have "(x mod N + 1) mod N = x mod N + 1" using r by simp
    moreover have "(x + 1) mod N = (x mod N + 1) mod N" by (simp add: mod_add_left_eq)
    ultimately show ?thesis using False by simp
  qed
  show "(x + 1) div N = x div N + (if x mod N + 1 \<ge> N then 1 else 0)"
  proof (cases "x mod N + 1 \<ge> N")
    case True
    with r have e: "x mod N + 1 = N" by simp
    have "x + 1 = N * (x div N) + N" by (subst x) (simp only: e)
    then have "x + 1 = (x div N + 1) * N" by (simp add: algebra_simps)
    moreover have "N \<noteq> 0" using assms by simp
    ultimately have "(x + 1) div N = x div N + 1" by (metis nonzero_mult_div_cancel_right)
    with True show ?thesis by simp
  next
    case False
    have N2: "1 < N" using False r by linarith
    have "(x + 1) div N = x div N + 1 div N + (x mod N + 1 mod N) div N"
      by (rule div_add1_eq)
    with N2 False r show ?thesis by simp
  qed
qed

text \<open>
  The counter of the fluid after \<open>d\<close> steps, and the number of times it was reset, from
  where it started: \<open>x\<close> is that start, cut off at \<open>N - 1\<close>, plus \<open>d\<close>.
\<close>

lemma cadence_step:
  fixes N x :: int
  assumes "1 \<le> N"
  shows "(if x + 1 < 0 then x + 1 else (x + 1) mod N) =
      (if (if x < 0 then x else x mod N) + 1 \<ge> N then 0
       else (if x < 0 then x else x mod N) + 1)"
    and "max 0 ((x + 1) div N) =
      max 0 (x div N) + (if (if x < 0 then x else x mod N) + 1 \<ge> N then 1 else 0)"
proof -
  show "(if x + 1 < 0 then x + 1 else (x + 1) mod N) =
      (if (if x < 0 then x else x mod N) + 1 \<ge> N then 0
       else (if x < 0 then x else x mod N) + 1)"
  proof (cases "x < 0")
    case True
    then show ?thesis using assms by auto
  next
    case False
    then have "0 \<le> x" by simp
    from counter_arith(1) [OF assms this] False show ?thesis by simp
  qed
  show "max 0 ((x + 1) div N) =
      max 0 (x div N) + (if (if x < 0 then x else x mod N) + 1 \<ge> N then 1 else 0)"
  proof (cases "x < 0")
    case True
    have "x div N < 0" using True assms by (simp add: div_neg_pos_less0)
    moreover have "(x + 1) div N \<le> 0"
      using True assms by (simp add: div_nonpos_pos_le0)
    ultimately show ?thesis using True assms by simp
  next
    case False
    then have x0: "0 \<le> x" by simp
    then have "0 \<le> x div N" using assms by (simp add: pos_imp_zdiv_nonneg_iff)
    with counter_arith(2) [OF assms x0] False show ?thesis by simp
  qed
qed

lemma integration_loop_fluid:
  assumes lb: "lb_active env"
    and sw: "integ_switch (snd vs) \<noteq> INTEG_METHOD_STEEPEST_DESCENT"
    and N: "lb_steps_per_md_step env (time_step (snd vs)) = N" "1 \<le> N"
    and x: "x = min (fluid_step (snd vs)) (N - 1) +
     (integrated_steps (fst (integration_loop cfg env n step vs)) - integrated_steps (fst vs))"
  shows "integrated_steps (fst vs) < integrated_steps (fst (integration_loop cfg env n step vs))
      \<Longrightarrow> fluid_step (snd (integration_loop cfg env n step vs)) =
        (if x < 0 then x else x mod N)"
    and "int (count_list (events (snd (integration_loop cfg env n step vs))) LB_propagate) =
      int (count_list (events (snd vs)) LB_propagate) + max 0 (x div N)"
proof -
  define c where "c = min (fluid_step (snd vs)) (N - 1)"
  let ?d = "\<lambda>r. integrated_steps (fst r) - integrated_steps (fst vs)"
  let ?G = "\<lambda>x. if x < 0 then x else x mod N"
  let ?I = "\<lambda>r. settings (snd r) = settings (snd vs) \<and> 0 \<le> ?d r \<and>
     min (fluid_step (snd r)) (N - 1) = ?G (c + ?d r) \<and>
     (0 < ?d r \<longrightarrow> fluid_step (snd r) \<le> N - 1) \<and>
     int (count_list (events (snd r)) LB_propagate) =
       int (count_list (events (snd vs)) LB_propagate) + max 0 ((c + ?d r) div N)"
  have c: "c \<le> N - 1" by (simp add: c_def)
  have "?I (integration_loop cfg env n step vs)"
  proof (rule integration_loop_invariant [where I = ?I])
    have "c mod N = c" if "\<not> c < 0" using that c by simp
    moreover have "c div N \<le> 0"
    proof (cases "c < 0")
      case True
      then show ?thesis using N(2) by (simp add: div_neg_pos_less0 less_imp_le)
    next
      case False
      then show ?thesis using c by (simp add: div_pos_pos_trivial)
    qed
    ultimately show "?I vs" by (simp add: c_def [symmetric])
  next
    fix v :: loop_vars and s st
    assume I: "?I (v, s)" and "fst (loop_body_1 cfg env st s)"
    then show "?I (v, snd (loop_body_1 cfg env st s))"
      using sw by (simp add: loop_body_1_fst settings_fields)
  next
    fix v :: loop_vars and s st
    assume I: "?I (v, s)" and "\<not> fst (loop_body_1 cfg env st s)"
    let ?s1 = "snd (loop_body_1 cfg env st s)"
    let ?r = "loop_body_2 cfg env st (v, ?s1)"
    have s1: "integ_switch ?s1 \<noteq> INTEG_METHOD_STEEPEST_DESCENT"
      "lb_steps_per_md_step env (time_step ?s1) = N"
      using I sw N by (simp_all add: settings_fields)
    define y where "y = c + (integrated_steps v - integrated_steps (fst vs))"
    define f where "f = fluid_step s"
    have fs: "min f (N - 1) = ?G y" using I by (simp add: y_def f_def)
    have d: "integrated_steps (fst ?r) = integrated_steps v + 1"
      by (simp add: loop_body_2_fst)
    have y1: "c + (integrated_steps (fst ?r) - integrated_steps (fst vs)) = y + 1"
      using d by (simp add: y_def)
    have fire: "f + 1 \<ge> N \<longleftrightarrow> ?G y + 1 \<ge> N"
      using fs by (auto simp: min_def split: if_splits)
    have nofire: "\<not> f + 1 \<ge> N \<Longrightarrow> f = ?G y"
      using fs by (auto simp: min_def split: if_splits)
    have new: "fluid_step (snd ?r) = (if f + 1 \<ge> N then 0 else f + 1)"
      using s1 lb by (simp add: loop_body_2_fluid_step f_def)
    have "fluid_step (snd ?r) = (if ?G y + 1 \<ge> N then 0 else ?G y + 1)"
      unfolding new using fire nofire by (cases "f + 1 \<ge> N") simp_all
    then have a: "fluid_step (snd ?r) = ?G (y + 1)"
      unfolding cadence_step(1) [OF N(2), of y] .
    have le: "fluid_step (snd ?r) \<le> N - 1"
      unfolding new using N(2) by simp
    have "int (count_list (events (snd ?r)) LB_propagate) =
        int (count_list (events s) LB_propagate) + (if f + 1 \<ge> N then 1 else 0)"
      using s1 lb by (simp add: loop_body_2_lb loop_body_1_count f_def)
    also have "\<dots> = int (count_list (events (snd vs)) LB_propagate) + max 0 (y div N) +
        (if ?G y + 1 \<ge> N then 1 else 0)"
      using I fire by (simp add: y_def)
    also have "\<dots> = int (count_list (events (snd vs)) LB_propagate) + max 0 ((y + 1) div N)"
      unfolding cadence_step(2) [OF N(2), of y] by simp
    finally have b: "int (count_list (events (snd ?r)) LB_propagate) =
        int (count_list (events (snd vs)) LB_propagate) + max 0 ((y + 1) div N)" .
    have "settings (snd ?r) = settings (snd vs)" using I by simp
    moreover have "0 \<le> integrated_steps (fst ?r) - integrated_steps (fst vs)"
      using I d by simp
    moreover have "min (fluid_step (snd ?r)) (N - 1) = ?G (y + 1)"
      using a le by simp
    ultimately show "?I ?r" unfolding y1 using le b by simp
  qed simp_all
  then have I: "?I (integration_loop cfg env n step vs)" .
  have xc: "c + (integrated_steps (fst (integration_loop cfg env n step vs)) -
      integrated_steps (fst vs)) = x"
    by (simp add: x c_def)
  have i: "min (fluid_step (snd (integration_loop cfg env n step vs))) (N - 1) =
      (if x < 0 then x else x mod N)"
    "0 < integrated_steps (fst (integration_loop cfg env n step vs)) - integrated_steps (fst vs)
      \<longrightarrow> fluid_step (snd (integration_loop cfg env n step vs)) \<le> N - 1"
    "int (count_list (events (snd (integration_loop cfg env n step vs))) LB_propagate) =
      int (count_list (events (snd vs)) LB_propagate) + max 0 (x div N)"
    using I unfolding xc by blast+
  show "int (count_list (events (snd (integration_loop cfg env n step vs))) LB_propagate) =
      int (count_list (events (snd vs)) LB_propagate) + max 0 (x div N)"
    by (rule i(3))
  show "fluid_step (snd (integration_loop cfg env n step vs)) = (if x < 0 then x else x mod N)"
    if "integrated_steps (fst vs) < integrated_steps (fst (integration_loop cfg env n step vs))"
  proof -
    have "fluid_step (snd (integration_loop cfg env n step vs)) \<le> N - 1"
      using i(2) that by simp
    then have "min (fluid_step (snd (integration_loop cfg env n step vs))) (N - 1) =
        fluid_step (snd (integration_loop cfg env n step vs))"
      by simp
    then show ?thesis using i(1) by simp
  qed
qed

lemma integration_loop_fluid_steepest_descent:
  assumes "integ_switch (snd vs) = INTEG_METHOD_STEEPEST_DESCENT"
  shows "fluid_step (snd (integration_loop cfg env n step vs)) = fluid_step (snd vs)"
    and "count_list (events (snd (integration_loop cfg env n step vs))) LB_propagate =
      count_list (events (snd vs)) LB_propagate"
proof -
  let ?I = "\<lambda>r. settings (snd r) = settings (snd vs) \<and>
     fluid_step (snd r) = fluid_step (snd vs) \<and>
     count_list (events (snd r)) LB_propagate = count_list (events (snd vs)) LB_propagate"
  have "?I (integration_loop cfg env n step vs)"
  proof (rule integration_loop_invariant [where I = ?I])
    fix v :: loop_vars and s st
    assume I: "?I (v, s)"
    then have "integ_switch (snd (loop_body_1 cfg env st s)) = INTEG_METHOD_STEEPEST_DESCENT"
      using assms by (simp add: settings_fields)
    then show "?I (loop_body_2 cfg env st (v, snd (loop_body_1 cfg env st s)))"
      using I by (simp add: loop_body_2_fluid_step loop_body_2_lb loop_body_1_count)
  next
    fix v :: loop_vars and s st
    assume "?I (v, s)"
    then show "?I (v, snd (loop_body_1 cfg env st s))" by (simp add: loop_body_1_count)
  qed simp_all
  then show "fluid_step (snd (integration_loop cfg env n step vs)) = fluid_step (snd vs)"
    and "count_list (events (snd (integration_loop cfg env n step vs))) LB_propagate =
      count_list (events (snd vs)) LB_propagate"
    by simp_all
qed

subsection \<open>Unfolding the loop\<close>

lemma integration_loop_done:
  "\<not> step < n \<Longrightarrow> integration_loop cfg env n step vs = vs"
  by (simp add: integration_loop.simps)

lemma integration_loop_continue:
  assumes "step < n" "\<not> fst (loop_body_1 cfg env step s)"
    and "runtime_errors (snd (loop_body_2 cfg env step (v, snd (loop_body_1 cfg env step s)))) = []"
    and "comm_cart_size cfg = 1 \<longrightarrow>
         ctrl_C (snd (loop_body_2 cfg env step (v, snd (loop_body_1 cfg env step s)))) \<noteq> 1"
  shows "integration_loop cfg env n step (v, s) =
     integration_loop cfg env n (step + 1)
       (loop_body_2 cfg env step (v, snd (loop_body_1 cfg env step s)))"
  using assms
  by (auto simp: integration_loop.simps [of cfg env n step "(v, s)"] check_runtime_errors_def
      case_prod_beta)

lemma integration_loop_early_exit:
  assumes "step < n" "fst (loop_body_1 cfg env step s)"
  shows "integration_loop cfg env n step (v, s) = (v, snd (loop_body_1 cfg env step s))"
  using assms
  by (simp add: integration_loop.simps [of cfg env n step "(v, s)"] case_prod_beta)

lemma integration_loop_error:
  assumes "step < n" "\<not> fst (loop_body_1 cfg env step s)"
    and "runtime_errors (snd (loop_body_2 cfg env step (v, snd (loop_body_1 cfg env step s)))) \<noteq> []"
  shows "integration_loop cfg env n step (v, s) =
     (fst (loop_body_2 cfg env step (v, snd (loop_body_1 cfg env step s)))\<lparr>caught_error := True\<rparr>,
      snd (loop_body_2 cfg env step (v, snd (loop_body_1 cfg env step s))))"
  using assms
  by (auto simp: integration_loop.simps [of cfg env n step "(v, s)"] check_runtime_errors_def
      case_prod_beta)

lemma integration_loop_sigint:
  assumes "step < n" "\<not> fst (loop_body_1 cfg env step s)"
    and "runtime_errors (snd (loop_body_2 cfg env step (v, snd (loop_body_1 cfg env step s)))) = []"
    and "comm_cart_size cfg = 1"
    and "ctrl_C (snd (loop_body_2 cfg env step (v, snd (loop_body_1 cfg env step s)))) = 1"
  shows "integration_loop cfg env n step (v, s) =
     (fst (loop_body_2 cfg env step (v, snd (loop_body_1 cfg env step s)))\<lparr>caught_sigint := True\<rparr>,
      snd (loop_body_2 cfg env step (v, snd (loop_body_1 cfg env step s))))"
  using assms
  by (auto simp: integration_loop.simps [of cfg env n step "(v, s)"] check_runtime_errors_def
      case_prod_beta)


lemma integration_loop_clean:
  assumes env: "\<And>i. step_errors env i = []" "\<not> (lb_active env \<and> ek_active env)"
      "\<And>i. \<not> sigint env i" "\<And>i. \<not> steepest_descent_step env i"
  shows "runtime_errors s = [] \<Longrightarrow> ctrl_C s = 0 \<Longrightarrow> step \<le> n \<Longrightarrow>
     integrated_steps (fst (integration_loop cfg env n step (v, s))) =
       integrated_steps v + (n - step) \<and>
     caught_sigint (fst (integration_loop cfg env n step (v, s))) = caught_sigint v \<and>
     caught_error (fst (integration_loop cfg env n step (v, s))) = caught_error v"
proof (induction "nat (n - step)" arbitrary: step v s)
  case 0
  then have "\<not> step < n" by simp
  then show ?case using 0 by (simp add: integration_loop_done)
next
  case (Suc k)
  then have lt: "step < n" by simp
  define v2 where "v2 = fst (loop_body_2 cfg env step (v, snd (loop_body_1 cfg env step s)))"
  define s2 where "s2 = snd (loop_body_2 cfg env step (v, snd (loop_body_1 cfg env step s)))"
  have e: "\<not> fst (loop_body_1 cfg env step s)" by (simp add: loop_body_1_fst env)
  have errs: "runtime_errors s2 = []"
    using env Suc.prems by (auto simp: s2_def loop_body_2_errors)
  have c: "ctrl_C s2 = 0" using env Suc.prems by (simp add: s2_def)
  have v2: "integrated_steps v2 = integrated_steps v + 1" "caught_sigint v2 = caught_sigint v"
    "caught_error v2 = caught_error v"
    by (simp_all add: v2_def loop_body_2_fst)
  have unf: "integration_loop cfg env n step (v, s) = integration_loop cfg env n (step + 1) (v2, s2)"
    using lt e errs c by (simp add: integration_loop_continue v2_def s2_def)
  have k: "k = nat (n - (step + 1))" using Suc.hyps(2) by simp
  have "step + 1 \<le> n" using lt by simp
  from Suc.hyps(1) [OF k errs c this, of v2] show ?case
    unfolding unf v2 by simp
qed

lemma integration_loop_clean_state:
  assumes env: "\<And>i. step_errors env i = []" "\<not> (lb_active env \<and> ek_active env)"
      "\<And>i. \<not> sigint env i" "\<And>i. \<not> steepest_descent_step env i"
  shows "runtime_errors s = [] \<Longrightarrow> ctrl_C s = 0 \<Longrightarrow>
     runtime_errors (snd (integration_loop cfg env n step (v, s))) = [] \<and>
     ctrl_C (snd (integration_loop cfg env n step (v, s))) = 0"
proof (induction "nat (n - step)" arbitrary: step v s)
  case 0
  then have "\<not> step < n" by simp
  then show ?case using 0 by (simp add: integration_loop_done)
next
  case (Suc k)
  then have lt: "step < n" by simp
  define v2 where "v2 = fst (loop_body_2 cfg env step (v, snd (loop_body_1 cfg env step s)))"
  define s2 where "s2 = snd (loop_body_2 cfg env step (v, snd (loop_body_1 cfg env step s)))"
  have e: "\<not> fst (loop_body_1 cfg env step s)" by (simp add: loop_body_1_fst env)
  have errs: "runtime_errors s2 = []"
    using env Suc.prems by (auto simp: s2_def loop_body_2_errors)
  have c: "ctrl_C s2 = 0" using env Suc.prems by (simp add: s2_def)
  have unf: "integration_loop cfg env n step (v, s) = integration_loop cfg env n (step + 1) (v2, s2)"
    using lt e errs c by (simp add: integration_loop_continue v2_def s2_def)
  have k: "k = nat (n - (step + 1))" using Suc.hyps(2) by simp
  from Suc.hyps(1) [OF k errs c, of v2] show ?case
    unfolding unf by simp
qed

lemma loop_body_1_no_sigint:
  "\<not> sigint env step \<Longrightarrow> \<not> f step \<Longrightarrow>
   loop_body_1 cfg (env\<lparr>sigint := f\<rparr>) step s = loop_body_1 cfg env step s"
  by (simp add: loop_body_1_def integrator_step_1_def Let_def)

lemma loop_body_2_sigint_update:
  "loop_body_2 cfg (env\<lparr>sigint := f\<rparr>) step vs = loop_body_2 cfg env step vs"
  by (cases vs) (simp add: loop_body_2_def propagate_one_step_functionalities_def Let_def)

lemma integrate_checked_sigint_update:
  "integrate_checked cfg (env\<lparr>sigint := f\<rparr>) s = integrate_checked cfg env s"
  by (simp add: integrate_checked_def on_integration_start_def)

lemma integrate_prepared_sigint_update:
  "integrate_prepared cfg (env\<lparr>sigint := f\<rparr>) r s = integrate_prepared cfg env r s"
  by (simp add: integrate_prepared_def initial_force_calculation_def Let_def)

lemma integration_loop_interrupted:
  assumes size: "comm_cart_size cfg = 1"
    and sig: "sigint env j" "\<And>i. 0 \<le> i \<Longrightarrow> i < j \<Longrightarrow> \<not> sigint env i" and jn: "j < n"
  shows "0 \<le> step \<Longrightarrow> step \<le> j \<Longrightarrow> ctrl_C s = 0 \<Longrightarrow>
     \<not> caught_sigint (fst (integration_loop cfg (env\<lparr>sigint := \<lambda>_. False\<rparr>) n step (v, s))) \<Longrightarrow>
     \<not> caught_error (fst (integration_loop cfg (env\<lparr>sigint := \<lambda>_. False\<rparr>) n step (v, s))) \<Longrightarrow>
     integrated_steps (fst (integration_loop cfg (env\<lparr>sigint := \<lambda>_. False\<rparr>) n step (v, s))) =
       integrated_steps v + (n - step) \<Longrightarrow>
     caught_sigint (fst (integration_loop cfg env n step (v, s))) \<and>
     integrated_steps (fst (integration_loop cfg env n step (v, s))) =
       integrated_steps v + (j + 1 - step)"
proof (induction "nat (j - step)" arbitrary: step v s)
  case 0
  then have sj: "step = j" by simp
  define env0 where "env0 = env\<lparr>sigint := \<lambda>_. False\<rparr>"
  note prems0 = "0.prems" [folded env0_def]
  have lt: "step < n" using sj jn by simp
  define s1 where "s1 = snd (loop_body_1 cfg env step s)"
  define v2 where "v2 = fst (loop_body_2 cfg env step (v, s1))"
  define s2 where "s2 = snd (loop_body_2 cfg env step (v, s1))"
  define s10 where "s10 = snd (loop_body_1 cfg env0 step s)"
  define s20 where "s20 = snd (loop_body_2 cfg env0 step (v, s10))"
  have e0: "\<not> fst (loop_body_1 cfg env0 step s)"
  proof
    assume "fst (loop_body_1 cfg env0 step s)"
    then have "integration_loop cfg env0 n step (v, s) = (v, s10)"
      using lt by (simp add: integration_loop_early_exit s10_def)
    with prems0(6) lt show False by simp
  qed
  then have e: "\<not> fst (loop_body_1 cfg env step s)"
    by (simp add: loop_body_1_fst env0_def)
  have errs0: "runtime_errors s20 = []"
  proof (rule ccontr)
    assume "runtime_errors s20 \<noteq> []"
    then have "caught_error (fst (integration_loop cfg env0 n step (v, s)))"
      using lt e0 by (simp add: integration_loop_error s20_def s10_def)
    with prems0(5) show False by simp
  qed
  have errs: "runtime_errors s2 = []"
    using errs0
    by (simp add: s2_def s1_def s20_def s10_def env0_def loop_body_2_errors settings_fields)
  have c: "ctrl_C s2 = 1" using sig(1) sj by (simp add: s2_def s1_def)
  have "integration_loop cfg env n step (v, s) = (v2\<lparr>caught_sigint := True\<rparr>, s2)"
    unfolding v2_def s2_def s1_def
    using lt e errs size c unfolding s2_def s1_def by (rule integration_loop_sigint)
  then show ?case using sj by (simp add: v2_def loop_body_2_fst)
next
  case (Suc k)
  then have sj: "step < j" by simp
  define env0 where "env0 = env\<lparr>sigint := \<lambda>_. False\<rparr>"
  note prems0 = Suc.prems [folded env0_def]
  have lt: "step < n" using sj jn by simp
  have ns: "\<not> sigint env step" using sig(2) sj Suc.prems(1) by simp
  have b1: "loop_body_1 cfg env0 step s = loop_body_1 cfg env step s"
    unfolding env0_def by (rule loop_body_1_no_sigint [OF ns]) simp
  define s1 where "s1 = snd (loop_body_1 cfg env step s)"
  define v2 where "v2 = fst (loop_body_2 cfg env step (v, s1))"
  define s2 where "s2 = snd (loop_body_2 cfg env step (v, s1))"
  have b2: "loop_body_2 cfg env0 step (v, s1) = loop_body_2 cfg env step (v, s1)"
    unfolding env0_def by (rule loop_body_2_sigint_update)
  have e: "\<not> fst (loop_body_1 cfg env step s)"
  proof
    assume "fst (loop_body_1 cfg env step s)"
    then have "integration_loop cfg env0 n step (v, s) = (v, s1)"
      using lt b1 by (simp add: integration_loop_early_exit s1_def)
    with prems0(6) lt show False by simp
  qed
  have errs: "runtime_errors s2 = []"
  proof (rule ccontr)
    assume "runtime_errors s2 \<noteq> []"
    then have "caught_error (fst (integration_loop cfg env0 n step (v, s)))"
      using lt e b1 b2 by (simp add: integration_loop_error s2_def s1_def)
    with prems0(5) show False by simp
  qed
  have c: "ctrl_C s2 = 0" using ns Suc.prems(3) by (simp add: s2_def s1_def)
  have unf: "integration_loop cfg env n step (v, s) = integration_loop cfg env n (step + 1) (v2, s2)"
    using lt e errs c by (simp add: integration_loop_continue v2_def s2_def s1_def)
  have unf0: "integration_loop cfg env0 n step (v, s) =
      integration_loop cfg env0 n (step + 1) (v2, s2)"
    using lt e errs c b1 b2 by (simp add: integration_loop_continue v2_def s2_def s1_def)
  have k: "k = nat (j - (step + 1))" using Suc.hyps(2) by simp
  have sj1: "step + 1 \<le> j" using sj by simp
  have st1: "0 \<le> step + 1" using Suc.prems(1) by simp
  have steps: "integrated_steps v2 = integrated_steps v + 1"
    by (simp add: v2_def loop_body_2_fst)
  have p: "\<not> caught_sigint (fst (integration_loop cfg env0 n (step + 1) (v2, s2)))"
    "\<not> caught_error (fst (integration_loop cfg env0 n (step + 1) (v2, s2)))"
    "integrated_steps (fst (integration_loop cfg env0 n (step + 1) (v2, s2))) =
       integrated_steps v2 + (n - (step + 1))"
    using prems0(4-6) unfolding unf0 by (simp_all add: steps)
  have "caught_sigint (fst (integration_loop cfg env n (step + 1) (v2, s2))) \<and>
     integrated_steps (fst (integration_loop cfg env n (step + 1) (v2, s2))) =
       integrated_steps v2 + (j + 1 - (step + 1))"
    by (rule Suc.hyps(1) [OF k st1 sj1 c p [unfolded env0_def]])
  then show ?case unfolding unf by (simp add: steps)
qed

section \<open>Switching the integrator\<close>

lemma default_propagation_table:
  "default_propagation (snd (set_integ_switch cfg INTEG_METHOD_NVT s)) =
     (if ROTATION cfg then TRANS_LANGEVIN + ROT_LANGEVIN else TRANS_LANGEVIN)"
  "NPT cfg \<Longrightarrow> default_propagation (snd (set_integ_switch cfg INTEG_METHOD_NPT_ISO s)) =
     (if ROTATION cfg then TRANS_LANGEVIN_NPT cfg + ROT_LANGEVIN else TRANS_LANGEVIN_NPT cfg)"
  "default_propagation (snd (set_integ_switch cfg INTEG_METHOD_BD s)) =
     (if ROTATION cfg then TRANS_BROWNIAN + ROT_BROWNIAN else TRANS_BROWNIAN)"
  "STOKESIAN_DYNAMICS cfg \<Longrightarrow>
   default_propagation (snd (set_integ_switch cfg INTEG_METHOD_SD s)) = TRANS_STOKESIAN"
  "fst (set_integ_switch cfg (INTEG_METHOD_OTHER k) s) = Inl Runtime_error_integ_switch"
  by (simp_all add: set_integ_switch_def default_propagation_from_integ_def Let_def)

text \<open>
  C1. After \<^verbatim>\<open>set_integ_switch\<close>, \<^verbatim>\<open>default_propagation\<close> is the table value of the state;
  for the steepest descent the table value is the placeholder 0. The code assigns 0 and then
  falls through into the NVT case: after \<^verbatim>\<open>set_integ_switch(INTEG_METHOD_STEEPEST_DESCENT)\<close>
  the default is Langevin translation (with Langevin rotation when rotation is compiled in),
  the same as after \<^verbatim>\<open>set_integ_switch(INTEG_METHOD_NVT)\<close>, and not the placeholder.
\<close>

theorem set_integ_switch_steepest_descent:
  "default_propagation (snd (set_integ_switch cfg INTEG_METHOD_STEEPEST_DESCENT s)) =
     (if ROTATION cfg then TRANS_LANGEVIN + ROT_LANGEVIN else TRANS_LANGEVIN) \<and>
   default_propagation (snd (set_integ_switch cfg INTEG_METHOD_STEEPEST_DESCENT s)) \<noteq> NONE \<and>
   default_propagation (snd (set_integ_switch cfg INTEG_METHOD_STEEPEST_DESCENT s)) =
     default_propagation (snd (set_integ_switch cfg INTEG_METHOD_NVT s))"
  by (simp add: set_integ_switch_def default_propagation_from_integ_def Let_def
      PropagationMode_defs)

text \<open>
  C7. For every value \<open>v \<le> 0\<close>, \<^verbatim>\<open>set_time_step(v)\<close> throws the domain error and leaves the
  whole state as it was: the time step keeps its value and no notification is sent. For
  \<open>v > 0\<close> that the fluid accepts when a lattice-fluid solver is active, the stored time step
  becomes \<open>v\<close> and the notification \<^verbatim>\<open>on_timestep_change\<close> is sent.
\<close>

theorem set_time_step_domain:
  "(v \<le> 0 \<longrightarrow> set_time_step env v s = (Inl Domain_error_time_step, s)) \<and>
   (0 < v \<and> (lb_active env \<longrightarrow> check_tau_time_step_consistency env v) \<longrightarrow>
      set_time_step env v s = (Inr (), call On_timestep_change (s\<lparr>time_step := v\<rparr>)) \<and>
      time_step (snd (set_time_step env v s)) = v \<and>
      events (snd (set_time_step env v s)) = events s @ [On_timestep_change])"
  by (auto simp: set_time_step_def call_def)

text \<open>Rejected and accepted time steps on the initial state.\<close>

theorem set_time_step_domain_witness:
  "set_time_step quiet_env (- 1) initial_state = (Inl Domain_error_time_step, initial_state) \<and>
   set_time_step quiet_env 0 initial_state = (Inl Domain_error_time_step, initial_state) \<and>
   time_step (snd (set_time_step quiet_env (1 / 100) initial_state)) = 1 / 100 \<and>
   events (snd (set_time_step quiet_env (1 / 100) initial_state)) =
     events initial_state @ [On_timestep_change]"
proof -
  have lb: "\<not> lb_active quiet_env" by (simp add: quiet_env_def)
  show ?thesis
    using set_time_step_domain [of "- 1" quiet_env initial_state]
      set_time_step_domain [of 0 quiet_env initial_state]
      set_time_step_domain [of "1 / 100" quiet_env initial_state] lb
    by (simp add: call_def)
qed

section \<open>Vetoed integration\<close>

lemma integrator_sanity_checks_npt_lees_edwards:
  assumes "integ_switch s = INTEG_METHOD_NPT_ISO" "box_type s = LEES_EDWARDS"
  shows "runtime_errors (integrator_sanity_checks cfg s) \<noteq> []"
    and "NPT cfg \<Longrightarrow> NpT_with_Lees_Edwards \<in> set (runtime_errors (integrator_sanity_checks cfg s))"
  using assms
  by (cases "time_step s < 0"; simp add: integrator_sanity_checks_def Let_def settings_fields)+

lemma integrate_checked_errors:
  "set (runtime_errors (integrator_sanity_checks cfg (call On_integration_start s)))
     \<subseteq> set (runtime_errors (integrate_checked cfg env s))"
  by (auto simp: integrate_checked_def propagation_sanity_checks_def
      get_used_propagations_def on_integration_start_def Let_def)

lemma integrate_vetoed:
  assumes "check_runtime_errors (integrate_checked cfg env s)"
  shows "integrate cfg env n r s = (INTEG_ERROR_RUNTIME, integrate_checked cfg env s)"
  using assms by (simp add: integrate_unfold)

text \<open>
  C6. If the integrator is NPT-isotropic while the box is of type Lees-Edwards, the sanity
  check queues a configuration error and \<^verbatim>\<open>integrate\<close> returns the runtime-error code
  without running a step: the only call it makes is \<^verbatim>\<open>on_integration_start\<close>, and the
  simulation time is unchanged.
\<close>

theorem integrate_npt_lees_edwards:
  assumes "integ_switch s = INTEG_METHOD_NPT_ISO" "box_type s = LEES_EDWARDS"
  shows "fst (integrate cfg env n r s) = INTEG_ERROR_RUNTIME \<and>
     events (snd (integrate cfg env n r s)) = events s @ [On_integration_start] \<and>
     sim_time (snd (integrate cfg env n r s)) = sim_time s \<and>
     runtime_errors (snd (integrate cfg env n r s)) \<noteq> [] \<and>
     (NPT cfg \<longrightarrow> NpT_with_Lees_Edwards \<in> set (runtime_errors (snd (integrate cfg env n r s))))"
proof -
  let ?s0 = "call On_integration_start s"
  have s0: "integ_switch ?s0 = INTEG_METHOD_NPT_ISO" "box_type ?s0 = LEES_EDWARDS"
    using assms by (simp_all add: settings_fields)
  have sub: "set (runtime_errors (integrator_sanity_checks cfg ?s0))
     \<subseteq> set (runtime_errors (integrate_checked cfg env s))"
    by (rule integrate_checked_errors)
  have "set (runtime_errors (integrator_sanity_checks cfg ?s0)) \<noteq> {}"
    using integrator_sanity_checks_npt_lees_edwards(1) [OF s0] by simp
  with sub have ne: "runtime_errors (integrate_checked cfg env s) \<noteq> []" by auto
  then have "check_runtime_errors (integrate_checked cfg env s)"
    by (simp add: check_runtime_errors_def)
  then have eq: "integrate cfg env n r s = (INTEG_ERROR_RUNTIME, integrate_checked cfg env s)"
    by (rule integrate_vetoed)
  show ?thesis
    using ne sub integrator_sanity_checks_npt_lees_edwards(2) [OF s0] unfolding eq
    by auto
qed

lemma npt_lees_edwards_state:
  "integ_switch (snd (set_integ_switch reference_build INTEG_METHOD_NPT_ISO
      (set_protocol ready_state))) = INTEG_METHOD_NPT_ISO"
  "box_type (snd (set_integ_switch reference_build INTEG_METHOD_NPT_ISO
      (set_protocol ready_state))) = LEES_EDWARDS"
  by (simp_all add: set_integ_switch_def default_propagation_from_integ_def Let_def
      set_protocol_def reference_build_def call_def update_box_params_def)

text \<open>The reference state, sheared and then switched to NPT, vetoes a run of ten steps.\<close>

theorem integrate_npt_lees_edwards_witness:
  "fst (integrate reference_build quiet_env 10 INTEG_REUSE_FORCES_CONDITIONALLY
     (snd (set_integ_switch reference_build INTEG_METHOD_NPT_ISO (set_protocol ready_state))))
     = INTEG_ERROR_RUNTIME \<and>
   NpT_with_Lees_Edwards \<in> set (runtime_errors (snd
     (integrate reference_build quiet_env 10 INTEG_REUSE_FORCES_CONDITIONALLY
       (snd (set_integ_switch reference_build INTEG_METHOD_NPT_ISO
          (set_protocol ready_state))))))"
proof -
  have npt: "NPT reference_build" by (simp add: reference_build_def)
  show ?thesis
    using integrate_npt_lees_edwards [OF npt_lees_edwards_state,
        of reference_build quiet_env 10 INTEG_REUSE_FORCES_CONDITIONALLY] npt
    by simp
qed

section \<open>Results of \<^verbatim>\<open>integrate\<close>\<close>

lemma integrate_cases [case_names veto_start veto_prepared run]:
  obtains
    (veto_start) "check_runtime_errors (integrate_checked cfg env s)"
      "integrate cfg env n r s = (INTEG_ERROR_RUNTIME, integrate_checked cfg env s)"
  | (veto_prepared) "\<not> check_runtime_errors (integrate_checked cfg env s)"
      "check_runtime_errors (integrate_prepared cfg env r (integrate_checked cfg env s))"
      "integrate cfg env n r s =
         (INTEG_ERROR_RUNTIME, integrate_prepared cfg env r (integrate_checked cfg env s))"
  | (run) "\<not> check_runtime_errors (integrate_checked cfg env s)"
      "\<not> check_runtime_errors (integrate_prepared cfg env r (integrate_checked cfg env s))"
      "integrate cfg env n r s =
         integrate_finish cfg n (integration_loop cfg env n 0
           (loop_vars_0, integrate_prepared cfg env r (integrate_checked cfg env s)))"
  by (cases "check_runtime_errors (integrate_checked cfg env s)";
      cases "check_runtime_errors (integrate_prepared cfg env r (integrate_checked cfg env s))")
     (simp_all add: integrate_unfold Let_def)

lemma integrate_finish_fst':
  "fst (integrate_finish cfg n vs) =
     (if caught_sigint (fst vs) then INTEG_ERROR_SIGINT
      else if caught_error (fst vs) then INTEG_ERROR_RUNTIME else integrated_steps (fst vs))"
  by (cases vs) (simp add: integrate_finish_fst)

lemma integrate_nonneg:
  assumes "0 \<le> fst (integrate cfg env n r s)"
  defines "L \<equiv> integration_loop cfg env n 0
     (loop_vars_0, integrate_prepared cfg env r (integrate_checked cfg env s))"
  shows "integrate cfg env n r s = integrate_finish cfg n L"
    and "\<not> caught_sigint (fst L)" and "\<not> caught_error (fst L)"
    and "fst (integrate cfg env n r s) = integrated_steps (fst L)"
    and "\<not> check_runtime_errors (integrate_checked cfg env s)"
    and "\<not> check_runtime_errors (integrate_prepared cfg env r (integrate_checked cfg env s))"
proof -
  have run: "\<not> check_runtime_errors (integrate_checked cfg env s) \<and>
      \<not> check_runtime_errors (integrate_prepared cfg env r (integrate_checked cfg env s)) \<and>
      integrate cfg env n r s = integrate_finish cfg n L"
  proof (cases rule: integrate_cases [where cfg = cfg and env = env and s = s and n = n and r = r])
    case veto_start
    with assms(1) show ?thesis by (simp add: INTEG_ERROR_RUNTIME_def)
  next
    case veto_prepared
    with assms(1) show ?thesis by (simp add: INTEG_ERROR_RUNTIME_def)
  next
    case run
    then show ?thesis by (simp add: L_def)
  qed
  then show "integrate cfg env n r s = integrate_finish cfg n L"
    and "\<not> check_runtime_errors (integrate_checked cfg env s)"
    and "\<not> check_runtime_errors (integrate_prepared cfg env r (integrate_checked cfg env s))"
    by simp_all
  from assms(1) run have "0 \<le> fst (integrate_finish cfg n L)" by simp
  then show "\<not> caught_sigint (fst L)" and "\<not> caught_error (fst L)"
    by (auto simp: integrate_finish_fst' INTEG_ERROR_RUNTIME_def INTEG_ERROR_SIGINT_def
        split: if_splits)
  then show "fst (integrate cfg env n r s) = integrated_steps (fst L)"
    using run by (simp add: integrate_finish_fst')
qed

lemma integrate_finish_snd_fields [simp]:
  "settings (snd (integrate_finish cfg n vs)) = settings (snd vs)"
  "sim_time (snd (integrate_finish cfg n vs)) = sim_time (snd vs)"
  "fluid_step (snd (integrate_finish cfg n vs)) = fluid_step (snd vs)"
  "ctrl_C (snd (integrate_finish cfg n vs)) = (if caught_sigint (fst vs) then 0 else ctrl_C (snd vs))"
  by (cases vs; simp)+

lemma integrate_finish_count:
  "x = LB_propagate \<or> x = Philox_counter_increment \<Longrightarrow>
   count_list (events (snd (integrate_finish cfg n vs))) x = count_list (events (snd vs)) x"
  by (cases vs) (auto simp: integrate_finish_events)

lemma integrate_finish_chunk_calls [simp]:
  "chunk_calls (events (snd (integrate_finish cfg n vs))) = chunk_calls (events (snd vs))"
  by (cases vs) (simp add: integrate_finish_events)

lemma integrate_prepared_count:
  "x = LB_propagate \<or> x = Philox_counter_increment \<Longrightarrow>
   count_list (events (integrate_prepared cfg env r (integrate_checked cfg env s))) x =
     count_list (events s) x"
  by (auto simp: integrate_prepared_events)

lemma integrate_prepared_chunk_calls [simp]:
  "chunk_calls (events (integrate_prepared cfg env r (integrate_checked cfg env s))) =
     chunk_calls (events s)"
  by (simp add: integrate_prepared_events)

lemma integrate_clean:
  assumes "\<not> check_runtime_errors (integrate_checked cfg env s)"
    and "initial_force_errors env = []" and "\<And>i. step_errors env i = []"
    and "\<not> (lb_active env \<and> ek_active env)" and "\<And>i. \<not> sigint env i"
    and "\<And>i. \<not> steepest_descent_step env i" and "ctrl_C s = 0" and "0 \<le> n"
  shows "fst (integrate cfg env n r s) = n"
proof -
  let ?s5 = "integrate_prepared cfg env r (integrate_checked cfg env s)"
  have e5: "runtime_errors ?s5 = []"
    using assms(1,2) by (simp add: integrate_prepared_errors check_runtime_errors_def)
  have c5: "ctrl_C ?s5 = 0" using assms(7) by simp
  have L: "integrated_steps (fst (integration_loop cfg env n 0 (loop_vars_0, ?s5))) =
       integrated_steps loop_vars_0 + (n - 0) \<and>
     caught_sigint (fst (integration_loop cfg env n 0 (loop_vars_0, ?s5))) =
       caught_sigint loop_vars_0 \<and>
     caught_error (fst (integration_loop cfg env n 0 (loop_vars_0, ?s5))) =
       caught_error loop_vars_0"
    using assms(3-6) e5 c5 assms(8) by (intro integration_loop_clean) auto
  have "integrate cfg env n r s = integrate_finish cfg n (integration_loop cfg env n 0 (loop_vars_0, ?s5))"
    using assms(1) e5 by (simp add: integrate_unfold check_runtime_errors_def Let_def)
  then show ?thesis using L by (simp add: integrate_finish_fst' loop_vars_0_def)
qed

lemma integrate_settings: "settings (snd (integrate cfg env n r s)) = settings s"
proof (cases rule: integrate_cases [where cfg = cfg and env = env and s = s and n = n and r = r])
  case veto_start
  then show ?thesis by simp
next
  case veto_prepared
  then show ?thesis by simp
next
  case run
  then show ?thesis by (simp add: integration_loop_settings)
qed

lemma integrate_clean_state:
  assumes "\<not> check_runtime_errors (integrate_checked cfg env s)"
    and "initial_force_errors env = []" and "\<And>i. step_errors env i = []"
    and "\<not> (lb_active env \<and> ek_active env)" and "\<And>i. \<not> sigint env i"
    and "\<And>i. \<not> steepest_descent_step env i" and "ctrl_C s = 0"
  shows "runtime_errors (snd (integrate cfg env n r s)) = []"
    and "ctrl_C (snd (integrate cfg env n r s)) = 0"
proof -
  let ?s5 = "integrate_prepared cfg env r (integrate_checked cfg env s)"
  let ?L = "integration_loop cfg env n 0 (loop_vars_0, ?s5)"
  have e5: "runtime_errors ?s5 = []"
    using assms(1,2) by (simp add: integrate_prepared_errors check_runtime_errors_def)
  have c5: "ctrl_C ?s5 = 0" using assms(7) by simp
  have L: "runtime_errors (snd ?L) = [] \<and> ctrl_C (snd ?L) = 0"
    using assms(3-6) e5 c5 by (intro integration_loop_clean_state) auto
  have run: "integrate cfg env n r s = integrate_finish cfg n ?L"
    using assms(1) e5 by (simp add: integrate_unfold check_runtime_errors_def Let_def)
  show "runtime_errors (snd (integrate cfg env n r s)) = []"
    using L unfolding run by (cases ?L) simp
  show "ctrl_C (snd (integrate cfg env n r s)) = 0"
    using L unfolding run by simp
qed

section \<open>The reference run\<close>

lemma double_0_01_pos [simp]: "0 < double_0_01" "0 \<le> double_0_01" "\<not> double_0_01 < 0"
  by (simp_all add: double_0_01_def)

lemma ready_state_fields:
  "integ_switch ready_state = INTEG_METHOD_NVT"
  "default_propagation ready_state = TRANS_LANGEVIN + ROT_LANGEVIN"
  "time_step ready_state = double_0_01"
  "sim_time ready_state = Finite 0"
  "ctrl_C ready_state = 0"
  "fluid_step ready_state = 0"
  "recalc_forces ready_state"
  "skin_set ready_state = False"
  "box_type ready_state = CUBOID"
  "thermo_switch ready_state = 0"
  "runtime_errors ready_state = []"
  "events ready_state = [On_timestep_change]"
  by (simp_all add: ready_state_def set_integ_switch_def default_propagation_from_integ_def
      set_time_step_def initial_state_def quiet_env_def reference_build_def call_def Let_def
      double_0_01_def)

lemma ready_state_checked:
  assumes "local_particles env 0 = [TRANS_SYSTEM_DEFAULT]" "start_errors env = []"
  shows "\<not> check_runtime_errors (integrate_checked reference_build env ready_state)"
proof -
  define s0 where "s0 = call On_integration_start ready_state"
  have s0: "integ_switch s0 = INTEG_METHOD_NVT" "\<not> time_step s0 < 0" "thermo_switch s0 = 0"
    "default_propagation s0 = TRANS_LANGEVIN + ROT_LANGEVIN" "runtime_errors s0 = []"
    by (simp_all add: s0_def call_def ready_state_fields double_0_01_def)
  have sane: "integrator_sanity_checks reference_build s0 = s0"
    by (simp add: integrator_sanity_checks_def Let_def s0 reference_build_def)
  have chk: "integrate_checked reference_build env ready_state =
      propagation_sanity_checks reference_build (get_used_propagations [TRANS_SYSTEM_DEFAULT] s0)"
    using assms
    by (simp add: integrate_checked_def on_integration_start_def sane s0_def [symmetric]
        queue_errors_def)
  have "TRANS_LANGEVIN_NPT reference_build = push_bit 10 1"
    by (simp add: reference_build_def)
  then show ?thesis
    unfolding chk
    by (simp add: check_runtime_errors_def get_used_propagations_def
        propagation_sanity_checks_def s0 PropagationMode_defs)
qed

lemma reference_checked:
  assumes s: "integ_switch s = INTEG_METHOD_NVT \<or> integ_switch s = INTEG_METHOD_STEEPEST_DESCENT"
      "0 \<le> time_step s" "thermo_switch s = 0"
      "default_propagation s = TRANS_LANGEVIN + ROT_LANGEVIN" "runtime_errors s = []"
    and env: "local_particles env 0 = [TRANS_SYSTEM_DEFAULT]" "start_errors env = []"
  shows "\<not> check_runtime_errors (integrate_checked reference_build env s)"
proof -
  define s0 where "s0 = call On_integration_start s"
  have s0: "integ_switch s0 = INTEG_METHOD_NVT \<or> integ_switch s0 = INTEG_METHOD_STEEPEST_DESCENT"
    "\<not> time_step s0 < 0" "thermo_switch s0 = 0"
    "default_propagation s0 = TRANS_LANGEVIN + ROT_LANGEVIN" "runtime_errors s0 = []"
    using s by (simp_all add: s0_def call_def)
  have sane: "integrator_sanity_checks reference_build s0 = s0"
    using s0(1)
    by (elim disjE) (simp_all add: integrator_sanity_checks_def Let_def s0(2-) reference_build_def)
  have chk: "integrate_checked reference_build env s =
      propagation_sanity_checks reference_build (get_used_propagations [TRANS_SYSTEM_DEFAULT] s0)"
    using env
    by (simp add: integrate_checked_def on_integration_start_def sane s0_def [symmetric]
        queue_errors_def)
  have "TRANS_LANGEVIN_NPT reference_build = push_bit 10 1"
    by (simp add: reference_build_def)
  then show ?thesis
    unfolding chk
    by (simp add: check_runtime_errors_def get_used_propagations_def
        propagation_sanity_checks_def s0(2-) PropagationMode_defs)
qed

lemma quiet_env_fields:
  "local_particles quiet_env k = [TRANS_SYSTEM_DEFAULT]" "start_errors quiet_env = []"
  "initial_force_errors quiet_env = []" "step_errors quiet_env i = []"
  "\<not> lb_active quiet_env" "\<not> ek_active quiet_env" "\<not> sigint quiet_env i"
  "\<not> steepest_descent_step quiet_env i" "maximal_cutoff quiet_env = 1"
  "auto_update_next_update quiet_env = 2"
  by (simp_all add: quiet_env_def)

section \<open>Arithmetic of doubles\<close>







section \<open>Simulation time\<close>






section \<open>Cadence of the lattice fluid\<close>

lemma integrate_completed_steps:
  fixes k :: int
  assumes k: "k = int (count_list (events (snd (integrate cfg env n r s))) Philox_counter_increment) -
     int (count_list (events s) Philox_counter_increment)"
  shows "0 \<le> k" and "0 \<le> fst (integrate cfg env n r s) \<Longrightarrow> k = fst (integrate cfg env n r s)"
proof -
  let ?s5 = "integrate_prepared cfg env r (integrate_checked cfg env s)"
  let ?L = "integration_loop cfg env n 0 (loop_vars_0, ?s5)"
  show "0 \<le> k"
  proof (cases rule: integrate_cases [where cfg = cfg and env = env and s = s and n = n and r = r])
    case veto_start
    then show ?thesis by (simp add: k)
  next
    case veto_prepared
    then show ?thesis by (simp add: k integrate_prepared_count)
  next
    case run
    then show ?thesis
      using integration_loop_philox [of cfg env n 0 "(loop_vars_0, ?s5)"]
      by (simp add: k integrate_finish_count integrate_prepared_count)
  qed
  show "k = fst (integrate cfg env n r s)" if nonneg: "0 \<le> fst (integrate cfg env n r s)"
  proof -
    note nn = integrate_nonneg [OF nonneg]
    have "0 \<le> integrated_steps (fst ?L)" using nn(4) nonneg by simp
    then show ?thesis
      using integration_loop_philox [of cfg env n 0 "(loop_vars_0, ?s5)"] nn(4)
      by (simp add: k nn(1) integrate_finish_count integrate_prepared_count loop_vars_0_def)
  qed
qed

lemma integrate_fluid:
  fixes k :: int
  assumes lb: "lb_active env" and N: "lb_steps_per_md_step env (time_step s) = N" "1 \<le> N"
    and sw: "integ_switch s \<noteq> INTEG_METHOD_STEEPEST_DESCENT"
    and k: "k = int (count_list (events (snd (integrate cfg env n r s))) Philox_counter_increment) -
     int (count_list (events s) Philox_counter_increment)"
    and x: "x = min (fluid_step s) (N - 1) + k"
  shows "int (count_list (events (snd (integrate cfg env n r s))) LB_propagate) =
      int (count_list (events s) LB_propagate) + max 0 (x div N) \<and>
     (0 < k \<longrightarrow> fluid_step (snd (integrate cfg env n r s)) = (if x < 0 then x else x mod N))"
proof -
  let ?s5 = "integrate_prepared cfg env r (integrate_checked cfg env s)"
  let ?vs = "(loop_vars_0, ?s5)"
  let ?L = "integration_loop cfg env n 0 ?vs"
  define c where "c = min (fluid_step s) (N - 1)"
  have c0: "max 0 (c div N) = 0"
  proof (cases "c < 0")
    case True
    then show ?thesis using N(2) by (simp add: div_neg_pos_less0 less_imp_le)
  next
    case False
    then show ?thesis using N(2) by (simp add: div_pos_pos_trivial c_def)
  qed
  show ?thesis
  proof (cases rule: integrate_cases [where cfg = cfg and env = env and s = s and n = n and r = r])
    case veto_start
    then have "k = 0" by (simp add: k)
    then show ?thesis using veto_start c0 by (simp add: x c_def)
  next
    case veto_prepared
    then have "k = 0" by (simp add: k integrate_prepared_count)
    then show ?thesis using veto_prepared c0 by (simp add: x c_def integrate_prepared_count)
  next
    case run
    have s5: "integ_switch (snd ?vs) \<noteq> INTEG_METHOD_STEEPEST_DESCENT"
      "lb_steps_per_md_step env (time_step (snd ?vs)) = N"
      using sw N by (simp_all add: settings_fields)
    have mono: "integrated_steps (fst ?vs) \<le> integrated_steps (fst ?L)"
      by (rule integration_loop_steps_mono)
    have kd: "k = integrated_steps (fst ?L) - integrated_steps (fst ?vs)"
      using integration_loop_philox [of cfg env n 0 ?vs] mono
      by (simp add: k run(3) integrate_finish_count integrate_prepared_count)
    have xd: "x = min (fluid_step (snd ?vs)) (N - 1) +
        (integrated_steps (fst ?L) - integrated_steps (fst ?vs))"
      by (simp add: x kd)
    note inv = integration_loop_fluid [OF lb s5 N(2) xd]
    have "int (count_list (events (snd (integrate cfg env n r s))) LB_propagate) =
        int (count_list (events s) LB_propagate) + max 0 (x div N)"
      using inv(2) by (simp add: run(3) integrate_finish_count integrate_prepared_count)
    moreover have "fluid_step (snd (integrate cfg env n r s)) = (if x < 0 then x else x mod N)"
      if "0 < k"
      using inv(1) that by (simp add: run(3) kd)
    ultimately show ?thesis by simp
  qed
qed

lemma integrate_fluid_steepest_descent:
  assumes "integ_switch s = INTEG_METHOD_STEEPEST_DESCENT"
  shows "count_list (events (snd (integrate cfg env n r s))) LB_propagate =
      count_list (events s) LB_propagate \<and>
     fluid_step (snd (integrate cfg env n r s)) = fluid_step s"
proof (cases rule: integrate_cases [where cfg = cfg and env = env and s = s and n = n and r = r])
  case veto_start
  then show ?thesis by simp
next
  case veto_prepared
  then show ?thesis by (simp add: integrate_prepared_count)
next
  case run
  let ?vs = "(loop_vars_0, integrate_prepared cfg env r (integrate_checked cfg env s))"
  have "integ_switch (snd ?vs) = INTEG_METHOD_STEEPEST_DESCENT"
    using assms by (simp add: settings_fields)
  from integration_loop_fluid_steepest_descent [OF this, of cfg env n 0]
  show ?thesis by (simp add: run(3) integrate_finish_count integrate_prepared_count)
qed

lemma steepest_descent_state_fields:
  "integ_switch (snd (set_integ_switch reference_build INTEG_METHOD_STEEPEST_DESCENT ready_state)) =
     INTEG_METHOD_STEEPEST_DESCENT"
  "default_propagation
     (snd (set_integ_switch reference_build INTEG_METHOD_STEEPEST_DESCENT ready_state)) =
     TRANS_LANGEVIN + ROT_LANGEVIN"
  "time_step (snd (set_integ_switch reference_build INTEG_METHOD_STEEPEST_DESCENT ready_state)) =
     double_0_01"
  "thermo_switch (snd (set_integ_switch reference_build INTEG_METHOD_STEEPEST_DESCENT ready_state))
     = 0"
  "runtime_errors (snd (set_integ_switch reference_build INTEG_METHOD_STEEPEST_DESCENT ready_state))
     = []"
  "ctrl_C (snd (set_integ_switch reference_build INTEG_METHOD_STEEPEST_DESCENT ready_state)) = 0"
  "fluid_step (snd (set_integ_switch reference_build INTEG_METHOD_STEEPEST_DESCENT ready_state)) = 0"
  "events (snd (set_integ_switch reference_build INTEG_METHOD_STEEPEST_DESCENT ready_state)) =
     [On_timestep_change]"
  by (simp_all add: set_integ_switch_def default_propagation_from_integ_def Let_def
      reference_build_def ready_state_fields)

text \<open>
  C8, as the code has it. Let the lattice fluid be active with a ratio of \<open>N \<ge> 1\<close> steps, and
  let a call of \<^verbatim>\<open>integrate\<close> complete \<open>k\<close> steps (so many increments of the random-number
  counter; the value returned, when that is a count). When the integrator is not the
  steepest descent, every step increments the counter \<^verbatim>\<open>fluid_step\<close>; when it reaches \<open>N\<close>
  it is reset to 0 and \<^verbatim>\<open>LB::propagate\<close> is called in that step. Hence, with the counter
  started at \<open>c\<close> (at \<open>N - 1\<close>, if it was left beyond that), the call makes
  \<open>(c + k) div N\<close> calls of \<^verbatim>\<open>LB::propagate\<close>, one every \<open>N\<close> steps, and leaves the counter
  at \<open>(c + k) mod N\<close>. With the steepest descent the fluid is not stepped: the counter
  stays and \<^verbatim>\<open>LB::propagate\<close> is not called.
\<close>

theorem lb_propagate_cadence:
  assumes "lb_active env" and "lb_steps_per_md_step env (time_step s) = N" and "1 \<le> N"
  shows
    "let s' = snd (integrate cfg env n r s);
         k = int (count_list (events s') Philox_counter_increment) -
             int (count_list (events s) Philox_counter_increment);
         fired = int (count_list (events s') LB_propagate) -
                 int (count_list (events s) LB_propagate);
         x = min (fluid_step s) (N - 1) + k
     in 0 \<le> k \<and> (0 \<le> fst (integrate cfg env n r s) \<longrightarrow> k = fst (integrate cfg env n r s)) \<and>
        (integ_switch s \<noteq> INTEG_METHOD_STEEPEST_DESCENT \<longrightarrow>
           fluid_step (propagate_one_step_functionalities cfg env s) =
             (if fluid_step s + 1 \<ge> N then 0 else fluid_step s + 1) \<and>
           count_list (events (propagate_one_step_functionalities cfg env s)) LB_propagate =
             count_list (events s) LB_propagate + (if fluid_step s + 1 \<ge> N then 1 else 0) \<and>
           fired = max 0 (x div N) \<and>
           (0 < k \<longrightarrow> fluid_step s' = (if x < 0 then x else x mod N))) \<and>
        (integ_switch s = INTEG_METHOD_STEEPEST_DESCENT \<longrightarrow>
           propagate_one_step_functionalities cfg env s = s \<and>
           fired = 0 \<and> fluid_step s' = fluid_step s)"
proof -
  define k where "k = int (count_list (events (snd (integrate cfg env n r s)))
      Philox_counter_increment) - int (count_list (events s) Philox_counter_increment)"
  define x where "x = min (fluid_step s) (N - 1) + k"
  note steps = integrate_completed_steps [OF k_def]
  have one: "fluid_step (propagate_one_step_functionalities cfg env s) =
       (if fluid_step s + 1 \<ge> N then 0 else fluid_step s + 1)"
    "count_list (events (propagate_one_step_functionalities cfg env s)) LB_propagate =
       count_list (events s) LB_propagate + (if fluid_step s + 1 \<ge> N then 1 else 0)"
    if "integ_switch s \<noteq> INTEG_METHOD_STEEPEST_DESCENT"
    using assms that
    by (simp_all add: propagate_one_step_functionalities_fluid_step
        propagate_one_step_functionalities_lb)
  have run: "int (count_list (events (snd (integrate cfg env n r s))) LB_propagate) -
        int (count_list (events s) LB_propagate) = max 0 (x div N)"
    "0 < k \<longrightarrow> fluid_step (snd (integrate cfg env n r s)) = (if x < 0 then x else x mod N)"
    if "integ_switch s \<noteq> INTEG_METHOD_STEEPEST_DESCENT"
    using integrate_fluid [OF assms that k_def x_def] by simp_all
  have sd: "propagate_one_step_functionalities cfg env s = s"
    "int (count_list (events (snd (integrate cfg env n r s))) LB_propagate) -
        int (count_list (events s) LB_propagate) = 0"
    "fluid_step (snd (integrate cfg env n r s)) = fluid_step s"
    if "integ_switch s = INTEG_METHOD_STEEPEST_DESCENT"
    using integrate_fluid_steepest_descent [OF that, of cfg env n r] that
    by (simp_all add: propagate_one_step_functionalities_def)
  show ?thesis
    unfolding Let_def k_def [symmetric] x_def [symmetric]
    using steps one run sd by blast
qed

text \<open>
  Seven steps with a ratio of 3. From a counter at 0: two calls of \<^verbatim>\<open>LB::propagate\<close>,
  counter at 1. From a counter left at 5: calls in the first, fourth and seventh step,
  counter at 0.
\<close>

theorem lb_propagate_cadence_witness:
  "fst (integrate reference_build (quiet_env\<lparr>lb_active := True, lb_steps_per_md_step := \<lambda>_. 3\<rparr>)
      7 INTEG_REUSE_FORCES_CONDITIONALLY ready_state) = 7 \<and>
   fluid_step (snd (integrate reference_build
      (quiet_env\<lparr>lb_active := True, lb_steps_per_md_step := \<lambda>_. 3\<rparr>)
      7 INTEG_REUSE_FORCES_CONDITIONALLY ready_state)) = 1 \<and>
   count_list (events (snd (integrate reference_build
      (quiet_env\<lparr>lb_active := True, lb_steps_per_md_step := \<lambda>_. 3\<rparr>)
      7 INTEG_REUSE_FORCES_CONDITIONALLY ready_state))) LB_propagate = 2 \<and>
   fluid_step (snd (integrate reference_build
      (quiet_env\<lparr>lb_active := True, lb_steps_per_md_step := \<lambda>_. 3\<rparr>)
      7 INTEG_REUSE_FORCES_CONDITIONALLY (ready_state\<lparr>fluid_step := 5\<rparr>))) = 0 \<and>
   count_list (events (snd (integrate reference_build
      (quiet_env\<lparr>lb_active := True, lb_steps_per_md_step := \<lambda>_. 3\<rparr>)
      7 INTEG_REUSE_FORCES_CONDITIONALLY (ready_state\<lparr>fluid_step := 5\<rparr>)))) LB_propagate = 3"
proof -
  define env where "env = quiet_env\<lparr>lb_active := True, lb_steps_per_md_step := \<lambda>_. 3\<rparr>"
  have seven: "fst (integrate reference_build env 7 INTEG_REUSE_FORCES_CONDITIONALLY
      (ready_state\<lparr>fluid_step := f\<rparr>)) = 7" for f
    by (intro integrate_clean reference_checked)
       (simp_all add: env_def quiet_env_fields ready_state_fields)
  have h: "lb_active env" "lb_steps_per_md_step env (time_step (ready_state\<lparr>fluid_step := f\<rparr>)) = 3"
    "(1::int) \<le> 3" for f
    by (simp_all add: env_def)
  have sw: "integ_switch (ready_state\<lparr>fluid_step := f\<rparr>) \<noteq> INTEG_METHOD_STEEPEST_DESCENT" for f
    by (simp add: ready_state_fields)
  have ev: "events (ready_state\<lparr>fluid_step := f\<rparr>) = [On_timestep_change]" for f
    by (simp add: ready_state_fields)
  have r0: "ready_state\<lparr>fluid_step := 0\<rparr> = ready_state"
    by (simp add: ready_state_fields(6) [symmetric])
  have a: "fluid_step (snd (integrate reference_build env 7 INTEG_REUSE_FORCES_CONDITIONALLY
        (ready_state\<lparr>fluid_step := 0\<rparr>))) = 1 \<and>
      int (count_list (events (snd (integrate reference_build env 7
        INTEG_REUSE_FORCES_CONDITIONALLY (ready_state\<lparr>fluid_step := 0\<rparr>)))) LB_propagate) = 2"
    using lb_propagate_cadence [OF h(1) h(2) [of 0] h(3), where cfg = reference_build
        and n = 7 and r = INTEG_REUSE_FORCES_CONDITIONALLY]
      seven [of 0] sw [of 0]
    by (simp add: Let_def ev)
  have b: "fluid_step (snd (integrate reference_build env 7 INTEG_REUSE_FORCES_CONDITIONALLY
        (ready_state\<lparr>fluid_step := 5\<rparr>))) = 0 \<and>
      int (count_list (events (snd (integrate reference_build env 7
        INTEG_REUSE_FORCES_CONDITIONALLY (ready_state\<lparr>fluid_step := 5\<rparr>)))) LB_propagate) = 3"
    using lb_propagate_cadence [OF h(1) h(2) [of 5] h(3), where cfg = reference_build
        and n = 7 and r = INTEG_REUSE_FORCES_CONDITIONALLY]
      seven [of 5] sw [of 5]
    by (simp add: Let_def ev)
  show ?thesis
    using a b seven [of 0] unfolding r0 env_def by simp
qed

text \<open>
  The claim has the fluid propagate once every \<open>N\<close> steps whenever it is active. After
  \<^verbatim>\<open>set_integ_switch(INTEG_METHOD_STEEPEST_DESCENT)\<close>, six steps of the reference run with the
  fluid active at a ratio of 3 complete, and \<^verbatim>\<open>LB::propagate\<close> is not called once: the
  steepest descent skips the block that steps the fluid.
\<close>

theorem lb_propagate_cadence_counterexample:
  "lb_active (quiet_env\<lparr>lb_active := True, lb_steps_per_md_step := \<lambda>_. 3\<rparr>) \<and>
   fst (integrate reference_build (quiet_env\<lparr>lb_active := True, lb_steps_per_md_step := \<lambda>_. 3\<rparr>)
      6 INTEG_REUSE_FORCES_CONDITIONALLY
      (snd (set_integ_switch reference_build INTEG_METHOD_STEEPEST_DESCENT ready_state))) = 6 \<and>
   count_list (events (snd (integrate reference_build
      (quiet_env\<lparr>lb_active := True, lb_steps_per_md_step := \<lambda>_. 3\<rparr>)
      6 INTEG_REUSE_FORCES_CONDITIONALLY
      (snd (set_integ_switch reference_build INTEG_METHOD_STEEPEST_DESCENT ready_state)))))
     LB_propagate = 0 \<and>
   fluid_step (snd (integrate reference_build
      (quiet_env\<lparr>lb_active := True, lb_steps_per_md_step := \<lambda>_. 3\<rparr>)
      6 INTEG_REUSE_FORCES_CONDITIONALLY
      (snd (set_integ_switch reference_build INTEG_METHOD_STEEPEST_DESCENT ready_state)))) = 0"
proof -
  define env where "env = quiet_env\<lparr>lb_active := True, lb_steps_per_md_step := \<lambda>_. 3\<rparr>"
  define s where "s = snd (set_integ_switch reference_build INTEG_METHOD_STEEPEST_DESCENT
    ready_state)"
  note f = steepest_descent_state_fields [folded s_def]
  have six: "fst (integrate reference_build env 6 INTEG_REUSE_FORCES_CONDITIONALLY s) = 6"
    by (intro integrate_clean reference_checked)
       (simp_all add: env_def quiet_env_fields f)
  have "count_list (events (snd (integrate reference_build env 6
        INTEG_REUSE_FORCES_CONDITIONALLY s))) LB_propagate = count_list (events s) LB_propagate \<and>
      fluid_step (snd (integrate reference_build env 6 INTEG_REUSE_FORCES_CONDITIONALLY s)) =
        fluid_step s"
    by (rule integrate_fluid_steepest_descent) (rule f(1))
  then show ?thesis
    using six unfolding env_def [symmetric] s_def [symmetric] by (simp add: f env_def)
qed

section \<open>Interrupted runs\<close>


lemma integrate_interrupted:
  assumes size: "comm_cart_size cfg = 1" and latch: "ctrl_C s = 0"
    and j: "0 \<le> j" "j < n"
    and sig: "sigint env j" "\<And>i. 0 \<le> i \<Longrightarrow> i < j \<Longrightarrow> \<not> sigint env i"
    and full: "fst (integrate cfg (env\<lparr>sigint := \<lambda>_. False\<rparr>) n r s) = n"
  shows "fst (integrate cfg env n r s) = INTEG_ERROR_SIGINT"
    and "ctrl_C (snd (integrate cfg env n r s)) = 0"
    and "count_list (events (snd (integrate cfg env n r s))) Philox_counter_increment =
      count_list (events s) Philox_counter_increment + nat (j + 1)"
    and "caught_sigint_after cfg env n r s (j + 1)"
proof -
  define env0 where "env0 = env\<lparr>sigint := \<lambda>_. False\<rparr>"
  define s5 where "s5 = integrate_prepared cfg env r (integrate_checked cfg env s)"
  have s50: "integrate_prepared cfg env0 r (integrate_checked cfg env0 s) = s5"
    by (simp add: s5_def env0_def integrate_checked_sigint_update integrate_prepared_sigint_update)
  have chk0: "integrate_checked cfg env0 s = integrate_checked cfg env s"
    by (simp add: env0_def integrate_checked_sigint_update)
  have nonneg: "0 \<le> fst (integrate cfg env0 n r s)"
    using full j by (simp add: env0_def)
  note nn = integrate_nonneg [OF nonneg, unfolded s50]
  have n0: "integrated_steps (fst (integration_loop cfg env0 n 0 (loop_vars_0, s5))) = n"
    using nn(4) full by (simp add: env0_def)
  have c5: "ctrl_C s5 = 0" using latch by (simp add: s5_def)
  have L: "caught_sigint (fst (integration_loop cfg env n 0 (loop_vars_0, s5))) \<and>
     integrated_steps (fst (integration_loop cfg env n 0 (loop_vars_0, s5))) =
       integrated_steps loop_vars_0 + (j + 1 - 0)"
    using nn(2,3) n0 unfolding env0_def
    by (intro integration_loop_interrupted [OF size sig j(2) order_refl j(1) c5])
       (simp_all add: loop_vars_0_def)
  have run: "integrate cfg env n r s =
      integrate_finish cfg n (integration_loop cfg env n 0 (loop_vars_0, s5))"
    using nn(5,6) by (simp add: integrate_unfold Let_def s5_def chk0)
  show "fst (integrate cfg env n r s) = INTEG_ERROR_SIGINT"
    using L by (simp add: run integrate_finish_fst')
  show "ctrl_C (snd (integrate cfg env n r s)) = 0"
    using L by (simp add: run)
  have steps: "integrated_steps (fst (integration_loop cfg env n 0 (loop_vars_0, s5))) = j + 1"
    using L by (simp add: loop_vars_0_def)
  show "count_list (events (snd (integrate cfg env n r s))) Philox_counter_increment =
      count_list (events s) Philox_counter_increment + nat (j + 1)"
    using integration_loop_philox [of cfg env n 0 "(loop_vars_0, s5)"] steps
    by (simp add: run integrate_finish_count loop_vars_0_def s5_def integrate_prepared_count)
  show "caught_sigint_after cfg env n r s (j + 1)"
    unfolding caught_sigint_after_def s5_def [symmetric]
    using nn(5,6) L steps by (simp add: chk0 [symmetric])
qed






lemma reference_build_fields:
  "comm_cart_size reference_build = 1" "comm_cart_rank reference_build = 0"
  "NPT reference_build" "ROTATION reference_build" "STOKESIAN_DYNAMICS reference_build"
  "VIRTUAL_SITES reference_build"
  by (simp_all add: reference_build_def)



section \<open>Dispatch of the per-particle propagators\<close>

lemma integrator_step_1_new_events:
  assumes "integ_switch s \<noteq> INTEG_METHOD_STEEPEST_DESCENT"
  shows "drop (length (events s)) (events (snd (integrator_step_1 cfg env step ps s))) =
     concat (map (step_1_kernels (default_propagation s)
        (if (TRANS_LANGEVIN + ROT_LANGEVIN + TRANS_BROWNIAN + ROT_BROWNIAN) AND
              default_propagation s \<noteq> 0
         then TRANS_LANGEVIN + ROT_LANGEVIN + TRANS_BROWNIAN + ROT_BROWNIAN + TRANS_SYSTEM_DEFAULT
         else TRANS_LANGEVIN + ROT_LANGEVIN + TRANS_BROWNIAN + ROT_BROWNIAN))
       (zip [0..<length ps] ps)) @
     (if NPT cfg \<and> default_propagation s AND TRANS_LANGEVIN_NPT cfg \<noteq> 0
      then [Velocity_verlet_npt_step_1
              (filter_range (TRANS_SYSTEM_DEFAULT + TRANS_LANGEVIN_NPT cfg) ps)] else []) @
     (if STOKESIAN_DYNAMICS cfg \<and> default_propagation s AND TRANS_STOKESIAN \<noteq> 0
      then [Stokesian_dynamics_step_1
              (filter_range (TRANS_STOKESIAN + TRANS_SYSTEM_DEFAULT) ps)] else [])"
  using assms by (simp add: integrator_step_1_def Let_def settings_fields)

lemma in_set_zip_upt:
  "(a, b) \<in> set (zip [0..<length ps] ps) \<longleftrightarrow> a < length ps \<and> b = ps ! a"
proof
  assume "(a, b) \<in> set (zip [0..<length ps] ps)"
  then show "a < length ps \<and> b = ps ! a" by (auto simp: in_set_zip)
next
  assume "a < length ps \<and> b = ps ! a"
  then have "[0..<length ps] ! a = a \<and> ps ! a = b \<and> a < length ps" by simp
  then show "(a, b) \<in> set (zip [0..<length ps] ps)"
    unfolding in_set_zip by (intro exI [of _ a]) simp
qed

lemma bex_zip_upt:
  "(\<exists>x\<in>set (zip [0..<length ps] ps). P x) \<longleftrightarrow> (\<exists>a<length ps. P (a, ps ! a))"
proof
  assume "\<exists>x\<in>set (zip [0..<length ps] ps). P x"
  then obtain a b where "(a, b) \<in> set (zip [0..<length ps] ps)" "P (a, b)" by auto
  then show "\<exists>a<length ps. P (a, ps ! a)" by (auto simp: in_set_zip_upt)
next
  assume "\<exists>a<length ps. P (a, ps ! a)"
  then obtain a where a: "a < length ps" "P (a, ps ! a)" by blast
  then have "(a, ps ! a) \<in> set (zip [0..<length ps] ps)" by (simp add: in_set_zip_upt)
  with a(2) show "\<exists>x\<in>set (zip [0..<length ps] ps). P x" by blast
qed

lemma step_1_kernels_single:
  "Velocity_verlet_propagate_vel_pos_par i \<in> set (step_1_kernels dp ppi (a, b)) \<longleftrightarrow>
     a = i \<and> b AND ppi \<noteq> 0 \<and> should_propagate_with dp b TRANS_LANGEVIN"
  "Propagate_omega_quat_particle i \<in> set (step_1_kernels dp ppi (a, b)) \<longleftrightarrow>
     a = i \<and> b AND ppi \<noteq> 0 \<and> should_propagate_with dp b ROT_LANGEVIN"
  "Brownian_dynamics_propagator i \<in> set (step_1_kernels dp ppi (a, b)) \<longleftrightarrow>
     a = i \<and> b AND ppi \<noteq> 0 \<and> should_propagate_with dp b TRANS_BROWNIAN"
  "Brownian_dynamics_rotator i \<in> set (step_1_kernels dp ppi (a, b)) \<longleftrightarrow>
     a = i \<and> b AND ppi \<noteq> 0 \<and> should_propagate_with dp b ROT_BROWNIAN"
  by (auto simp: step_1_kernels_def)

lemma step_1_kernels_member:
  "Velocity_verlet_propagate_vel_pos_par i
     \<in> set (concat (map (step_1_kernels dp ppi) (zip [0..<length ps] ps))) \<longleftrightarrow>
   i < length ps \<and> ps ! i AND ppi \<noteq> 0 \<and> should_propagate_with dp (ps ! i) TRANS_LANGEVIN"
  "Propagate_omega_quat_particle i
     \<in> set (concat (map (step_1_kernels dp ppi) (zip [0..<length ps] ps))) \<longleftrightarrow>
   i < length ps \<and> ps ! i AND ppi \<noteq> 0 \<and> should_propagate_with dp (ps ! i) ROT_LANGEVIN"
  "Brownian_dynamics_propagator i
     \<in> set (concat (map (step_1_kernels dp ppi) (zip [0..<length ps] ps))) \<longleftrightarrow>
   i < length ps \<and> ps ! i AND ppi \<noteq> 0 \<and> should_propagate_with dp (ps ! i) TRANS_BROWNIAN"
  "Brownian_dynamics_rotator i
     \<in> set (concat (map (step_1_kernels dp ppi) (zip [0..<length ps] ps))) \<longleftrightarrow>
   i < length ps \<and> ps ! i AND ppi \<noteq> 0 \<and> should_propagate_with dp (ps ! i) ROT_BROWNIAN"
  by (simp_all add: bex_zip_upt step_1_kernels_single)

lemma and_or_neq_0:
  fixes p :: mask
  shows "p AND (a OR b) \<noteq> 0 \<longleftrightarrow> p AND a \<noteq> 0 \<or> p AND b \<noteq> 0"
  by (simp add: bit.conj_disj_distrib or_eq_0_iff)

lemma splittable_bits:
  "TRANS_LANGEVIN + ROT_LANGEVIN + TRANS_BROWNIAN + ROT_BROWNIAN =
     TRANS_LANGEVIN OR (ROT_LANGEVIN OR (TRANS_BROWNIAN OR ROT_BROWNIAN))"
  "TRANS_LANGEVIN + ROT_LANGEVIN + TRANS_BROWNIAN + ROT_BROWNIAN + TRANS_SYSTEM_DEFAULT =
     TRANS_LANGEVIN OR (ROT_LANGEVIN OR (TRANS_BROWNIAN OR (ROT_BROWNIAN OR TRANS_SYSTEM_DEFAULT)))"
  by (simp_all add: PropagationMode_defs)

lemma should_propagate_with_guard:
  assumes F: "F = TRANS_LANGEVIN \<or> F = ROT_LANGEVIN \<or> F = TRANS_BROWNIAN \<or> F = ROT_BROWNIAN"
    and sp: "should_propagate_with dp p F"
  shows "p AND
     (if (TRANS_LANGEVIN + ROT_LANGEVIN + TRANS_BROWNIAN + ROT_BROWNIAN) AND dp \<noteq> 0
      then TRANS_LANGEVIN + ROT_LANGEVIN + TRANS_BROWNIAN + ROT_BROWNIAN + TRANS_SYSTEM_DEFAULT
      else TRANS_LANGEVIN + ROT_LANGEVIN + TRANS_BROWNIAN + ROT_BROWNIAN) \<noteq> 0"
proof (cases "(TRANS_LANGEVIN + ROT_LANGEVIN + TRANS_BROWNIAN + ROT_BROWNIAN) AND dp \<noteq> 0")
  case True
  have "p AND (TRANS_LANGEVIN OR (ROT_LANGEVIN OR (TRANS_BROWNIAN OR
      (ROT_BROWNIAN OR TRANS_SYSTEM_DEFAULT)))) \<noteq> 0"
    using F sp by (auto simp: should_propagate_with_def and_or_neq_0)
  then show ?thesis using True by (simp add: splittable_bits(2))
next
  case False
  then have "dp AND (TRANS_LANGEVIN OR (ROT_LANGEVIN OR (TRANS_BROWNIAN OR ROT_BROWNIAN))) = 0"
    by (simp only: splittable_bits(1) and.commute [of dp] not_not)
  then have "dp AND F = 0" using F and_or_neq_0 [of dp] by auto
  then have "p AND F \<noteq> 0" using sp by (simp add: should_propagate_with_def)
  then have "p AND (TRANS_LANGEVIN OR (ROT_LANGEVIN OR (TRANS_BROWNIAN OR ROT_BROWNIAN))) \<noteq> 0"
    using F by (auto simp: and_or_neq_0)
  then show ?thesis using False by (simp add: splittable_bits(1))
qed

lemma integrator_step_1_steepest_descent:
  assumes "integ_switch s = INTEG_METHOD_STEEPEST_DESCENT"
  shows "drop (length (events s)) (events (snd (integrator_step_1 cfg env step ps s))) =
     [Steepest_descent_step]"
  using assms by (simp add: integrator_step_1_def)

lemma per_particle_kernels:
  fixes s :: state and cfg :: config and env :: env and step :: int and ps :: "mask list"
  assumes "integ_switch s \<noteq> INTEG_METHOD_STEEPEST_DESCENT"
  defines "fired \<equiv> set (drop (length (events s))
           (events (snd (integrator_step_1 cfg env step ps s))))"
  shows "Velocity_verlet_propagate_vel_pos_par i \<in> fired \<longleftrightarrow>
      i < length ps \<and> should_propagate_with (default_propagation s) (ps ! i) TRANS_LANGEVIN"
    and "Propagate_omega_quat_particle i \<in> fired \<longleftrightarrow>
      i < length ps \<and> should_propagate_with (default_propagation s) (ps ! i) ROT_LANGEVIN"
    and "Brownian_dynamics_propagator i \<in> fired \<longleftrightarrow>
      i < length ps \<and> should_propagate_with (default_propagation s) (ps ! i) TRANS_BROWNIAN"
    and "Brownian_dynamics_rotator i \<in> fired \<longleftrightarrow>
      i < length ps \<and> should_propagate_with (default_propagation s) (ps ! i) ROT_BROWNIAN"
proof -
  define dp where "dp = default_propagation s"
  define m where "m = ps ! i"
  define ppi where "ppi =
     (if (TRANS_LANGEVIN + ROT_LANGEVIN + TRANS_BROWNIAN + ROT_BROWNIAN) AND dp \<noteq> 0
      then TRANS_LANGEVIN + ROT_LANGEVIN + TRANS_BROWNIAN + ROT_BROWNIAN + TRANS_SYSTEM_DEFAULT
      else TRANS_LANGEVIN + ROT_LANGEVIN + TRANS_BROWNIAN + ROT_BROWNIAN)"
  have fired: "fired = set (concat (map (step_1_kernels dp ppi) (zip [0..<length ps] ps)) @
      (if NPT cfg \<and> dp AND TRANS_LANGEVIN_NPT cfg \<noteq> 0
      then [Velocity_verlet_npt_step_1
              (filter_range (TRANS_SYSTEM_DEFAULT + TRANS_LANGEVIN_NPT cfg) ps)] else []) @
      (if STOKESIAN_DYNAMICS cfg \<and> dp AND TRANS_STOKESIAN \<noteq> 0
      then [Stokesian_dynamics_step_1
              (filter_range (TRANS_STOKESIAN + TRANS_SYSTEM_DEFAULT) ps)] else []))"
    unfolding fired_def integrator_step_1_new_events [OF assms(1)] dp_def ppi_def ..
  have guard: "should_propagate_with dp m F \<Longrightarrow> m AND ppi \<noteq> 0"
    if "F = TRANS_LANGEVIN \<or> F = ROT_LANGEVIN \<or> F = TRANS_BROWNIAN \<or> F = ROT_BROWNIAN" for F
    unfolding ppi_def using that by (rule should_propagate_with_guard)
  show "Velocity_verlet_propagate_vel_pos_par i \<in> fired \<longleftrightarrow>
      i < length ps \<and> should_propagate_with (default_propagation s) (ps ! i) TRANS_LANGEVIN"
    unfolding fired set_append Un_iff step_1_kernels_member dp_def [symmetric] m_def [symmetric]
    using guard [of TRANS_LANGEVIN] by auto
  show "Propagate_omega_quat_particle i \<in> fired \<longleftrightarrow>
      i < length ps \<and> should_propagate_with (default_propagation s) (ps ! i) ROT_LANGEVIN"
    unfolding fired set_append Un_iff step_1_kernels_member dp_def [symmetric] m_def [symmetric]
    using guard [of ROT_LANGEVIN] by auto
  show "Brownian_dynamics_propagator i \<in> fired \<longleftrightarrow>
      i < length ps \<and> should_propagate_with (default_propagation s) (ps ! i) TRANS_BROWNIAN"
    unfolding fired set_append Un_iff step_1_kernels_member dp_def [symmetric] m_def [symmetric]
    using guard [of TRANS_BROWNIAN] by auto
  show "Brownian_dynamics_rotator i \<in> fired \<longleftrightarrow>
      i < length ps \<and> should_propagate_with (default_propagation s) (ps ! i) ROT_BROWNIAN"
    unfolding fired set_append Un_iff step_1_kernels_member dp_def [symmetric] m_def [symmetric]
    using guard [of ROT_BROWNIAN] by auto
qed

text \<open>
  C5, as the code has it. In phase 1 of a step, for the particle at position \<open>i\<close> of the
  range, with mask \<open>m\<close>, and for each of the four families dispatched per particle (Langevin
  translation, Langevin rotation, Brownian translation, Brownian rotation), the propagator
  of family \<open>F\<close> runs for that particle exactly when the integrator is not the steepest
  descent and \<open>m AND F \<noteq> 0\<close>, or \<open>F\<close> is in \<^verbatim>\<open>default_propagation\<close> and \<open>m\<close> carries
  \<^verbatim>\<open>TRANS_SYSTEM_DEFAULT\<close>; with the steepest descent, phase 1 runs the minimizer and no
  propagator. In particular, for a particle tagged \<^verbatim>\<open>TRANS_SYSTEM_DEFAULT\<close> only, the
  propagators that run are those of the families in \<^verbatim>\<open>default_propagation\<close>: changing the
  default changes them, and the mask of the particle is an input that phase 1 does not
  assign.
\<close>

theorem per_particle_dispatch:
  "let fired = set (drop (length (events s))
         (events (snd (integrator_step_1 cfg env step ps s))));
       dp = default_propagation s; m = ps ! i;
       dispatched = (integ_switch s \<noteq> INTEG_METHOD_STEEPEST_DESCENT \<and> i < length ps)
   in (Velocity_verlet_propagate_vel_pos_par i \<in> fired \<longleftrightarrow>
         dispatched \<and> (m AND TRANS_LANGEVIN \<noteq> 0 \<or>
           (dp AND TRANS_LANGEVIN \<noteq> 0 \<and> m AND TRANS_SYSTEM_DEFAULT \<noteq> 0))) \<and>
      (Propagate_omega_quat_particle i \<in> fired \<longleftrightarrow>
         dispatched \<and> (m AND ROT_LANGEVIN \<noteq> 0 \<or>
           (dp AND ROT_LANGEVIN \<noteq> 0 \<and> m AND TRANS_SYSTEM_DEFAULT \<noteq> 0))) \<and>
      (Brownian_dynamics_propagator i \<in> fired \<longleftrightarrow>
         dispatched \<and> (m AND TRANS_BROWNIAN \<noteq> 0 \<or>
           (dp AND TRANS_BROWNIAN \<noteq> 0 \<and> m AND TRANS_SYSTEM_DEFAULT \<noteq> 0))) \<and>
      (Brownian_dynamics_rotator i \<in> fired \<longleftrightarrow>
         dispatched \<and> (m AND ROT_BROWNIAN \<noteq> 0 \<or>
           (dp AND ROT_BROWNIAN \<noteq> 0 \<and> m AND TRANS_SYSTEM_DEFAULT \<noteq> 0))) \<and>
      (dispatched \<and> m = TRANS_SYSTEM_DEFAULT \<longrightarrow>
         (Velocity_verlet_propagate_vel_pos_par i \<in> fired \<longleftrightarrow> dp AND TRANS_LANGEVIN \<noteq> 0) \<and>
         (Propagate_omega_quat_particle i \<in> fired \<longleftrightarrow> dp AND ROT_LANGEVIN \<noteq> 0) \<and>
         (Brownian_dynamics_propagator i \<in> fired \<longleftrightarrow> dp AND TRANS_BROWNIAN \<noteq> 0) \<and>
         (Brownian_dynamics_rotator i \<in> fired \<longleftrightarrow> dp AND ROT_BROWNIAN \<noteq> 0))"
proof (cases "integ_switch s = INTEG_METHOD_STEEPEST_DESCENT")
  case True
  show ?thesis
    unfolding Let_def integrator_step_1_steepest_descent [OF True] using True by simp
next
  case False
  note k = per_particle_kernels [OF False, of _ cfg env step ps]
  have tsd: "TRANS_SYSTEM_DEFAULT AND TRANS_LANGEVIN = 0" "TRANS_SYSTEM_DEFAULT AND ROT_LANGEVIN = 0"
    "TRANS_SYSTEM_DEFAULT AND TRANS_BROWNIAN = 0" "TRANS_SYSTEM_DEFAULT AND ROT_BROWNIAN = 0"
    "TRANS_SYSTEM_DEFAULT \<noteq> 0"
    by (simp_all add: PropagationMode_defs)
  show ?thesis
    unfolding Let_def k using False
    by (auto simp: should_propagate_with_def tsd)
qed

text \<open>
  The rule does not hold for every family, nor in every step. A particle tagged
  \<^verbatim>\<open>TRANS_STOKESIAN\<close> has \<open>m AND F \<noteq> 0\<close> for the Stokesian family, and under the NVT default
  phase 1 runs no propagator at all for it (the Stokesian kernel runs only when it is the
  default). A particle tagged \<^verbatim>\<open>TRANS_LANGEVIN\<close> has \<open>m AND F \<noteq> 0\<close> for the Langevin
  translation, and with the steepest descent phase 1 runs the minimizer and nothing else.
\<close>

theorem per_particle_dispatch_counterexample:
  "TRANS_STOKESIAN AND TRANS_STOKESIAN \<noteq> 0 \<and>
   drop (length (events ready_state))
     (events (snd (integrator_step_1 reference_build quiet_env 0 [TRANS_STOKESIAN] ready_state)))
   = [] \<and>
   TRANS_LANGEVIN AND TRANS_LANGEVIN \<noteq> 0 \<and>
   drop (length (events
       (snd (set_integ_switch reference_build INTEG_METHOD_STEEPEST_DESCENT ready_state))))
     (events (snd (integrator_step_1 reference_build quiet_env 0 [TRANS_LANGEVIN]
        (snd (set_integ_switch reference_build INTEG_METHOD_STEEPEST_DESCENT ready_state)))))
   = [Steepest_descent_step]"
proof -
  have sw: "integ_switch ready_state \<noteq> INTEG_METHOD_STEEPEST_DESCENT"
    by (simp add: ready_state_fields)
  have cfg: "TRANS_LANGEVIN_NPT reference_build = push_bit 10 1"
    by (simp add: reference_build_def)
  have a: "TRANS_STOKESIAN AND TRANS_STOKESIAN \<noteq> 0 \<and>
      drop (length (events ready_state))
       (events (snd (integrator_step_1 reference_build quiet_env 0 [TRANS_STOKESIAN]
          ready_state))) = []"
    unfolding integrator_step_1_new_events [OF sw]
    by (simp add: ready_state_fields cfg step_1_kernels_def PropagationMode_defs)
  have b: "TRANS_LANGEVIN AND TRANS_LANGEVIN \<noteq> 0"
    by (simp add: PropagationMode_defs)
  have c: "drop (length (events
       (snd (set_integ_switch reference_build INTEG_METHOD_STEEPEST_DESCENT ready_state))))
     (events (snd (integrator_step_1 reference_build quiet_env 0 [TRANS_LANGEVIN]
        (snd (set_integ_switch reference_build INTEG_METHOD_STEEPEST_DESCENT ready_state))))) =
     [Steepest_descent_step]"
    by (rule integrator_step_1_steepest_descent) (rule steepest_descent_state_fields(1))
  show ?thesis using a b c by blast
qed

lemma brownian_state_fields:
  "integ_switch (snd (set_integ_switch reference_build INTEG_METHOD_BD ready_state)) =
     INTEG_METHOD_BD"
  "default_propagation (snd (set_integ_switch reference_build INTEG_METHOD_BD ready_state)) =
     TRANS_BROWNIAN + ROT_BROWNIAN"
  by (simp_all add: set_integ_switch_def default_propagation_from_integ_def Let_def
      reference_build_def)

text \<open>
  A particle tagged \<^verbatim>\<open>TRANS_SYSTEM_DEFAULT\<close> only: under the NVT default the velocity-Verlet
  propagator runs and the Brownian one does not; after \<^verbatim>\<open>set_integ_switch(INTEG_METHOD_BD)\<close>
  it is the other way round.
\<close>

theorem per_particle_dispatch_witness:
  "Velocity_verlet_propagate_vel_pos_par 0 \<in> set (drop (length (events ready_state))
      (events (snd (integrator_step_1 reference_build quiet_env 0 [TRANS_SYSTEM_DEFAULT]
         ready_state)))) \<and>
   Brownian_dynamics_propagator 0 \<notin> set (drop (length (events ready_state))
      (events (snd (integrator_step_1 reference_build quiet_env 0 [TRANS_SYSTEM_DEFAULT]
         ready_state)))) \<and>
   Brownian_dynamics_propagator 0 \<in> set (drop
      (length (events (snd (set_integ_switch reference_build INTEG_METHOD_BD ready_state))))
      (events (snd (integrator_step_1 reference_build quiet_env 0 [TRANS_SYSTEM_DEFAULT]
         (snd (set_integ_switch reference_build INTEG_METHOD_BD ready_state)))))) \<and>
   Velocity_verlet_propagate_vel_pos_par 0 \<notin> set (drop
      (length (events (snd (set_integ_switch reference_build INTEG_METHOD_BD ready_state))))
      (events (snd (integrator_step_1 reference_build quiet_env 0 [TRANS_SYSTEM_DEFAULT]
         (snd (set_integ_switch reference_build INTEG_METHOD_BD ready_state))))))"
  using per_particle_dispatch [where s = ready_state and ps = "[TRANS_SYSTEM_DEFAULT]"
      and i = 0 and cfg = reference_build and env = quiet_env and step = 0]
    per_particle_dispatch [where
      s = "snd (set_integ_switch reference_build INTEG_METHOD_BD ready_state)"
      and ps = "[TRANS_SYSTEM_DEFAULT]"
      and i = 0 and cfg = reference_build and env = quiet_env and step = 0]
  by (simp add: Let_def ready_state_fields brownian_state_fields PropagationMode_defs)

section \<open>The trace only grows\<close>

lemma prefix_events_primitives [simp]:
  "prefix xs (events s) \<Longrightarrow> prefix xs (events (call e s))"
  "prefix xs (events s) \<Longrightarrow> prefix xs (events (calls es s))"
  "prefix xs (events s) \<Longrightarrow> prefix xs (events (call_if b e s))"
  "prefix xs (events s) \<Longrightarrow> prefix xs (events (run_kernel k s))"
  "prefix xs (events s) \<Longrightarrow> prefix xs (events (update_box_params s))"
  by simp_all

lemma prefix_events_integrator_step_1 [simp]:
  "prefix xs (events s) \<Longrightarrow> prefix xs (events (snd (integrator_step_1 cfg env step ps s)))"
  by (simp add: integrator_step_1_def Let_def)

lemma prefix_events_integrator_step_2 [simp]:
  "prefix xs (events s) \<Longrightarrow> prefix xs (events (integrator_step_2 cfg ps s))"
  by (simp add: integrator_step_2_def Let_def)

lemma prefix_events_propagate_one_step_functionalities [simp]:
  "prefix xs (events s) \<Longrightarrow>
   prefix xs (events (propagate_one_step_functionalities cfg env s))"
  by (simp add: propagate_one_step_functionalities_def Let_def)

lemma prefix_events_loop_body_1 [simp]:
  "prefix xs (events s) \<Longrightarrow> prefix xs (events (snd (loop_body_1 cfg env step s)))"
  by (simp add: loop_body_1_def Let_def)

lemma prefix_events_loop_body_2 [simp]:
  "prefix xs (events s) \<Longrightarrow> prefix xs (events (snd (loop_body_2 cfg env step (v, s))))"
  by (simp add: loop_body_2_def Let_def)

lemma prefix_events_integration_loop:
  assumes "prefix xs (events (snd vs))"
  shows "prefix xs (events (snd (integration_loop cfg env n step vs)))"
  by (rule integration_loop_invariant [where I = "\<lambda>r. prefix xs (events (snd r))"])
     (simp_all add: assms)

lemma prefix_events_integrate_finish:
  "prefix xs (events (snd vs)) \<Longrightarrow> prefix xs (events (snd (integrate_finish cfg n vs)))"
  by (cases vs) (simp add: integrate_finish_events)

section \<open>Forces after a switch of the integrator\<close>

lemma set_integ_switch_recalc_forces:
  "recalc_forces (snd (set_integ_switch cfg v s))"
  by (cases v) (simp_all add: set_integ_switch_def default_propagation_from_integ_def Let_def)

lemma integrate_recalc_forces:
  assumes "recalc_forces s"
  shows "fst (integrate cfg env n INTEG_REUSE_FORCES_CONDITIONALLY s) = INTEG_ERROR_RUNTIME \<and>
       events (snd (integrate cfg env n INTEG_REUSE_FORCES_CONDITIONALLY s)) =
         events s @ [On_integration_start] \<or>
     prefix (events s @ [On_integration_start, Lb_lbcoupling_deactivate] @
               (if VIRTUAL_SITES cfg then [Virtual_sites_update] else []) @
               [Cells_update_ghosts, Force_calc])
       (events (snd (integrate cfg env n INTEG_REUSE_FORCES_CONDITIONALLY s)))"
proof -
  let ?r = INTEG_REUSE_FORCES_CONDITIONALLY
  let ?s5 = "integrate_prepared cfg env ?r (integrate_checked cfg env s)"
  let ?pre = "events s @ [On_integration_start, Lb_lbcoupling_deactivate] @
               (if VIRTUAL_SITES cfg then [Virtual_sites_update] else []) @
               [Cells_update_ghosts, Force_calc]"
  have rf: "recalc_forces (integrate_checked cfg env s)"
    using assms by (simp add: settings_fields)
  have p5: "prefix ?pre (events ?s5)"
    using rf
    by (simp add: integrate_prepared_events INTEG_REUSE_FORCES_CONDITIONALLY_def
        INTEG_REUSE_FORCES_ALWAYS_def INTEG_REUSE_FORCES_NEVER_def)
  show ?thesis
  proof (cases rule: integrate_cases [where cfg = cfg and env = env and s = s and n = n and r = ?r])
    case veto_start
    then show ?thesis by simp
  next
    case veto_prepared
    then show ?thesis using p5 by simp
  next
    case run
    have "prefix ?pre (events (snd (integration_loop cfg env n 0 (loop_vars_0, ?s5))))"
      by (rule prefix_events_integration_loop) (simp only: snd_conv p5)
    then have "prefix ?pre (events (snd (integrate cfg env n ?r s)))"
      unfolding run(3) by (rule prefix_events_integrate_finish)
    then show ?thesis by simp
  qed
qed

text \<open>
  C9. Every call of \<^verbatim>\<open>set_integ_switch\<close> sets \<^verbatim>\<open>recalc_forces\<close>, and the next call of
  \<^verbatim>\<open>integrate\<close> with the default policy then computes the forces before the first step:
  unless the call is vetoed at its first look at the error queue (and then runs nothing),
  its trace goes on with \<^verbatim>\<open>on_integration_start\<close> and the initial force calculation, ahead
  of everything the loop does.
\<close>

theorem set_integ_switch_forces_dirty:
  "recalc_forces (snd (set_integ_switch cfg v s)) \<and>
   (fst (integrate cfg env n INTEG_REUSE_FORCES_CONDITIONALLY (snd (set_integ_switch cfg v s)))
        = INTEG_ERROR_RUNTIME \<and>
      events (snd (integrate cfg env n INTEG_REUSE_FORCES_CONDITIONALLY
          (snd (set_integ_switch cfg v s)))) =
        events (snd (set_integ_switch cfg v s)) @ [On_integration_start] \<or>
    prefix (events (snd (set_integ_switch cfg v s)) @
              [On_integration_start, Lb_lbcoupling_deactivate] @
              (if VIRTUAL_SITES cfg then [Virtual_sites_update] else []) @
              [Cells_update_ghosts, Force_calc])
       (events (snd (integrate cfg env n INTEG_REUSE_FORCES_CONDITIONALLY
          (snd (set_integ_switch cfg v s))))))"
  using set_integ_switch_recalc_forces [of cfg v s]
    integrate_recalc_forces [OF set_integ_switch_recalc_forces [of cfg v s], of cfg env n]
  by blast

text \<open>The reference run starts with the initial force calculation.\<close>

theorem set_integ_switch_forces_dirty_witness:
  "recalc_forces ready_state \<and>
   prefix [On_timestep_change, On_integration_start, Lb_lbcoupling_deactivate,
           Virtual_sites_update, Cells_update_ghosts, Force_calc]
     (events (snd (integrate reference_build quiet_env 10 INTEG_REUSE_FORCES_CONDITIONALLY
        ready_state)))"
proof -
  have ten: "fst (integrate reference_build quiet_env 10 INTEG_REUSE_FORCES_CONDITIONALLY
      ready_state) = 10"
    by (rule integrate_clean)
       (simp_all add: ready_state_checked quiet_env_fields ready_state_fields)
  have s1: "snd (set_integ_switch reference_build INTEG_METHOD_NVT
       (snd (set_time_step quiet_env double_0_01 initial_state))) = ready_state"
    by (simp add: ready_state_def)
  show ?thesis
    using set_integ_switch_forces_dirty [of reference_build INTEG_METHOD_NVT
        "snd (set_time_step quiet_env double_0_01 initial_state)" quiet_env 10] ten
    unfolding s1
    by (simp add: INTEG_ERROR_RUNTIME_def ready_state_fields reference_build_fields)
qed

section \<open>Chunked integration\<close>

lemma integrate_chunk_calls:
  "chunk_calls (events (snd (integrate cfg env n r s))) = chunk_calls (events s)"
proof (cases rule: integrate_cases [where cfg = cfg and env = env and s = s and n = n and r = r])
  case veto_start
  then show ?thesis by simp
next
  case veto_prepared
  then show ?thesis by simp
next
  case run
  then show ?thesis by (simp add: integration_loop_chunk_calls)
qed

lemma chunk_result_eq:
  "chunk_result cfg envs n reuse s c =
     integrate cfg (envs c)
       (min (n - fst (chunk_entry cfg envs n reuse s c)) (auto_update_next_update (envs c)))
       (fst (snd (chunk_entry cfg envs n reuse s c))) (snd (snd (chunk_entry cfg envs n reuse s c)))"
  by (simp add: chunk_result_def case_prod_beta)

lemma chunk_entry_Suc:
  "chunk_entry cfg envs n reuse s (Suc c) =
     (fst (chunk_entry cfg envs n reuse s c) +
        min (n - fst (chunk_entry cfg envs n reuse s c)) (auto_update_next_update (envs c)),
      INTEG_REUSE_FORCES_ALWAYS,
      call (Auto_update
             (min (n - fst (chunk_entry cfg envs n reuse s c)) (auto_update_next_update (envs c))))
        (call (Mpi_call_integrate
                 (min (n - fst (chunk_entry cfg envs n reuse s c))
                    (auto_update_next_update (envs c)))
                 (fst (snd (chunk_entry cfg envs n reuse s c)))
                 (fst (chunk_result cfg envs n reuse s c)))
           (snd (chunk_result cfg envs n reuse s c))))"
  by (simp add: chunk_result_def Let_def case_prod_beta)

lemma accumulator_loop_stop:
  "\<not> i < n \<Longrightarrow> accumulator_loop cfg envs n c i reuse s = Some (0, s)"
  by (simp add: accumulator_loop.simps)

lemma accumulator_loop_chunk:
  assumes "i < n" and steps: "steps = min (n - i) (auto_update_next_update (envs c))"
  shows "fst (integrate cfg (envs c) steps reuse s) < 0 \<Longrightarrow>
      accumulator_loop cfg envs n c i reuse s =
        Some (fst (integrate cfg (envs c) steps reuse s),
          call (Mpi_call_integrate steps reuse (fst (integrate cfg (envs c) steps reuse s)))
            (snd (integrate cfg (envs c) steps reuse s)))"
    and "0 \<le> fst (integrate cfg (envs c) steps reuse s) \<Longrightarrow>
      accumulator_loop cfg envs n c i reuse s =
        accumulator_loop cfg envs n (Suc c) (i + steps) INTEG_REUSE_FORCES_ALWAYS
          (call (Auto_update steps)
            (call (Mpi_call_integrate steps reuse (fst (integrate cfg (envs c) steps reuse s)))
              (snd (integrate cfg (envs c) steps reuse s))))"
proof -
  show "accumulator_loop cfg envs n c i reuse s =
        Some (fst (integrate cfg (envs c) steps reuse s),
          call (Mpi_call_integrate steps reuse (fst (integrate cfg (envs c) steps reuse s)))
            (snd (integrate cfg (envs c) steps reuse s)))"
    if "fst (integrate cfg (envs c) steps reuse s) < 0"
    using assms(1) that
    by (subst accumulator_loop.simps)
       (simp add: steps [symmetric] Let_def case_prod_beta)
  show "accumulator_loop cfg envs n c i reuse s =
        accumulator_loop cfg envs n (Suc c) (i + steps) INTEG_REUSE_FORCES_ALWAYS
          (call (Auto_update steps)
            (call (Mpi_call_integrate steps reuse (fst (integrate cfg (envs c) steps reuse s)))
              (snd (integrate cfg (envs c) steps reuse s))))"
    if "0 \<le> fst (integrate cfg (envs c) steps reuse s)"
    using assms(1) that
    by (subst accumulator_loop.simps)
       (simp add: steps [symmetric] Let_def case_prod_beta)
qed

text \<open>As long as the chunks run and succeed, the loop stands where \<open>chunk_entry\<close> has it.\<close>

lemma accumulator_loop_unroll:
  assumes "\<forall>c<m. fst (chunk_entry cfg envs n reuse s c) < n \<and>
      0 \<le> fst (chunk_result cfg envs n reuse s c)"
  shows "accumulator_loop cfg envs n 0 0 reuse s =
     accumulator_loop cfg envs n m (fst (chunk_entry cfg envs n reuse s m))
       (fst (snd (chunk_entry cfg envs n reuse s m))) (snd (snd (chunk_entry cfg envs n reuse s m)))"
  using assms
proof (induction m)
  case 0
  show ?case by simp
next
  case (Suc m)
  have lt: "fst (chunk_entry cfg envs n reuse s m) < n"
    and ok: "0 \<le> fst (chunk_result cfg envs n reuse s m)"
    using Suc.prems by simp_all
  have "accumulator_loop cfg envs n 0 0 reuse s =
     accumulator_loop cfg envs n m (fst (chunk_entry cfg envs n reuse s m))
       (fst (snd (chunk_entry cfg envs n reuse s m))) (snd (snd (chunk_entry cfg envs n reuse s m)))"
    using Suc.IH Suc.prems by simp
  also have "\<dots> = accumulator_loop cfg envs n (Suc m)
       (fst (chunk_entry cfg envs n reuse s (Suc m)))
       (fst (snd (chunk_entry cfg envs n reuse s (Suc m))))
       (snd (snd (chunk_entry cfg envs n reuse s (Suc m))))"
    unfolding chunk_entry_Suc fst_conv snd_conv chunk_result_eq
    by (rule accumulator_loop_chunk(2) [OF lt refl]) (rule ok [unfolded chunk_result_eq])
  finally show ?case .
qed

lemma chunks_stop:
  assumes nxt: "\<And>c. 1 \<le> auto_update_next_update (envs c)"
  shows "\<forall>c'<c. fst (chunk_entry cfg envs n reuse s c') < n \<and>
        0 \<le> fst (chunk_result cfg envs n reuse s c') \<Longrightarrow>
     \<exists>m. (\<forall>c'<m. fst (chunk_entry cfg envs n reuse s c') < n \<and>
             0 \<le> fst (chunk_result cfg envs n reuse s c')) \<and>
         (n \<le> fst (chunk_entry cfg envs n reuse s m) \<or>
          fst (chunk_entry cfg envs n reuse s m) < n \<and>
            fst (chunk_result cfg envs n reuse s m) < 0)"
proof (induction "nat (n - fst (chunk_entry cfg envs n reuse s c))" arbitrary: c rule: less_induct)
  case less
  show ?case
  proof (cases "fst (chunk_entry cfg envs n reuse s c) < n \<and>
      0 \<le> fst (chunk_result cfg envs n reuse s c)")
    case False
    with less.prems show ?thesis by (intro exI [of _ c]) auto
  next
    case True
    have "1 \<le> min (n - fst (chunk_entry cfg envs n reuse s c)) (auto_update_next_update (envs c))"
      using True nxt [of c] by simp
    then have "nat (n - fst (chunk_entry cfg envs n reuse s (Suc c))) <
        nat (n - fst (chunk_entry cfg envs n reuse s c))"
      using True unfolding chunk_entry_Suc fst_conv by linarith
    moreover have "\<forall>c'<Suc c. fst (chunk_entry cfg envs n reuse s c') < n \<and>
        0 \<le> fst (chunk_result cfg envs n reuse s c')"
      using less.prems True by (auto simp: less_Suc_eq)
    ultimately show ?thesis by (rule less.hyps)
  qed
qed

text \<open>
  C10. Let \<^verbatim>\<open>integrate_with_signal_handler\<close> be called on the head node with
  \<open>n_steps \<ge> 1\<close> and \<^verbatim>\<open>update_accumulators\<close> set, with a skin that is set or can be guessed.
  The first chunk is a call of \<^verbatim>\<open>integrate\<close> under the caller's policy, and every later
  chunk a call under \<^verbatim>\<open>INTEG_REUSE_FORCES_ALWAYS\<close>, from the state the chunk before has left.
  When \<open>m\<close> chunks have run and returned counts, and no step is left, the result is 0, not
  a number of steps; when steps are left and the next chunk returns a negative code, the
  result is that code, and the loop ends there. When the accumulators always report a
  positive distance to their next update, one of the two happens and the call returns.
\<close>

theorem integrate_with_signal_handler_chunks:
  assumes "1 \<le> n" and "comm_cart_rank cfg = 0"
    and "skin_set s \<or> 0 < maximal_cutoff (envs 0)"
  shows
    "let s1 = (if skin_set s then s
               else set_skin (min (0.4 * maximal_cutoff (envs 0))
                      (max_range (envs 0) - maximal_cutoff (envs 0))) s);
         entry = chunk_entry cfg envs n reuse s1;
         chunk = chunk_result cfg envs n reuse s1;
         result = integrate_with_signal_handler cfg envs n reuse True s
     in (\<forall>c. chunk c =
            integrate cfg (envs c) (min (n - fst (entry c)) (auto_update_next_update (envs c)))
              (if c = 0 then reuse else INTEG_REUSE_FORCES_ALWAYS) (snd (snd (entry c)))) \<and>
        (\<forall>m. (\<forall>c<m. fst (entry c) < n \<and> 0 \<le> fst (chunk c)) \<longrightarrow>
           (n \<le> fst (entry m) \<longrightarrow> result = Some (Inr 0, snd (snd (entry m)))) \<and>
           (fst (entry m) < n \<and> fst (chunk m) < 0 \<longrightarrow>
              result = Some (Inr (fst (chunk m)),
                call (Mpi_call_integrate
                        (min (n - fst (entry m)) (auto_update_next_update (envs m)))
                        (if m = 0 then reuse else INTEG_REUSE_FORCES_ALWAYS) (fst (chunk m)))
                  (snd (chunk m))))) \<and>
        ((\<forall>c. 1 \<le> auto_update_next_update (envs c)) \<longrightarrow>
           (\<exists>m. (\<forall>c<m. fst (entry c) < n \<and> 0 \<le> fst (chunk c)) \<and>
              (n \<le> fst (entry m) \<or> fst (entry m) < n \<and> fst (chunk m) < 0)) \<and>
           (\<exists>res. result = Some res))"
proof -
  define s1 where "s1 =
     (if skin_set s then s
      else set_skin (min (0.4 * maximal_cutoff (envs 0))
             (max_range (envs 0) - maximal_cutoff (envs 0))) s)"
  define entry where "entry = chunk_entry cfg envs n reuse s1"
  define chunk where "chunk = chunk_result cfg envs n reuse s1"
  define result where "result = integrate_with_signal_handler cfg envs n reuse True s"
  have result: "result =
      map_option (\<lambda>(retval, s2). (Inr retval, s2)) (accumulator_loop cfg envs n 0 0 reuse s1)"
    using assms by (auto simp: result_def integrate_with_signal_handler_def Let_def s1_def)
  have policy: "fst (snd (entry c)) = (if c = 0 then reuse else INTEG_REUSE_FORCES_ALWAYS)" for c
    by (cases c) (simp_all add: entry_def chunk_entry_Suc del: chunk_entry.simps(2))
  have chunk: "chunk c =
      integrate cfg (envs c) (min (n - fst (entry c)) (auto_update_next_update (envs c)))
        (if c = 0 then reuse else INTEG_REUSE_FORCES_ALWAYS) (snd (snd (entry c)))" for c
    unfolding policy [symmetric] chunk_def entry_def by (rule chunk_result_eq)
  have stop: "result = Some (Inr 0, snd (snd (entry m)))"
    if "\<forall>c<m. fst (entry c) < n \<and> 0 \<le> fst (chunk c)" "n \<le> fst (entry m)" for m
  proof -
    have "accumulator_loop cfg envs n 0 0 reuse s1 =
        accumulator_loop cfg envs n m (fst (entry m)) (fst (snd (entry m))) (snd (snd (entry m)))"
      unfolding entry_def
      by (rule accumulator_loop_unroll) (use that(1) in \<open>simp add: entry_def chunk_def\<close>)
    also have "\<dots> = Some (0, snd (snd (entry m)))"
      using that(2) by (intro accumulator_loop_stop) simp
    finally show ?thesis by (simp add: result)
  qed
  have fail: "result = Some (Inr (fst (chunk m)),
        call (Mpi_call_integrate (min (n - fst (entry m)) (auto_update_next_update (envs m)))
                (if m = 0 then reuse else INTEG_REUSE_FORCES_ALWAYS) (fst (chunk m)))
          (snd (chunk m)))"
    if "\<forall>c<m. fst (entry c) < n \<and> 0 \<le> fst (chunk c)" "fst (entry m) < n" "fst (chunk m) < 0"
    for m
  proof -
    have "accumulator_loop cfg envs n 0 0 reuse s1 =
        accumulator_loop cfg envs n m (fst (entry m)) (fst (snd (entry m))) (snd (snd (entry m)))"
      unfolding entry_def
      by (rule accumulator_loop_unroll) (use that(1) in \<open>simp add: entry_def chunk_def\<close>)
    also have "\<dots> = Some (fst (chunk m),
        call (Mpi_call_integrate (min (n - fst (entry m)) (auto_update_next_update (envs m)))
                (fst (snd (entry m))) (fst (chunk m)))
          (snd (chunk m)))"
      using accumulator_loop_chunk(1) [OF that(2) refl, of cfg envs m "fst (snd (entry m))"
          "snd (snd (entry m))"] that(3)
      unfolding chunk policy by simp
    finally show ?thesis by (simp add: result policy)
  qed
  have total: "(\<exists>m. (\<forall>c<m. fst (entry c) < n \<and> 0 \<le> fst (chunk c)) \<and>
        (n \<le> fst (entry m) \<or> fst (entry m) < n \<and> fst (chunk m) < 0)) \<and>
      (\<exists>res. result = Some res)"
    if nxt: "\<forall>c. 1 \<le> auto_update_next_update (envs c)"
  proof -
    have "\<exists>m. (\<forall>c'<m. fst (chunk_entry cfg envs n reuse s1 c') < n \<and>
             0 \<le> fst (chunk_result cfg envs n reuse s1 c')) \<and>
         (n \<le> fst (chunk_entry cfg envs n reuse s1 m) \<or>
          fst (chunk_entry cfg envs n reuse s1 m) < n \<and>
            fst (chunk_result cfg envs n reuse s1 m) < 0)"
      by (rule chunks_stop [where c = 0]) (use nxt in simp_all)
    then obtain m where m: "\<forall>c<m. fst (entry c) < n \<and> 0 \<le> fst (chunk c)"
      "n \<le> fst (entry m) \<or> fst (entry m) < n \<and> fst (chunk m) < 0"
      unfolding entry_def chunk_def by blast
    from m(2) have "\<exists>res. result = Some res"
      using stop [OF m(1)] fail [OF m(1)] by blast
    with m show ?thesis by blast
  qed
  show ?thesis
    unfolding Let_def s1_def [symmetric] entry_def [symmetric] chunk_def [symmetric]
      result_def [symmetric]
    using chunk stop fail total by blast
qed

lemma reference_ready_integrate:
  assumes R: "reference_ready s" and n: "0 \<le> n"
    and env: "local_particles env 0 = [TRANS_SYSTEM_DEFAULT]" "start_errors env = []"
      "initial_force_errors env = []" "\<And>i. step_errors env i = []"
      "\<not> (lb_active env \<and> ek_active env)" "\<And>i. \<not> sigint env i"
      "\<And>i. \<not> steepest_descent_step env i"
  shows "fst (integrate reference_build env n r s) = n"
    and "reference_ready (snd (integrate reference_build env n r s))"
proof -
  have chk: "\<not> check_runtime_errors (integrate_checked reference_build env s)"
    using R env(1,2) by (intro reference_checked) (simp_all add: reference_ready_def)
  have latch: "ctrl_C s = 0" using R by (simp add: reference_ready_def)
  show "fst (integrate reference_build env n r s) = n"
    by (rule integrate_clean [OF chk env(3-7) latch n])
  have "settings (snd (integrate reference_build env n r s)) = settings s"
    by (rule integrate_settings)
  note st = settings_eqD [OF this]
  show "reference_ready (snd (integrate reference_build env n r s))"
    using st R integrate_clean_state [OF chk env(3-7) latch, of n r]
    by (simp add: reference_ready_def)
qed

lemma reference_ready_call [simp]: "reference_ready (call e s) = reference_ready s"
  by (simp add: reference_ready_def call_def)

lemma reference_ready_set_skin [simp]: "reference_ready (set_skin v s) = reference_ready s"
  by (simp add: reference_ready_def set_skin_def call_def)

lemma reference_ready_ready_state: "reference_ready ready_state"
  by (simp add: reference_ready_def ready_state_fields)

lemma chunk_entry_chunk_calls:
  "chunk_calls (events (snd (snd (chunk_entry cfg envs n reuse s (Suc c))))) =
     chunk_calls (events (snd (snd (chunk_entry cfg envs n reuse s c)))) @
     [(min (n - fst (chunk_entry cfg envs n reuse s c)) (auto_update_next_update (envs c)),
       fst (snd (chunk_entry cfg envs n reuse s c)), fst (chunk_result cfg envs n reuse s c))]"
  unfolding chunk_entry_Suc snd_conv
  by (simp add: chunk_result_eq integrate_chunk_calls)

text \<open>The first chunk of three steps of the reference run: two steps under the caller's policy.\<close>

lemma reference_first_chunk:
  assumes "envs 0 = quiet_env"
  defines "s1 \<equiv> set_skin (min (0.4 * maximal_cutoff quiet_env)
      (max_range quiet_env - maximal_cutoff quiet_env)) ready_state"
  shows "fst (chunk_entry reference_build envs 3 r s1 0) = 0"
    and "fst (chunk_result reference_build envs 3 r s1 0) = 2"
    and "fst (chunk_entry reference_build envs 3 r s1 (Suc 0)) = 2"
    and "fst (snd (chunk_entry reference_build envs 3 r s1 (Suc 0))) = INTEG_REUSE_FORCES_ALWAYS"
    and "reference_ready (snd (snd (chunk_entry reference_build envs 3 r s1 (Suc 0))))"
    and "chunk_calls (events (snd (snd (chunk_entry reference_build envs 3 r s1 (Suc 0))))) =
      [(2, r, 2)]"
proof -
  have R1: "reference_ready s1" by (simp add: s1_def reference_ready_ready_state)
  have c0: "chunk_result reference_build envs 3 r s1 0 = integrate reference_build quiet_env 2 r s1"
    by (simp add: chunk_result_eq assms(1) quiet_env_fields)
  note run = reference_ready_integrate [OF R1, of 2 quiet_env r]
  show "fst (chunk_entry reference_build envs 3 r s1 0) = 0" by simp
  show r0: "fst (chunk_result reference_build envs 3 r s1 0) = 2"
    unfolding c0 by (rule run(1)) (simp_all add: quiet_env_fields)
  show "fst (chunk_entry reference_build envs 3 r s1 (Suc 0)) = 2"
    unfolding chunk_entry_Suc by (simp add: assms(1) quiet_env_fields)
  show "fst (snd (chunk_entry reference_build envs 3 r s1 (Suc 0))) = INTEG_REUSE_FORCES_ALWAYS"
    unfolding chunk_entry_Suc by simp
  have "reference_ready (snd (integrate reference_build quiet_env 2 r s1))"
    by (rule run(2)) (simp_all add: quiet_env_fields)
  then show "reference_ready (snd (snd (chunk_entry reference_build envs 3 r s1 (Suc 0))))"
    unfolding chunk_entry_Suc snd_conv c0 by simp
  have "chunk_calls (events s1) = []"
    by (simp add: s1_def set_skin_def ready_state_fields)
  then show "chunk_calls (events (snd (snd (chunk_entry reference_build envs 3 r s1 (Suc 0))))) =
      [(2, r, 2)]"
    unfolding chunk_entry_chunk_calls using r0 by (simp add: assms(1) quiet_env_fields)
qed

text \<open>
  Three steps of the reference run, with accumulators two steps away from an update: a chunk
  of two steps under the caller's policy and a chunk of one step under
  \<^verbatim>\<open>INTEG_REUSE_FORCES_ALWAYS\<close>; the result is 0. The same with SIGINT delivered during the
  second chunk: that chunk returns the interrupt code, and so does the call.
\<close>

theorem integrate_with_signal_handler_chunks_witness:
  "map_option fst (integrate_with_signal_handler reference_build (\<lambda>c. quiet_env) 3
      INTEG_REUSE_FORCES_CONDITIONALLY True ready_state) = Some (Inr 0) \<and>
   map_option (\<lambda>x. chunk_calls (events (snd x)))
     (integrate_with_signal_handler reference_build (\<lambda>c. quiet_env) 3
        INTEG_REUSE_FORCES_CONDITIONALLY True ready_state) =
     Some [(2, INTEG_REUSE_FORCES_CONDITIONALLY, 2), (1, INTEG_REUSE_FORCES_ALWAYS, 1)] \<and>
   map_option fst (integrate_with_signal_handler reference_build
      (\<lambda>c. if c = Suc 0 then quiet_env\<lparr>sigint := (=) 0\<rparr> else quiet_env) 3
      INTEG_REUSE_FORCES_CONDITIONALLY True ready_state) = Some (Inr INTEG_ERROR_SIGINT) \<and>
   map_option (\<lambda>x. chunk_calls (events (snd x)))
     (integrate_with_signal_handler reference_build
        (\<lambda>c. if c = Suc 0 then quiet_env\<lparr>sigint := (=) 0\<rparr> else quiet_env) 3
        INTEG_REUSE_FORCES_CONDITIONALLY True ready_state) =
     Some [(2, INTEG_REUSE_FORCES_CONDITIONALLY, 2),
           (1, INTEG_REUSE_FORCES_ALWAYS, INTEG_ERROR_SIGINT)]"
proof -
  let ?r = INTEG_REUSE_FORCES_CONDITIONALLY
  define s1 where "s1 = set_skin (min (0.4 * maximal_cutoff quiet_env)
      (max_range quiet_env - maximal_cutoff quiet_env)) ready_state"
  define envsA where "envsA = (\<lambda>c::nat. quiet_env)"
  define envsB where
    "envsB = (\<lambda>c::nat. if c = Suc 0 then quiet_env\<lparr>sigint := (=) 0\<rparr> else quiet_env)"
  have start: "(if skin_set ready_state then ready_state
       else set_skin (min (0.4 * maximal_cutoff (envs 0))
              (max_range (envs 0) - maximal_cutoff (envs 0))) ready_state) = s1"
    if "envs 0 = quiet_env" for envs :: "nat \<Rightarrow> env"
    by (simp add: that s1_def ready_state_fields)
  have h: "(1::int) \<le> 3" "comm_cart_rank reference_build = 0"
    by (simp_all add: reference_build_fields)
  have skin: "skin_set ready_state \<or> 0 < maximal_cutoff (envs 0)"
    if "envs 0 = quiet_env" for envs :: "nat \<Rightarrow> env"
    by (simp add: that quiet_env_fields)
  have A0: "envsA 0 = quiet_env" and B0: "envsB 0 = quiet_env"
    by (simp_all add: envsA_def envsB_def)

  note fA = reference_first_chunk [where envs = envsA and r = ?r, OF A0, folded s1_def]
  have cA: "chunk_result reference_build envsA 3 ?r s1 (Suc 0) =
      integrate reference_build quiet_env 1 INTEG_REUSE_FORCES_ALWAYS
        (snd (snd (chunk_entry reference_build envsA 3 ?r s1 (Suc 0))))"
    unfolding chunk_result_eq fA by (simp add: envsA_def quiet_env_fields)
  have rA: "fst (chunk_result reference_build envsA 3 ?r s1 (Suc 0)) = 1"
    unfolding cA by (rule reference_ready_integrate(1) [OF fA(5)]) (simp_all add: quiet_env_fields)
  have eA: "fst (chunk_entry reference_build envsA 3 ?r s1 (Suc (Suc 0))) = 3"
    unfolding chunk_entry_Suc [of _ _ _ _ _ "Suc 0"] fst_conv fA
    by (simp add: envsA_def quiet_env_fields)
  have ccA: "chunk_calls (events (snd (snd
      (chunk_entry reference_build envsA 3 ?r s1 (Suc (Suc 0)))))) =
      [(2, ?r, 2), (1, INTEG_REUSE_FORCES_ALWAYS, 1)]"
    unfolding chunk_entry_chunk_calls [of _ _ _ _ _ "Suc 0"] fA rA
    by (simp add: envsA_def quiet_env_fields)
  have allA: "\<forall>c<Suc (Suc 0). fst (chunk_entry reference_build envsA 3 ?r s1 c) < 3 \<and>
      0 \<le> fst (chunk_result reference_build envsA 3 ?r s1 c)"
    using fA(1-3) rA by (simp add: less_Suc_eq del: chunk_entry.simps)
  have "integrate_with_signal_handler reference_build envsA 3 ?r True ready_state =
      Some (Inr 0, snd (snd (chunk_entry reference_build envsA 3 ?r s1 (Suc (Suc 0)))))"
    using integrate_with_signal_handler_chunks [where envs = envsA and reuse = ?r,
        OF h skin [where envs = envsA, OF A0], unfolded Let_def start [where envs = envsA, OF A0]] allA eA
    by (simp del: chunk_entry.simps)
  then have A: "map_option fst (integrate_with_signal_handler reference_build envsA 3 ?r True
        ready_state) = Some (Inr 0)"
    "map_option (\<lambda>x. chunk_calls (events (snd x)))
       (integrate_with_signal_handler reference_build envsA 3 ?r True ready_state) =
     Some [(2, ?r, 2), (1, INTEG_REUSE_FORCES_ALWAYS, 1)]"
    using ccA by (simp_all del: chunk_entry.simps)

  note fB = reference_first_chunk [where envs = envsB and r = ?r, OF B0, folded s1_def]
  define st where "st = snd (snd (chunk_entry reference_build envsB 3 ?r s1 (Suc 0)))"
  have cB: "chunk_result reference_build envsB 3 ?r s1 (Suc 0) =
      integrate reference_build (quiet_env\<lparr>sigint := (=) 0\<rparr>) 1 INTEG_REUSE_FORCES_ALWAYS st"
    unfolding chunk_result_eq fB st_def by (simp add: envsB_def quiet_env_fields)
  have Rst: "reference_ready st" unfolding st_def by (rule fB(5))
  have full: "fst (integrate reference_build ((quiet_env\<lparr>sigint := (=) 0\<rparr>)\<lparr>sigint := \<lambda>_. False\<rparr>)
      1 INTEG_REUSE_FORCES_ALWAYS st) = 1"
    by (rule reference_ready_integrate(1) [OF Rst]) (simp_all add: quiet_env_fields)
  have latch: "ctrl_C st = 0" using Rst by (simp add: reference_ready_def)
  have sig: "sigint (quiet_env\<lparr>sigint := (=) 0\<rparr>) 0"
    "\<And>i. 0 \<le> i \<Longrightarrow> i < 0 \<Longrightarrow> \<not> sigint (quiet_env\<lparr>sigint := (=) 0\<rparr>) i"
    by simp_all
  have rB: "fst (chunk_result reference_build envsB 3 ?r s1 (Suc 0)) = INTEG_ERROR_SIGINT"
    unfolding cB
    by (rule integrate_interrupted(1) [OF reference_build_fields(1) latch _ _ sig full]) simp_all
  have allB: "\<forall>c<Suc 0. fst (chunk_entry reference_build envsB 3 ?r s1 c) < 3 \<and>
      0 \<le> fst (chunk_result reference_build envsB 3 ?r s1 c)"
    using fB(1,2) by (simp del: chunk_entry.simps)
  have failB: "fst (chunk_entry reference_build envsB 3 ?r s1 (Suc 0)) < 3 \<and>
      fst (chunk_result reference_build envsB 3 ?r s1 (Suc 0)) < 0"
    using fB(3) rB by (simp add: INTEG_ERROR_SIGINT_def)
  have nextB: "auto_update_next_update (envsB (Suc 0)) = 2"
    by (simp add: envsB_def quiet_env_fields)
  note TB = integrate_with_signal_handler_chunks [where envs = envsB and reuse = ?r,
      OF h skin [where envs = envsB, OF B0], unfolded Let_def start [where envs = envsB, OF B0],
      THEN conjunct2, THEN conjunct1, THEN spec [where x = "Suc 0"], THEN mp, OF allB,
      THEN conjunct2, THEN mp, OF failB]
  have "integrate_with_signal_handler reference_build envsB 3 ?r True ready_state =
      Some (Inr INTEG_ERROR_SIGINT,
        call (Mpi_call_integrate 1 INTEG_REUSE_FORCES_ALWAYS INTEG_ERROR_SIGINT)
          (snd (chunk_result reference_build envsB 3 ?r s1 (Suc 0))))"
    using TB unfolding fB(3) rB nextB by simp
  moreover have "chunk_calls (events (snd (chunk_result reference_build envsB 3 ?r s1 (Suc 0)))) =
      [(2, ?r, 2)]"
    unfolding cB integrate_chunk_calls st_def by (rule fB(6))
  ultimately have B: "map_option fst (integrate_with_signal_handler reference_build envsB 3 ?r
        True ready_state) = Some (Inr INTEG_ERROR_SIGINT)"
    "map_option (\<lambda>x. chunk_calls (events (snd x)))
       (integrate_with_signal_handler reference_build envsB 3 ?r True ready_state) =
     Some [(2, ?r, 2), (1, INTEG_REUSE_FORCES_ALWAYS, INTEG_ERROR_SIGINT)]"
    by simp_all
  show ?thesis
    using A B unfolding envsA_def envsB_def by blast
qed

end
